(* ===== verification/Prelude.thy ===== *)
theory Prelude
  imports Main "HOL-Library.Word" "HOL-Library.Sublist"
begin

text \<open>
  Shared vocabulary of the development: the machine integer types, the NUL byte, bounded
  \<open>for\<close> loops over array indices, the first index satisfying a test (the \<open>for\<close> loop with a
  \<open>break\<close> of the C sources), and generic lemmas on lists.  The collections \<open>buf_simps\<close>
  (lengths of C buffers) and \<open>cstr_simps\<close> (contents of C strings) are filled by the
  component theories and carry most of their proofs.
\<close>

unbundle bit_operations_syntax

named_theorems buf_simps
named_theorems cstr_simps
named_theorems frame_simps

type_synonym u8 = "8 word"
type_synonym u16 = "16 word"
type_synonym u32 = "32 word"
type_synonym u64 = "64 word"

text \<open>The string terminator \<open>'\0'\<close>, and the two quote characters of the sources.\<close>

abbreviation NUL :: char where
  "NUL \<equiv> CHR 0x00"

abbreviation APOS :: char where
  "APOS \<equiv> CHR 0x27"

abbreviation DQUOTE :: char where
  "DQUOTE \<equiv> CHR 0x22"

subsection \<open>Counted loops\<close>

text \<open>\<open>for (int i = 0; i < n; i++) body\<close> over a state, and the loop that stops at the first
  index where a test holds.\<close>

definition for_range :: "nat \<Rightarrow> (nat \<Rightarrow> 's \<Rightarrow> 's) \<Rightarrow> 's \<Rightarrow> 's" where
  "for_range n f s = fold f [0..<n] s"

definition first_index :: "nat \<Rightarrow> (nat \<Rightarrow> bool) \<Rightarrow> nat option" where
  "first_index n P = List.find P [0..<n]"

lemma for_range_0 [simp]: "for_range 0 f s = s"
  by (simp add: for_range_def)

lemma for_range_Suc [simp]: "for_range (Suc n) f s = f n (for_range n f s)"
  by (simp add: for_range_def)

lemma for_range_invariant:
  assumes "P s" and "\<And>i s. i < n \<Longrightarrow> P s \<Longrightarrow> P (f i s)"
  shows "P (for_range n f s)"
  using assms(2)
proof (induction n)
  case 0
  show ?case using assms(1) by simp
next
  case (Suc n)
  from Suc.prems have "P (for_range n f s)" by (intro Suc.IH) simp
  then show ?case using Suc.prems by simp
qed

lemma for_range_indexed_invariant:
  assumes "P 0 s" and "\<And>i s. i < n \<Longrightarrow> P i s \<Longrightarrow> P (Suc i) (f i s)"
  shows "P n (for_range n f s)"
  using assms(2)
proof (induction n)
  case 0
  show ?case using assms(1) by simp
next
  case (Suc n)
  from Suc.prems have "P n (for_range n f s)" by (intro Suc.IH) simp
  then show ?case using Suc.prems by simp
qed

lemma for_range_frame:
  assumes "\<And>i s. i < n \<Longrightarrow> g (f i s) = g s"
  shows "g (for_range n f s) = g s"
  using assms by (induction n) auto

lemma for_range_cong [fundef_cong]:
  assumes "n = m" and "s = t" and "\<And>i u. i < m \<Longrightarrow> f i u = g i u"
  shows "for_range n f s = for_range m g t"
  unfolding assms(1,2) using assms(3) by (induction m) auto

lemma first_index_Some:
  "first_index n P = Some i \<longleftrightarrow> i < n \<and> P i \<and> (\<forall>j<i. \<not> P j)"
proof
  assume "first_index n P = Some i"
  then obtain k where k: "k < n" "P k" "i = k" and least: "\<forall>j<k. \<not> P ([0..<n] ! j)"
    by (auto simp: first_index_def find_Some_iff)
  then show "i < n \<and> P i \<and> (\<forall>j<i. \<not> P j)" by auto
next
  assume "i < n \<and> P i \<and> (\<forall>j<i. \<not> P j)"
  then show "first_index n P = Some i"
    by (auto simp: first_index_def find_Some_iff intro!: exI [of _ i])
qed

lemma first_index_None:
  "first_index n P = None \<longleftrightarrow> (\<forall>i<n. \<not> P i)"
  by (auto simp: first_index_def find_None_iff)

lemma first_index_SomeD:
  assumes "first_index n P = Some i"
  shows "i < n" and "P i" and "\<And>j. j < i \<Longrightarrow> \<not> P j"
  using assms by (auto simp: first_index_Some)

lemma first_index_cong [fundef_cong]:
  assumes "n = m" and "\<And>i. i < m \<Longrightarrow> P i = Q i"
  shows "first_index n P = first_index m Q"
proof (cases "first_index m Q")
  case None
  then have "first_index m P = None" using assms(2) by (simp add: first_index_None)
  with None show ?thesis using assms(1) by simp
next
  case (Some i)
  then have "first_index m P = Some i" using assms(2) by (simp add: first_index_Some)
  with Some show ?thesis using assms(1) by simp
qed

subsection \<open>Lists\<close>

lemma takeWhile_replicate_append:
  "takeWhile P (replicate n x @ xs) = (if P x then replicate n x @ takeWhile P xs
     else if n = 0 then takeWhile P xs else [])"
  by (induction n) auto

lemma nth_list_update_if:
  "i < length xs \<Longrightarrow> xs[j := v] ! i = (if i = j then v else xs ! i)"
  by (auto simp: nth_list_update)

lemma list_all_update:
  "list_all P xs \<Longrightarrow> P v \<Longrightarrow> list_all P (xs[i := v])"
  by (auto simp: list_all_iff dest: set_update_subset_insert [THEN subsetD])

lemma list_all_nthD: "list_all P xs \<Longrightarrow> i < length xs \<Longrightarrow> P (xs ! i)"
  by (simp add: list_all_length)

subsection \<open>Arrays of records\<close>

text \<open>A C array of \<open>n\<close> elements that all satisfy an invariant.\<close>

definition array_ok :: "nat \<Rightarrow> ('a \<Rightarrow> bool) \<Rightarrow> 'a list \<Rightarrow> bool" where
  "array_ok n P xs \<longleftrightarrow> length xs = n \<and> list_all P xs"

lemma array_okI: "length xs = n \<Longrightarrow> (\<And>i. i < n \<Longrightarrow> P (xs ! i)) \<Longrightarrow> array_ok n P xs"
  by (auto simp: array_ok_def list_all_length)

lemma array_ok_nth: "array_ok n P xs \<Longrightarrow> i < n \<Longrightarrow> P (xs ! i)"
  by (simp add: array_ok_def list_all_length)

lemma array_ok_length: "array_ok n P xs \<Longrightarrow> length xs = n"
  by (simp add: array_ok_def)

lemma array_ok_update [intro]:
  "array_ok n P xs \<Longrightarrow> (i < n \<Longrightarrow> P v) \<Longrightarrow> array_ok n P (xs[i := v])"
  by (cases "i < length xs") (auto simp: array_ok_def list_all_update list_update_beyond)

lemma array_ok_replicate [simp]: "array_ok n P (replicate n x) \<longleftrightarrow> n = 0 \<or> P x"
  by (auto simp: array_ok_def list_all_length)

subsection \<open>Arrays of slots as maps\<close>

text \<open>A store that keeps keyed records in an array of slots, some of them free, as the map from the
  keys of its active slots.\<close>

definition slot_map :: "('a \<Rightarrow> bool) \<Rightarrow> ('a \<Rightarrow> 'k) \<Rightarrow> ('a \<Rightarrow> 'v) \<Rightarrow> 'a list \<Rightarrow> 'k \<Rightarrow> 'v option" where
  "slot_map act key val s = map_of (map (\<lambda>r. (key r, val r)) (filter act s))"

definition slot_keys :: "('a \<Rightarrow> bool) \<Rightarrow> ('a \<Rightarrow> 'k) \<Rightarrow> 'a list \<Rightarrow> 'k list" where
  "slot_keys act key s = map key (filter act s)"

lemma slot_map_dom: "dom (slot_map act key val s) = set (slot_keys act key s)"
  by (simp add: slot_map_def slot_keys_def dom_map_of_conv_image_fst image_image)

lemma slot_map_split:
  assumes "i < length s"
  shows "slot_map act key val (s[i := x]) =
    slot_map act key val (drop (Suc i) s) ++ (if act x then [key x \<mapsto> val x] else Map.empty) ++ slot_map act key val (take i s)"
  using assms by (simp add: slot_map_def upd_conv_take_nth_drop map_add_assoc)

lemma slot_map_self:
  assumes "i < length s"
  shows "slot_map act key val s = slot_map act key val (drop (Suc i) s) ++
    (if act (s ! i) then [key (s ! i) \<mapsto> val (s ! i)] else Map.empty) ++ slot_map act key val (take i s)"
  using slot_map_split [OF assms, of act key val "s ! i"] by simp

lemma slot_keys_split:
  assumes "i < length s"
  shows "slot_keys act key (s[i := x]) =
    slot_keys act key (take i s) @ (if act x then [key x] else []) @ slot_keys act key (drop (Suc i) s)"
  using assms by (simp add: slot_keys_def upd_conv_take_nth_drop)

lemma slot_update:
  assumes "distinct (slot_keys act key s)" and "i < length s" and "act x" and "key x = k"
    and "act (s ! i) \<and> key (s ! i) = k \<or> \<not> act (s ! i) \<and> k \<notin> set (slot_keys act key s)"
  shows "slot_map act key val (s[i := x]) = (slot_map act key val s)(k \<mapsto> val x) \<and>
    distinct (slot_keys act key (s[i := x]))"
proof -
  have keys: "k \<notin> set (slot_keys act key (take i s))" "k \<notin> set (slot_keys act key (drop (Suc i) s))"
    "distinct (slot_keys act key (take i s) @ slot_keys act key (drop (Suc i) s))"
    using assms(1,2,5) slot_keys_split [OF assms(2), of act key "s ! i"] by (auto split: if_splits)
  have "slot_map act key val (s[i := x]) = (slot_map act key val s)(k \<mapsto> val x)"
    using assms(3-5) keys(1,2)
    by (auto simp: slot_map_split [OF assms(2)] slot_map_self [OF assms(2), of act key val] slot_map_dom [symmetric, of act key _ val] map_add_def fun_eq_iff
        domIff split: option.split)
  then show ?thesis using keys assms(3,4) by (auto simp: slot_keys_split [OF assms(2)])
qed

lemma slot_release:
  assumes "distinct (slot_keys act key s)" and "i < length s" and "\<not> act x" and "act (s ! i)" and "key (s ! i) = k"
  shows "slot_map act key val (s[i := x]) = (slot_map act key val s)(k := None) \<and>
    distinct (slot_keys act key (s[i := x]))"
proof -
  have keys: "k \<notin> set (slot_keys act key (take i s))" "k \<notin> set (slot_keys act key (drop (Suc i) s))"
    "distinct (slot_keys act key (take i s) @ slot_keys act key (drop (Suc i) s))"
    using assms(1,2,4,5) slot_keys_split [OF assms(2), of act key "s ! i"] by (auto split: if_splits)
  have "slot_map act key val (s[i := x]) = (slot_map act key val s)(k := None)"
    using assms(3-5) keys(1,2)
    by (auto simp: slot_map_split [OF assms(2)] slot_map_self [OF assms(2), of act key val] slot_map_dom [symmetric, of act key _ val] map_add_def fun_eq_iff
        domIff split: option.split)
  then show ?thesis using keys assms(3) by (auto simp: slot_keys_split [OF assms(2)])
qed

lemma slot_missing:
  "(\<forall>i<length s. \<not> (act (s ! i) \<and> key (s ! i) = k)) \<longleftrightarrow> k \<notin> set (slot_keys act key s)"
  by (auto simp: slot_keys_def in_set_conv_nth)
lemma slot_map_active:
  "\<lbrakk>r \<in> set s; act r; distinct (slot_keys act key s)\<rbrakk> \<Longrightarrow> slot_map act key val s (key r) = Some (val r)"
  unfolding slot_map_def slot_keys_def by (rule map_of_is_SomeI) (auto simp: comp_def)

text \<open>Writing a keyed record: into the slot that holds the key, or else into the first free one.\<close>

definition slot_upsert :: "nat \<Rightarrow> ('a \<Rightarrow> bool) \<Rightarrow> ('a \<Rightarrow> bool) \<Rightarrow> ('a \<Rightarrow> 'a) \<Rightarrow> 'a list \<Rightarrow> 'a list option" where
  "slot_upsert n matches act fill s =
     (case first_index n (\<lambda>i. matches (s ! i)) of
        Some i \<Rightarrow> Some (s[i := fill (s ! i)])
      | None \<Rightarrow> (case first_index n (\<lambda>i. \<not> act (s ! i)) of
                   Some i \<Rightarrow> Some (s[i := fill (s ! i)])
                 | None \<Rightarrow> None))"

text \<open>What a store promises of its record type: how an argument matches and fills a record.\<close>

locale slot_table =
  fixes n :: nat and entry_ok :: "'a \<Rightarrow> bool" and act :: "'a \<Rightarrow> bool" and key :: "'a \<Rightarrow> 'k" and val :: "'a \<Rightarrow> 'v"
    and arg_ok :: "'b \<Rightarrow> bool" and arg_key :: "'b \<Rightarrow> 'k" and arg_val :: "'b \<Rightarrow> 'v"
    and matches :: "'b \<Rightarrow> 'a \<Rightarrow> bool" and fill :: "'b \<Rightarrow> 'a \<Rightarrow> 'a"
  assumes matches_iff: "arg_ok b \<Longrightarrow> entry_ok r \<Longrightarrow> matches b r \<longleftrightarrow> act r \<and> key r = arg_key b"
    and fill_entry: "arg_ok b \<Longrightarrow> entry_ok r \<Longrightarrow>
      entry_ok (fill b r) \<and> act (fill b r) \<and> key (fill b r) = arg_key b \<and> val (fill b r) = arg_val b"
begin

lemma find_key:
  assumes "array_ok n entry_ok s" and "arg_ok b"
  shows "first_index n (\<lambda>i. matches b (s ! i)) = first_index n (\<lambda>i. act (s ! i) \<and> key (s ! i) = arg_key b)"
  by (rule first_index_cong) (use assms matches_iff in \<open>auto dest: array_ok_nth\<close>)

lemma upsert_stored:
  assumes "array_ok n entry_ok s" and "arg_ok b" and "distinct (slot_keys act key s)"
    and "slot_upsert n (matches b) act (fill b) s = Some s'"
  shows "slot_map act key val s' = (slot_map act key val s)(arg_key b \<mapsto> arg_val b) \<and>
    distinct (slot_keys act key s') \<and> array_ok n entry_ok s'"
proof -
  have len: "length s = n" using assms(1) by (rule array_ok_length)
  obtain i where i: "i < n" "s' = s[i := fill b (s ! i)]"
    "act (s ! i) \<and> key (s ! i) = arg_key b \<or> \<not> act (s ! i) \<and> arg_key b \<notin> set (slot_keys act key s)"
    using assms(4) slot_missing [of s act key "arg_key b"]
    by (auto simp: slot_upsert_def find_key [OF assms(1,2)] first_index_Some first_index_None len split: option.splits)
  have "entry_ok (s ! i)" using assms(1) i(1) by (rule array_ok_nth)
  from fill_entry [OF assms(2) this]
  show ?thesis
    using slot_update [OF assms(3), of i "fill b (s ! i)" "arg_key b" val] i assms(1) by (auto simp: len)
qed

lemma upsert_full:
  assumes "array_ok n entry_ok s" and "arg_ok b" and "slot_upsert n (matches b) act (fill b) s = None"
  shows "arg_key b \<notin> dom (slot_map act key val s) \<and> list_all act s"
  using assms(3) array_ok_length [OF assms(1)] slot_missing [of s act key "arg_key b"]
  by (auto simp: slot_upsert_def find_key [OF assms(1,2)] first_index_None slot_map_dom list_all_length split: option.splits)

end

end
