(* ===== verification/Libc.thy ===== *)
theory Libc
  imports Prelude
begin

text \<open>
  The freestanding C library of \<^verbatim>\<open>src/src/net/libc_glue.c\<close>.

  A C object of type \<open>char[n]\<close> is a \<open>char list\<close> of length \<open>n\<close> (\<open>char\<close> is the type of
  bytes), and a pointer into it is the list from the pointed-to byte on.  A string literal is
  the list of its characters; the end of a list reads as the terminator (\<open>deref\<close>).  A write
  outside the object makes the list longer, so that a length invariant on a buffer is at the
  same time the statement that no write left it.  \<open>cstr\<close> is the C string a buffer holds: its
  bytes before the first NUL.  Each routine is the loop of the source; the lemmas after it
  relate it to a closed form over \<open>cstr\<close>.
\<close>

type_synonym cbuf = "char list"

subsection \<open>Buffers and strings\<close>

definition deref :: "cbuf \<Rightarrow> char" where
  "deref s = (case s of [] \<Rightarrow> NUL | c # _ \<Rightarrow> c)"

lemma deref_simps [simp]: "deref [] = NUL" "deref (c # s) = c"
  by (simp_all add: deref_def)

definition cstr :: "cbuf \<Rightarrow> string" where
  "cstr b = takeWhile (\<lambda>c. c \<noteq> NUL) b"

text \<open>A buffer of \<open>n\<close> bytes that holds a terminated string: the invariant of every string
  field of the program.\<close>

definition buf :: "nat \<Rightarrow> cbuf \<Rightarrow> bool" where
  "buf n b \<longleftrightarrow> length b = n \<and> NUL \<in> set b"

text \<open>\<open>b[i] = c\<close>; outside the object the list grows.\<close>

definition poke :: "cbuf \<Rightarrow> nat \<Rightarrow> char \<Rightarrow> cbuf" where
  "poke b i c = take i b @ c # drop (Suc i) b"

text \<open>A zero-initialised local array, \<open>char b[n] = {0}\<close>.\<close>

definition zbuf :: "nat \<Rightarrow> cbuf" where
  "zbuf n = replicate n NUL"

subsection \<open>Memory routines\<close>

fun memset :: "cbuf \<Rightarrow> char \<Rightarrow> nat \<Rightarrow> cbuf" where
  "memset p c 0 = p"
| "memset p c (Suc n) = c # memset (tl p) c n"

text \<open>\<open>memcpy(dest, src, n)\<close> between two objects, and the same to \<open>dest + off\<close>.\<close>

fun memcpy :: "cbuf \<Rightarrow> cbuf \<Rightarrow> nat \<Rightarrow> cbuf" where
  "memcpy d s 0 = d"
| "memcpy d s (Suc n) = deref s # memcpy (tl d) (tl s) n"

definition memcpy_at :: "cbuf \<Rightarrow> nat \<Rightarrow> cbuf \<Rightarrow> nat \<Rightarrow> cbuf" where
  "memcpy_at d off s n = take off d @ memcpy (drop off d) s n"

text \<open>\<open>memmove\<close> inside one object: \<open>d\<close> and \<open>s\<close> are the offsets of destination and source.
  The copy runs upwards when the destination lies below the source, downwards otherwise.\<close>

fun move_up :: "cbuf \<Rightarrow> nat \<Rightarrow> nat \<Rightarrow> nat \<Rightarrow> cbuf" where
  "move_up m d s 0 = m"
| "move_up m d s (Suc n) = move_up (m[d := m ! s]) (Suc d) (Suc s) n"

fun move_down :: "cbuf \<Rightarrow> nat \<Rightarrow> nat \<Rightarrow> nat \<Rightarrow> cbuf" where
  "move_down m d s 0 = m"
| "move_down m d s (Suc n) = move_down (m[d + n := m ! (s + n)]) d s n"

definition memmove :: "cbuf \<Rightarrow> nat \<Rightarrow> nat \<Rightarrow> nat \<Rightarrow> cbuf" where
  "memmove m d s n = (if d = s then m else if d < s then move_up m d s n else move_down m d s n)"

fun memcmp :: "cbuf \<Rightarrow> cbuf \<Rightarrow> nat \<Rightarrow> int" where
  "memcmp p q 0 = 0"
| "memcmp p q (Suc n) =
     (if deref p \<noteq> deref q then of_char (deref p) - of_char (deref q)
      else memcmp (tl p) (tl q) n)"

fun memchr :: "cbuf \<Rightarrow> char \<Rightarrow> nat \<Rightarrow> nat option" where
  "memchr s c 0 = None"
| "memchr s c (Suc n) = (if deref s = c then Some 0 else map_option Suc (memchr (tl s) c n))"

subsection \<open>String routines\<close>

fun strlen :: "cbuf \<Rightarrow> nat" where
  "strlen [] = 0"
| "strlen (c # s) = (if c = NUL then 0 else Suc (strlen s))"

fun strncmp :: "cbuf \<Rightarrow> cbuf \<Rightarrow> nat \<Rightarrow> int" where
  "strncmp s1 s2 0 = 0"
| "strncmp s1 s2 (Suc n) =
     (if deref s1 \<noteq> deref s2 then of_char (deref s1) - of_char (deref s2)
      else if deref s1 = NUL then 0
      else strncmp (tl s1) (tl s2) n)"

fun strcmp :: "cbuf \<Rightarrow> cbuf \<Rightarrow> int" where
  "strcmp [] s2 = 0 - of_char (deref s2)"
| "strcmp (c # s1) s2 =
     (if c \<noteq> NUL \<and> c = deref s2 then strcmp s1 (tl s2) else of_char c - of_char (deref s2))"

fun strncpy :: "cbuf \<Rightarrow> cbuf \<Rightarrow> nat \<Rightarrow> cbuf" where
  "strncpy d s 0 = d"
| "strncpy d s (Suc n) =
     (if deref s \<noteq> NUL then deref s # strncpy (tl d) (tl s) n else memset d NUL (Suc n))"

text \<open>The inner comparison of \<open>strstr\<close>: does the needle stand at this place?\<close>

fun match_at :: "cbuf \<Rightarrow> cbuf \<Rightarrow> bool" where
  "match_at h [] = True"
| "match_at h (c # n) =
     (if deref h \<noteq> NUL \<and> c \<noteq> NUL \<and> deref h = c then match_at (tl h) n else c = NUL)"

fun strstr_loop :: "cbuf \<Rightarrow> cbuf \<Rightarrow> nat option" where
  "strstr_loop [] n = None"
| "strstr_loop (c # h) n =
     (if c = NUL then None
      else if c \<noteq> deref n then map_option Suc (strstr_loop h n)
      else if match_at (c # h) n then Some 0
      else map_option Suc (strstr_loop h n))"

text \<open>\<open>strstr\<close> and \<open>strchr\<close> return the offset of the result pointer, \<open>None\<close> for \<open>NULL\<close>.\<close>

definition strstr :: "cbuf \<Rightarrow> cbuf \<Rightarrow> nat option" where
  "strstr h n = (if deref n = NUL then Some 0 else strstr_loop h n)"

fun strchr :: "cbuf \<Rightarrow> char \<Rightarrow> nat option" where
  "strchr [] c = (if c = NUL then Some 0 else None)"
| "strchr (x # s) c =
     (if x = c then Some 0 else if x = NUL then None else map_option Suc (strchr s c))"

fun strrchr :: "cbuf \<Rightarrow> char \<Rightarrow> nat option" where
  "strrchr [] c = (if c = NUL then Some 0 else None)"
| "strrchr (x # s) c =
     (if x = NUL then (if c = NUL then Some 0 else None)
      else case strrchr s c of Some i \<Rightarrow> Some (Suc i) | None \<Rightarrow> if x = c then Some 0 else None)"

fun strcpy :: "cbuf \<Rightarrow> cbuf \<Rightarrow> cbuf" where
  "strcpy d [] = NUL # tl d"
| "strcpy d (c # s) = (if c = NUL then NUL # tl d else c # strcpy (tl d) s)"

fun strncat_copy :: "cbuf \<Rightarrow> cbuf \<Rightarrow> nat \<Rightarrow> cbuf" where
  "strncat_copy d s 0 = NUL # tl d"
| "strncat_copy d s (Suc n) =
     (if deref s \<noteq> NUL then deref s # strncat_copy (tl d) (tl s) n else NUL # tl d)"

fun strncat :: "cbuf \<Rightarrow> cbuf \<Rightarrow> nat \<Rightarrow> cbuf" where
  "strncat [] s n = strncat_copy [] s n"
| "strncat (c # d) s n = (if c \<noteq> NUL then c # strncat d s n else strncat_copy (c # d) s n)"

fun strcat :: "cbuf \<Rightarrow> cbuf \<Rightarrow> cbuf" where
  "strcat [] s = strcpy [] s"
| "strcat (c # d) s = (if c \<noteq> NUL then c # strcat d s else strcpy (c # d) s)"

subsection \<open>Closed forms of the memory routines\<close>

lemma memset_eq: "memset p c n = replicate n c @ drop n p"
  by (induction p c n rule: memset.induct) (auto simp: drop_Suc)

lemma length_memset [buf_simps]: "length (memset p c n) = max n (length p)"
  by (simp add: memset_eq)

lemma memcpy_eq: "memcpy d s n = take n s @ replicate (n - length s) NUL @ drop n d"
proof (induction d s n rule: memcpy.induct)
  case (1 d s)
  then show ?case by simp
next
  case (2 d s n)
  then show ?case by (cases s) (auto simp: drop_Suc)
qed

lemma memcpy_at_eq:
  assumes "n \<le> length s"
  shows "memcpy_at d off s n = take off d @ take n s @ drop (off + n) d"
  using assms by (simp add: memcpy_at_def memcpy_eq add.commute)

lemma length_move_up [buf_simps, simp]: "length (move_up m d s n) = length m"
  by (induction m d s n rule: move_up.induct) auto

lemma length_move_down [buf_simps, simp]: "length (move_down m d s n) = length m"
  by (induction m d s n rule: move_down.induct) auto

lemma length_memmove [buf_simps, simp]: "length (memmove m d s n) = length m"
  by (simp add: memmove_def)

lemma move_up_nth:
  "d < s \<Longrightarrow> s + n \<le> length m \<Longrightarrow> i < length m \<Longrightarrow>
   move_up m d s n ! i = (if d \<le> i \<and> i < d + n then m ! (i - d + s) else m ! i)"
proof (induction m d s n arbitrary: i rule: move_up.induct)
  case (1 m d s)
  then show ?case by auto
next
  case (2 m d s n)
  have "move_up (m[d := m ! s]) (Suc d) (Suc s) n ! i =
      (if Suc d \<le> i \<and> i < Suc d + n then m[d := m ! s] ! (i - Suc d + Suc s) else m[d := m ! s] ! i)"
    using 2 by simp
  moreover have "i - Suc d + Suc s \<noteq> d" using "2.prems" by linarith
  ultimately show ?case using "2.prems" by (cases "i = d") (auto simp: Suc_diff_Suc)
qed

lemma move_down_nth:
  "s < d \<Longrightarrow> d + n \<le> length m \<Longrightarrow> i < length m \<Longrightarrow>
   move_down m d s n ! i = (if d \<le> i \<and> i < d + n then m ! (i - d + s) else m ! i)"
proof (induction m d s n arbitrary: i rule: move_down.induct)
  case (1 m d s)
  then show ?case by auto
next
  case (2 m d s n)
  have "move_down (m[d + n := m ! (s + n)]) d s n ! i =
      (if d \<le> i \<and> i < d + n then m[d + n := m ! (s + n)] ! (i - d + s)
       else m[d + n := m ! (s + n)] ! i)"
    using 2 by simp
  moreover have "d \<le> i \<Longrightarrow> i < d + n \<Longrightarrow> i - d + s \<noteq> d + n" using "2.prems" by linarith
  ultimately show ?case
    using "2.prems" by (cases "i = d + n") (auto simp: algebra_simps)
qed

lemma memmove_eq:
  assumes "d + n \<le> length m" and "s + n \<le> length m"
  shows "memmove m d s n = take d m @ take n (drop s m) @ drop (d + n) m"
proof (rule nth_equalityI)
  show "length (memmove m d s n) = length (take d m @ take n (drop s m) @ drop (d + n) m)"
    using assms by simp
next
  fix i assume "i < length (memmove m d s n)"
  then have i: "i < length m" by simp
  have "memmove m d s n ! i = (if d \<le> i \<and> i < d + n then m ! (i - d + s) else m ! i)"
    using assms i move_up_nth [of d s n m i] move_down_nth [of s d n m i]
    by (auto simp: memmove_def)
  moreover have "min (length m - s) n = n" and "min (length m) d = d"
    using assms by simp_all
  ultimately show "memmove m d s n ! i = (take d m @ take n (drop s m) @ drop (d + n) m) ! i"
    using assms i by (auto simp: nth_append add.commute)
qed

lemma memcmp_eq_0:
  "n \<le> length p \<Longrightarrow> n \<le> length q \<Longrightarrow> memcmp p q n = 0 \<longleftrightarrow> take n p = take n q"
proof (induction p q n rule: memcmp.induct)
  case (1 p q)
  then show ?case by simp
next
  case (2 p q n)
  then obtain a p' b q' where "p = a # p'" "q = b # q'" by (cases p; cases q) auto
  with 2 show ?case by auto
qed

lemma memchr_Some:
  "n \<le> length s \<Longrightarrow> memchr s c n = Some i \<longleftrightarrow> i < n \<and> s ! i = c \<and> (\<forall>j<i. s ! j \<noteq> c)"
proof (induction s c n arbitrary: i rule: memchr.induct)
  case (1 s c)
  then show ?case by simp
next
  case (2 s c n)
  then obtain x xs where s: "s = x # xs" by (cases s) auto
  show ?case
  proof (cases i)
    case 0
    then show ?thesis using s by auto
  next
    case (Suc k)
    then show ?thesis using s 2 by (auto simp: All_less_Suc2)
  qed
qed

lemma memchr_None:
  "n \<le> length s \<Longrightarrow> memchr s c n = None \<longleftrightarrow> c \<notin> set (take n s)"
proof (induction s c n rule: memchr.induct)
  case (1 s c)
  then show ?case by simp
next
  case (2 s c n)
  then obtain x xs where s: "s = x # xs" by (cases s) auto
  then show ?case using 2 by auto
qed

subsection \<open>Closed forms of the string routines\<close>

lemma cstr_simps_basic [simp, cstr_simps]:
  "cstr [] = []"
  "cstr (c # s) = (if c = NUL then [] else c # cstr s)"
  by (simp_all add: cstr_def)

lemma NUL_notin_cstr [simp]: "NUL \<notin> set (cstr s)"
  by (auto simp: cstr_def dest: set_takeWhileD)

lemma cstr_NUL_free: "NUL \<notin> set s \<Longrightarrow> cstr s = s"
  by (simp add: cstr_def takeWhile_eq_all_conv) metis

lemma cstr_cstr [simp]: "cstr (cstr s) = cstr s"
  by (simp add: cstr_NUL_free)

lemma cstr_append:
  "cstr (s @ t) = (if NUL \<in> set s then cstr s else s @ cstr t)"
  by (induction s) auto

lemma cstr_append_NUL [simp, cstr_simps]: "cstr (s @ NUL # t) = cstr s"
  by (induction s) auto

lemma cstr_take: "cstr (take n s) = take n (cstr s)"
proof (induction s arbitrary: n)
  case (Cons c s)
  then show ?case by (cases n) auto
qed simp

lemma cstr_take_cstr [simp, cstr_simps]: "cstr (take n (cstr s)) = take n (cstr s)"
  by (simp add: cstr_take)

lemma cstr_drop: "i \<le> length (cstr s) \<Longrightarrow> cstr (drop i s) = drop i (cstr s)"
proof (induction s arbitrary: i)
  case (Cons c s)
  then show ?case by (cases i) (auto split: if_splits)
qed simp

lemma cstr_replicate_NUL [simp, cstr_simps]: "cstr (replicate n NUL) = []"
  by (cases n) auto

lemma cstr_replicate_NUL_append [cstr_simps]:
  "cstr (replicate n NUL @ t) = (if n = 0 then cstr t else [])"
  by (cases n) auto

lemma cstr_zbuf [simp, cstr_simps]: "cstr (zbuf n) = []"
  by (simp add: zbuf_def)

lemma length_zbuf [simp, buf_simps]: "length (zbuf n) = n"
  by (simp add: zbuf_def)

lemma length_cstr_le: "length (cstr s) \<le> length s"
  by (simp add: cstr_def length_takeWhile_le)

lemma length_cstr_less: "NUL \<in> set s \<Longrightarrow> length (cstr s) < length s"
  by (induction s) (auto simp: length_cstr_le less_Suc_eq_le)

lemma buf_length_cstr: "buf n b \<Longrightarrow> length (cstr b) < n"
  using length_cstr_less by (auto simp: buf_def)

lemma deref_eq_NUL: "deref s = NUL \<longleftrightarrow> cstr s = []"
  by (cases s) auto

lemma deref_not_NUL: "deref s \<noteq> NUL \<Longrightarrow> s = deref s # tl s"
  by (cases s) auto

lemma strlen_eq [cstr_simps]: "strlen s = length (cstr s)"
  by (induction s) auto

lemma of_char_eq_0 [simp]: "(of_char c :: int) = 0 \<longleftrightarrow> c = NUL"
proof -
  have "(of_char NUL :: int) = 0" by simp
  then show ?thesis by (metis of_char_eq_iff)
qed

lemma strncmp_eq_0: "strncmp s1 s2 n = 0 \<longleftrightarrow> take n (cstr s1) = take n (cstr s2)"
proof (induction s1 s2 n rule: strncmp.induct)
  case (1 s1 s2)
  then show ?case by simp
next
  case (2 s1 s2 n)
  show ?case
  proof (cases "deref s1 = deref s2 \<and> deref s1 \<noteq> NUL")
    case True
    then have "s1 = deref s1 # tl s1" "s2 = deref s1 # tl s2"
      using deref_not_NUL by metis+
    then obtain c t1 t2 where "s1 = c # t1" "s2 = c # t2" by metis
    with True 2 show ?thesis by simp
  next
    case False
    then show ?thesis by (cases s1; cases s2) (auto split: if_splits)
  qed
qed

lemma strcmp_eq_0: "strcmp s1 s2 = 0 \<longleftrightarrow> cstr s1 = cstr s2"
proof (induction s1 s2 rule: strcmp.induct)
  case (1 s2)
  then show ?case by (cases s2) auto
next
  case (2 c s1 s2)
  then show ?case by (cases s2) auto
qed

lemma strncpy_eq:
  "strncpy d s n = take n (cstr s) @ replicate (n - length (cstr s)) NUL @ drop n d"
proof (induction d s n rule: strncpy.induct)
  case (1 d s)
  then show ?case by simp
next
  case (2 d s n)
  then show ?case by (cases s) (auto simp: drop_Suc memset_eq)
qed

lemma length_strncpy [buf_simps]: "length (strncpy d s n) = max n (length d)"
  by (simp add: strncpy_eq)

lemma cstr_strncpy:
  "cstr (strncpy d s n) =
     (if length (cstr s) < n then cstr s else take n (cstr s) @ cstr (drop n d))"
  by (auto simp: strncpy_eq cstr_append cstr_replicate_NUL_append dest: in_set_takeD)

lemma match_at_prefix: "match_at h n \<longleftrightarrow> prefix (cstr n) (cstr h)"
proof (induction h n rule: match_at.induct)
  case (1 h)
  then show ?case by simp
next
  case (2 h c n)
  then show ?case by (cases h) auto
qed

lemma prefix_nth_hd: "prefix (c # n) h \<Longrightarrow> h \<noteq> [] \<and> hd h = c"
  by (cases h) auto

lemma strstr_loop_Some:
  assumes "cstr n \<noteq> []"
  shows "strstr_loop h n = Some i \<longleftrightarrow>
     prefix (cstr n) (drop i (cstr h)) \<and> (\<forall>j<i. \<not> prefix (cstr n) (drop j (cstr h)))"
  using assms
proof (induction h arbitrary: i)
  case Nil
  then show ?case by auto
next
  case (Cons c h)
  show ?case
  proof (cases "c = NUL")
    case True
    then show ?thesis using Cons.prems by auto
  next
    case c: False
    show ?thesis
    proof (cases "prefix (cstr n) (cstr (c # h))")
      case True
      moreover have "c = deref n" using True c Cons.prems by (cases n) (auto split: if_splits)
      ultimately have "strstr_loop (c # h) n = Some 0" using c by (simp add: match_at_prefix)
      with True show ?thesis by (cases i) auto
    next
      case False
      then have "strstr_loop (c # h) n = map_option Suc (strstr_loop h n)"
        using c by (auto simp: match_at_prefix)
      moreover have "strstr_loop h n = Some k \<longleftrightarrow>
          prefix (cstr n) (drop k (cstr h)) \<and> (\<forall>j<k. \<not> prefix (cstr n) (drop j (cstr h)))" for k
        using Cons by simp
      ultimately show ?thesis using False c
        by (cases i) (auto simp: All_less_Suc2)
    qed
  qed
qed

lemma strstr_Some:
  "strstr h n = Some i \<longleftrightarrow>
     prefix (cstr n) (drop i (cstr h)) \<and> (\<forall>j<i. \<not> prefix (cstr n) (drop j (cstr h)))"
proof (cases "cstr n = []")
  case True
  then show ?thesis by (auto simp: strstr_def deref_eq_NUL)
next
  case False
  then show ?thesis by (simp add: strstr_def deref_eq_NUL strstr_loop_Some)
qed

lemma sublist_drop_prefix: "sublist n h \<longleftrightarrow> (\<exists>i. prefix n (drop i h))"
proof
  assume "sublist n h"
  then obtain p s where "h = p @ n @ s" by (auto simp: sublist_def)
  then show "\<exists>i. prefix n (drop i h)" by (intro exI [of _ "length p"]) simp
next
  assume "\<exists>i. prefix n (drop i h)"
  then obtain i s where "drop i h = n @ s" by (auto simp: prefix_def)
  then have "h = take i h @ n @ s" by (metis append_take_drop_id)
  then show "sublist n h" unfolding sublist_def by blast
qed

lemma strstr_None: "strstr h n = None \<longleftrightarrow> \<not> sublist (cstr n) (cstr h)"
proof
  assume "strstr h n = None"
  then have "\<not> (\<exists>i. prefix (cstr n) (drop i (cstr h)) \<and>
      (\<forall>j<i. \<not> prefix (cstr n) (drop j (cstr h))))"
    using strstr_Some by (metis option.distinct(1))
  then have "\<not> (\<exists>i. prefix (cstr n) (drop i (cstr h)))"
    using exists_least_iff [of "\<lambda>i. prefix (cstr n) (drop i (cstr h))"] by blast
  then show "\<not> sublist (cstr n) (cstr h)" by (simp add: sublist_drop_prefix)
next
  assume *: "\<not> sublist (cstr n) (cstr h)"
  show "strstr h n = None"
  proof (cases "strstr h n")
    case (Some i)
    then have "prefix (cstr n) (drop i (cstr h))" by (simp add: strstr_Some)
    with * show ?thesis by (auto simp: sublist_drop_prefix)
  qed simp
qed

lemma strchr_Some:
  "c \<noteq> NUL \<Longrightarrow> strchr s c = Some i \<longleftrightarrow>
     i < length (cstr s) \<and> cstr s ! i = c \<and> (\<forall>j<i. cstr s ! j \<noteq> c)"
proof (induction s c arbitrary: i rule: strchr.induct)
  case (1 c)
  then show ?case by simp
next
  case (2 x s c)
  then show ?case by (cases i) (auto simp: All_less_Suc2)
qed

lemma strchr_None: "c \<noteq> NUL \<Longrightarrow> strchr s c = None \<longleftrightarrow> c \<notin> set (cstr s)"
  by (induction s c rule: strchr.induct) auto

lemma strcpy_eq: "strcpy d s = cstr s @ NUL # drop (Suc (length (cstr s))) d"
  by (induction d s rule: strcpy.induct) (auto simp: drop_Suc)

lemma cstr_strcpy [cstr_simps]: "cstr (strcpy d s) = cstr s"
  by (simp add: strcpy_eq)

lemma length_strcpy [buf_simps]: "length (strcpy d s) = max (Suc (length (cstr s))) (length d)"
  by (simp add: strcpy_eq)

lemma strncat_copy_eq:
  "strncat_copy d s n =
     take n (cstr s) @ NUL # drop (Suc (min n (length (cstr s)))) d"
proof (induction d s n rule: strncat_copy.induct)
  case (1 d s)
  then show ?case by (simp add: drop_Suc)
next
  case (2 d s n)
  then show ?case by (cases s) (auto simp: drop_Suc)
qed

lemma strncat_eq:
  "strncat d s n =
     cstr d @ take n (cstr s) @ NUL # drop (Suc (length (cstr d) + min n (length (cstr s)))) d"
  by (induction d s n rule: strncat.induct) (auto simp: strncat_copy_eq)

lemma cstr_strncat [cstr_simps]: "cstr (strncat d s n) = cstr d @ take n (cstr s)"
  by (simp add: strncat_eq cstr_append)

lemma strcat_eq:
  "strcat d s = cstr d @ cstr s @ NUL # drop (Suc (length (cstr d) + length (cstr s))) d"
  by (induction d s rule: strcat.induct) (auto simp: strcpy_eq)

lemma cstr_strcat [cstr_simps]: "cstr (strcat d s) = cstr d @ cstr s"
  by (simp add: strcat_eq cstr_append)

subsection \<open>Bounded copies with an explicit terminator\<close>

text \<open>The idiom \<open>strncpy(d, s, n); d[n] = '\0';\<close> of the sources.\<close>

definition strncpy_term :: "cbuf \<Rightarrow> cbuf \<Rightarrow> nat \<Rightarrow> cbuf" where
  "strncpy_term d s n = poke (strncpy d s n) n NUL"

lemma length_poke [buf_simps]: "length (poke b i c) = (if i < length b then length b else Suc (length b))"
  by (auto simp: poke_def)

lemma cstr_poke_NUL [cstr_simps]: "cstr (poke b i NUL) = take i (cstr b)"
  by (simp add: poke_def cstr_take)

lemma cstr_strncpy_term [cstr_simps]: "cstr (strncpy_term d s n) = take n (cstr s)"
  by (auto simp: strncpy_term_def cstr_poke_NUL cstr_strncpy)

lemma nth_poke: "i < length b \<Longrightarrow> poke b i c ! i = c"
  by (simp add: poke_def nth_append)

lemma buf_poke_NUL: "i < n \<Longrightarrow> length b = n \<Longrightarrow> buf n (poke b i NUL)"
  by (auto simp: buf_def poke_def)

lemma buf_strncpy_term: "n < m \<Longrightarrow> length d = m \<Longrightarrow> buf m (strncpy_term d s n)"
  unfolding strncpy_term_def by (rule buf_poke_NUL) (simp_all add: buf_simps)

lemma buf_zbuf [simp]: "buf n (zbuf n) \<longleftrightarrow> 0 < n"
  by (auto simp: buf_def zbuf_def)

lemma buf_length: "buf n b \<Longrightarrow> length b = n"
  by (simp add: buf_def)

lemma strncpy_short: "length (cstr s) < n \<Longrightarrow> cstr (strncpy d s n) = cstr s"
  by (simp add: cstr_strncpy)

lemma buf_strncpy_zbuf: "n < m \<Longrightarrow> buf m (strncpy (zbuf m) s n)"
  by (auto simp: buf_def buf_simps strncpy_eq zbuf_def)

lemma cstr_strncpy_zbuf: "cstr (strncpy (zbuf m) s n) = take n (cstr s)"
  by (auto simp: cstr_strncpy zbuf_def)

end
