(* ===== verification/Printf.thy ===== *)
theory Printf
  imports Libc
begin

text \<open>
  \<open>vsnprintf\<close> of \<^verbatim>\<open>src/src/net/libc_glue.c\<close> with its helpers \<open>simple_append_int\<close> and
  \<open>simple_append_hex\<close>.  A variable argument is a \<open>va_arg\<close>: a string pointer, a null pointer,
  or an integer, which each conversion reads at the width it asks for.  The output is the
  list of characters written before the terminator, so the value \<open>vsnprintf\<close> returns is the
  length of that list.  \<open>render\<close> is the reference: the text the format stands for, with no
  size limit.
\<close>

datatype va_arg = VStr cbuf | VNull | VInt int

text \<open>The \<open>va_arg\<close> macro: the next argument.  Reading past the last argument is undefined
  in C and does not happen in the sources.\<close>

definition va_next :: "va_arg list \<Rightarrow> va_arg \<times> va_arg list" where
  "va_next args = (case args of [] \<Rightarrow> (VNull, []) | a # as \<Rightarrow> (a, as))"

fun va_long :: "bool \<Rightarrow> va_arg \<Rightarrow> int" where
  "va_long is_long (VInt n) =
     (if is_long then sint (word_of_int n :: u64) else sint (word_of_int n :: u32))"
| "va_long is_long _ = 0"

fun va_ulong :: "bool \<Rightarrow> va_arg \<Rightarrow> nat" where
  "va_ulong wide (VInt n) =
     (if wide then unat (word_of_int n :: u64) else unat (word_of_int n :: u32))"
| "va_ulong wide _ = 0"

fun va_str :: "va_arg \<Rightarrow> cbuf" where
  "va_str (VStr s) = s"
| "va_str _ = ''(null)''"

fun simple_append_int :: "nat \<Rightarrow> nat \<Rightarrow> string \<times> nat" where
  "simple_append_int limit n =
     (let (out, limit1) = (if n \<ge> 10 then simple_append_int limit (n div 10) else ([], limit))
      in if limit1 > 1 then (out @ [char_of (n mod 10 + 48)], limit1 - 1) else (out, limit1))"

definition hex_digit :: "nat \<Rightarrow> char" where
  "hex_digit d = ''0123456789ABCDEF'' ! d"

fun simple_append_hex :: "nat \<Rightarrow> nat \<Rightarrow> string \<times> nat" where
  "simple_append_hex limit n =
     (let (out, limit1) = (if n \<ge> 16 then simple_append_hex limit (n div 16) else ([], limit))
      in if limit1 > 1 then (out @ [hex_digit (n mod 16)], limit1 - 1) else (out, limit1))"

declare simple_append_int.simps [simp del] simple_append_hex.simps [simp del]

text \<open>\<open>while (*s && remaining > 1)\<close> of the \<open>%s\<close> conversion, and a single guarded store.\<close>

fun append_str :: "nat \<Rightarrow> cbuf \<Rightarrow> string \<times> nat" where
  "append_str rem [] = ([], rem)"
| "append_str rem (c # s) =
     (if c \<noteq> NUL \<and> rem > 1 then (let (out, r) = append_str (rem - 1) s in (c # out, r))
      else ([], rem))"

definition append_char :: "nat \<Rightarrow> char \<Rightarrow> string \<times> nat" where
  "append_char rem c = (if rem > 1 then ([c], rem - 1) else ([], rem))"

text \<open>One conversion, after the optional length modifier: the text it writes, the space that
  is left and the arguments that are left.\<close>

definition convert :: "char \<Rightarrow> bool \<Rightarrow> bool \<Rightarrow> nat \<Rightarrow> va_arg list \<Rightarrow> string \<times> nat \<times> va_arg list" where
  "convert f is_long is_size rem args =
     (if f = CHR ''d'' \<or> f = CHR ''i'' then
        (let (a, as) = va_next args; val = va_long is_long a;
             (o1, r1) = (if val < 0 \<and> rem > 1 then (''-'', rem - 1) else ('''', rem));
             (o2, r2) = simple_append_int r1 (nat \<bar>val\<bar>)
         in (o1 @ o2, r2, as))
      else if f = CHR ''u'' then
        (let (a, as) = va_next args; (out, r) = simple_append_int rem (va_ulong (is_long \<or> is_size) a)
         in (out, r, as))
      else if f = CHR ''x'' \<or> f = CHR ''X'' then
        (let (a, as) = va_next args; (out, r) = simple_append_hex rem (va_ulong (is_long \<or> is_size) a)
         in (out, r, as))
      else if f = CHR ''p'' then
        (let (o1, r1) = (if rem > 2 then (''0x'', rem - 2) else ('''', rem));
             (a, as) = va_next args; (o2, r2) = simple_append_hex r1 (va_ulong True a)
         in (o1 @ o2, r2, as))
      else if f = CHR ''s'' then
        (let (a, as) = va_next args; (out, r) = append_str rem (va_str a) in (out, r, as))
      else if f = CHR ''c'' then
        (let (a, as) = va_next args;
             (out, r) = append_char rem (char_of (va_ulong False a)) in (out, r, as))
      else if f = CHR ''%'' then
        (let (out, r) = append_char rem CHR ''%'' in (out, r, args))
      else
        (let (o1, r1) = append_char rem CHR ''%''; (o2, r2) = append_char r1 f
         in (o1 @ o2, r2, args)))"

definition length_modifier :: "cbuf \<Rightarrow> bool \<times> bool \<times> cbuf" where
  "length_modifier fmt =
     (if deref fmt = CHR ''l'' then (True, False, tl fmt)
      else if deref fmt = CHR ''z'' then (False, True, tl fmt)
      else (False, False, fmt))"

lemma length_modifier_le: "length_modifier fmt = (l, z, f) \<Longrightarrow> length f \<le> length fmt"
  by (auto simp: length_modifier_def split: if_splits)

lemma fmt_less [simp]: "deref fmt \<noteq> NUL \<Longrightarrow> length fmt - Suc 0 < length fmt"
  by (cases fmt) auto

lemma modifier_less:
  "deref fmt \<noteq> NUL \<Longrightarrow> (l, z, f) = length_modifier (tl fmt) \<Longrightarrow> length f - Suc 0 < length fmt"
  using length_modifier_le [of "tl fmt" l z f] by (cases fmt) auto

function vsnprintf_loop :: "cbuf \<Rightarrow> nat \<Rightarrow> va_arg list \<Rightarrow> string" where
  "vsnprintf_loop fmt rem args =
     (if deref fmt = NUL \<or> \<not> rem > 1 then []
      else if deref fmt \<noteq> CHR ''%'' then deref fmt # vsnprintf_loop (tl fmt) (rem - 1) args
      else (case length_modifier (tl fmt) of (is_long, is_size, f) \<Rightarrow>
        (case convert (deref f) is_long is_size rem args of (out, r, as) \<Rightarrow>
           out @ vsnprintf_loop (tl f) r as)))"
  by pat_completeness auto
termination
  by (relation "measure (\<lambda>(fmt, rem, args). length fmt)") (auto simp: modifier_less fmt_less)

declare vsnprintf_loop.simps [simp del]

text \<open>\<open>snprintf(str, size, format, ...)\<close>: the text left in the buffer, and the returned value.\<close>

definition snprintf :: "nat \<Rightarrow> cbuf \<Rightarrow> va_arg list \<Rightarrow> string" where
  "snprintf sz fmt args = vsnprintf_loop fmt sz args"

definition snprintf_ret :: "nat \<Rightarrow> cbuf \<Rightarrow> va_arg list \<Rightarrow> int" where
  "snprintf_ret sz fmt args = int (length (snprintf sz fmt args))"

text \<open>The same into an existing array: the text, the terminator, and what was there before.\<close>

definition snprintf_buf :: "cbuf \<Rightarrow> nat \<Rightarrow> cbuf \<Rightarrow> va_arg list \<Rightarrow> cbuf" where
  "snprintf_buf b sz fmt args =
     (let out = snprintf sz fmt args in out @ NUL # drop (Suc (length out)) b)"

subsection \<open>The reference text\<close>

fun dec_digits :: "nat \<Rightarrow> string" where
  "dec_digits n = (if n \<ge> 10 then dec_digits (n div 10) else []) @ [char_of (n mod 10 + 48)]"

fun hex_digits :: "nat \<Rightarrow> string" where
  "hex_digits n = (if n \<ge> 16 then hex_digits (n div 16) else []) @ [hex_digit (n mod 16)]"

declare dec_digits.simps [simp del] hex_digits.simps [simp del]

definition dec_int :: "int \<Rightarrow> string" where
  "dec_int n = (if n < 0 then ''-'' else []) @ dec_digits (nat \<bar>n\<bar>)"

definition convert_full :: "char \<Rightarrow> bool \<Rightarrow> bool \<Rightarrow> va_arg list \<Rightarrow> string \<times> va_arg list" where
  "convert_full f is_long is_size args =
     (let (a, as) = va_next args in
      if f = CHR ''d'' \<or> f = CHR ''i'' then (dec_int (va_long is_long a), as)
      else if f = CHR ''u'' then (dec_digits (va_ulong (is_long \<or> is_size) a), as)
      else if f = CHR ''x'' \<or> f = CHR ''X'' then (hex_digits (va_ulong (is_long \<or> is_size) a), as)
      else if f = CHR ''p'' then (''0x'' @ hex_digits (va_ulong True a), as)
      else if f = CHR ''s'' then (cstr (va_str a), as)
      else if f = CHR ''c'' then ([char_of (va_ulong False a)], as)
      else if f = CHR ''%'' then (''%'', args)
      else (''%'' @ [f], args))"

function render :: "cbuf \<Rightarrow> va_arg list \<Rightarrow> string" where
  "render fmt args =
     (if deref fmt = NUL then []
      else if deref fmt \<noteq> CHR ''%'' then deref fmt # render (tl fmt) args
      else (case length_modifier (tl fmt) of (is_long, is_size, f) \<Rightarrow>
        (case convert_full (deref f) is_long is_size args of (out, as) \<Rightarrow> out @ render (tl f) as)))"
  by pat_completeness auto
termination
  by (relation "measure (\<lambda>(fmt, args). length fmt)") (auto simp: modifier_less)

declare render.simps [simp del]

text \<open>A format without the pointer conversion \<open>%p\<close>, whose prefix \<open>0x\<close> the code drops when
  fewer than three bytes are left.\<close>

function ptr_free :: "cbuf \<Rightarrow> bool" where
  "ptr_free fmt =
     (if deref fmt = NUL then True
      else if deref fmt \<noteq> CHR ''%'' then ptr_free (tl fmt)
      else (case length_modifier (tl fmt) of (is_long, is_size, f) \<Rightarrow>
        deref f \<noteq> CHR ''p'' \<and> ptr_free (tl f)))"
  by pat_completeness auto
termination
  by (relation "measure length") (auto simp: modifier_less)

declare ptr_free.simps [simp del]

subsection \<open>Each writer is the reference text cut at the space that is left\<close>

definition cut_at :: "nat \<Rightarrow> string \<Rightarrow> string \<times> nat" where
  "cut_at rem t = (take (rem - 1) t, rem - min (rem - 1) (length t))"

lemma cut_at_append:
  "cut_at rem (s @ t) =
     (let (o1, r1) = cut_at rem s; (o2, r2) = cut_at r1 t in (o1 @ o2, r2))"
  by (cases "length s \<le> rem - 1") (auto simp: cut_at_def Let_def min_def)

lemma cut_at_simps [simp]:
  "cut_at rem [] = ([], rem)"
  "cut_at rem [c] = (if rem > 1 then ([c], rem - 1) else ([], rem))"
  by (auto simp: cut_at_def min_def)

lemma append_char_cut: "append_char rem c = cut_at rem [c]"
  by (auto simp: append_char_def cut_at_def min_def)

lemma simple_append_int_cut: "simple_append_int limit n = cut_at limit (dec_digits n)"
proof (induction limit n rule: simple_append_int.induct)
  case (1 limit n)
  have "simple_append_int limit n =
      (let (o1, r1) = cut_at limit (if n \<ge> 10 then dec_digits (n div 10) else []);
           (o2, r2) = append_char r1 (char_of (n mod 10 + 48)) in (o1 @ o2, r2))"
    using 1 by (subst simple_append_int.simps)
      (auto simp: append_char_def Let_def cut_at_def split: prod.splits)
  then show ?case
    by (subst dec_digits.simps) (simp add: cut_at_append append_char_cut)
qed

lemma simple_append_hex_cut: "simple_append_hex limit n = cut_at limit (hex_digits n)"
proof (induction limit n rule: simple_append_hex.induct)
  case (1 limit n)
  have "simple_append_hex limit n =
      (let (o1, r1) = cut_at limit (if n \<ge> 16 then hex_digits (n div 16) else []);
           (o2, r2) = append_char r1 (hex_digit (n mod 16)) in (o1 @ o2, r2))"
    using 1 by (subst simple_append_hex.simps)
      (auto simp: append_char_def Let_def cut_at_def split: prod.splits)
  then show ?case
    by (subst hex_digits.simps) (simp add: cut_at_append append_char_cut)
qed

lemma append_str_cut: "append_str rem s = cut_at rem (cstr s)"
proof (induction rem s rule: append_str.induct)
  case (1 rem)
  then show ?case by (simp add: cut_at_def)
next
  case (2 rem c s)
  then show ?case by (cases rem) (auto simp: cut_at_def take_Cons' min_def split: nat.splits)
qed

lemma convert_cut:
  assumes "f \<noteq> CHR ''p''"
  shows "convert f is_long is_size rem args =
     (case convert_full f is_long is_size args of (out, as) \<Rightarrow>
        (fst (cut_at rem out), snd (cut_at rem out), as))"
proof -
  note eqs = convert_def convert_full_def simple_append_int_cut simple_append_hex_cut
    append_str_cut append_char_cut dec_int_def cut_at_append Let_def case_prod_beta
  consider "f = CHR ''d'' \<or> f = CHR ''i''" | "f = CHR ''u''" | "f = CHR ''x'' \<or> f = CHR ''X''"
    | "f = CHR ''s''" | "f = CHR ''c''" | "f = CHR ''%''"
    | "f \<notin> {CHR ''d'', CHR ''i'', CHR ''u'', CHR ''x'', CHR ''X'', CHR ''s'', CHR ''c'', CHR ''%''}"
    by blast
  then show ?thesis
  proof cases
    case 7
    then show ?thesis using assms by (simp add: eqs cut_at_append [of _ "[CHR ''%'']" "[f]", simplified])
  qed ((elim disjE)?; simp add: eqs)+
qed

subsection \<open>The contract of \<open>snprintf\<close>\<close>

lemma ptr_free_pct: "ptr_free fmt \<Longrightarrow> deref fmt = CHR ''%'' \<Longrightarrow> length_modifier (tl fmt) = (l, z, f)
  \<Longrightarrow> deref f \<noteq> CHR ''p'' \<and> ptr_free (tl f)"
  by (simp add: ptr_free.simps [of fmt])
lemma ptr_free_other: "ptr_free fmt \<Longrightarrow> deref fmt \<noteq> CHR ''%'' \<Longrightarrow> deref fmt \<noteq> NUL \<Longrightarrow> ptr_free (tl fmt)"
  by (simp add: ptr_free.simps [of fmt])

lemma snprintf_loop_cut:
  "ptr_free fmt \<Longrightarrow> vsnprintf_loop fmt rem args = take (rem - 1) (render fmt args)"
proof (induction fmt rem args rule: vsnprintf_loop.induct)
  case (1 fmt rem args)
  note step = vsnprintf_loop.simps [of fmt rem args] render.simps [of fmt args]
  show ?case
  proof (cases "deref fmt = NUL \<or> \<not> rem > 1")
    case True
    then show ?thesis by (auto simp: step)
  next
    case go: False
    show ?thesis
    proof (cases "deref fmt = CHR ''%''")
      case False
      then have "ptr_free (tl fmt)" using "1.prems" go ptr_free_other by simp
      then have "vsnprintf_loop (tl fmt) (rem - 1) args = take (rem - 2) (render (tl fmt) args)"
        using "1.IH"(1) go False by (simp add: numeral_2_eq_2)
      then show ?thesis using go False
        by (simp add: step take_Cons' numeral_2_eq_2)
    next
      case pct: True
      obtain l z f where lm: "length_modifier (tl fmt) = (l, z, f)" by (cases "length_modifier (tl fmt)")
      obtain out as where cv: "convert_full (deref f) l z args = (out, as)"
        by (cases "convert_full (deref f) l z args")
      have f: "deref f \<noteq> CHR ''p''" "ptr_free (tl f)"
        using "1.prems" pct lm ptr_free_pct by simp_all
      note conv = convert_cut [OF f(1), of l z rem args, unfolded cv, simplified]
      have "vsnprintf_loop (tl f) (snd (cut_at rem out)) as =
          take (snd (cut_at rem out) - 1) (render (tl f) as)"
        using "1.IH"(2) [OF _ _ lm [symmetric] refl conv [symmetric] refl f(2)] go pct by simp
      moreover have "take (rem - 1) (out @ render (tl f) as) =
          fst (cut_at rem out) @ take (snd (cut_at rem out) - 1) (render (tl f) as)"
        by (auto simp: cut_at_def min_def)
      ultimately show ?thesis using go pct lm conv cv
        by (simp add: step)
    qed
  qed
qed

lemma snprintf_truncates: "ptr_free fmt \<Longrightarrow> snprintf sz fmt args = take (sz - 1) (render fmt args)"
  by (simp add: snprintf_def snprintf_loop_cut)

definition fits :: "nat \<Rightarrow> string \<times> nat \<Rightarrow> bool" where
  "fits rem p \<longleftrightarrow> 0 < snd p \<and> length (fst p) + snd p \<le> rem"

lemma cut_at_fits: "0 < rem \<Longrightarrow> fits rem (cut_at rem t)"
  by (auto simp: fits_def cut_at_def)

lemma fits_append: "fits rem (o1, r1) \<Longrightarrow> fits r1 (o2, r2) \<Longrightarrow> fits rem (o1 @ o2, r2)"
  by (simp add: fits_def)

lemma convert_fits:
  assumes "1 < rem" and "convert f is_long is_size rem args = (out, r, as)"
  shows "0 < r \<and> length out + r \<le> rem"
proof (cases "f = CHR ''p''")
  case False
  with assms(2) convert_cut obtain t where "(out, r) = cut_at rem t"
    by (auto split: prod.splits)
  then show ?thesis using cut_at_fits [of rem t] assms(1)
    by (metis fits_def fst_conv snd_conv less_trans zero_less_one)
next
  case True
  define a where "a = va_ulong True (fst (va_next args))"
  define r1 where "r1 = (if rem > 2 then rem - 2 else rem)"
  have "0 < r1" using assms(1) by (simp add: r1_def)
  then have "fits r1 (cut_at r1 (hex_digits a))" by (rule cut_at_fits)
  moreover have "out = (if rem > 2 then ''0x'' else []) @ fst (cut_at r1 (hex_digits a))"
      and "r = snd (cut_at r1 (hex_digits a))"
    using assms(2) True
    by (auto simp: convert_def simple_append_hex_cut Let_def case_prod_beta a_def r1_def)
  ultimately show ?thesis using assms(1) by (auto simp: fits_def r1_def)
qed

lemma vsnprintf_loop_length: "length (vsnprintf_loop fmt rem args) \<le> rem - 1"
proof (induction fmt rem args rule: vsnprintf_loop.induct)
  case (1 fmt rem args)
  note step = vsnprintf_loop.simps [of fmt rem args]
  consider "deref fmt = NUL \<or> \<not> rem > 1"
    | "deref fmt \<noteq> NUL" "rem > 1" "deref fmt \<noteq> CHR ''%''"
    | "deref fmt = CHR ''%''" "rem > 1"
    by fastforce
  then show ?case
  proof cases
    case 1
    then show ?thesis by (auto simp: step)
  next
    case 2
    then show ?thesis using "1.IH"(1) by (simp add: step)
  next
    case 3
    obtain l z f where lm: "length_modifier (tl fmt) = (l, z, f)" by (cases "length_modifier (tl fmt)")
    obtain out r as where cv: "convert (deref f) l z rem args = (out, r, as)"
      by (cases "convert (deref f) l z rem args")
    have "length (vsnprintf_loop (tl f) r as) \<le> r - 1"
      using "1.IH"(2) [OF _ _ lm [symmetric] refl cv [symmetric] refl] 3 by simp
    moreover have "0 < r \<and> length out + r \<le> rem" using convert_fits 3 cv by blast
    ultimately have "length out + length (vsnprintf_loop (tl f) r as) \<le> rem - 1" by linarith
    then show ?thesis using 3 lm cv by (simp add: step)
  qed
qed

lemma snprintf_length: "length (snprintf sz fmt args) \<le> sz - 1"
  unfolding snprintf_def by (rule vsnprintf_loop_length)

lemma length_snprintf_buf [buf_simps]:
  "0 < sz \<Longrightarrow> sz \<le> length b \<Longrightarrow> length (snprintf_buf b sz fmt args) = length b"
  using snprintf_length [of sz fmt args] by (simp add: snprintf_buf_def Let_def)

lemma cstr_snprintf_buf [cstr_simps]:
  "cstr (snprintf_buf b sz fmt args) = cstr (snprintf sz fmt args)"
  by (simp add: snprintf_buf_def Let_def)

lemma NUL_in_snprintf_buf [buf_simps]: "NUL \<in> set (snprintf_buf b sz fmt args)"
  by (simp add: snprintf_buf_def Let_def)

text \<open>C38: \<open>snprintf\<close> keeps inside the \<open>sz\<close> bytes it is given.  For every format without
  \<open>%p\<close> the buffer holds the text the format denotes, cut to \<open>sz - 1\<close> bytes, and the returned
  value is the number of bytes written.\<close>

theorem snprintf_contract:
  assumes "0 < sz" and "ptr_free fmt"
  shows "snprintf sz fmt args = take (sz - 1) (render fmt args) \<and>
    length (snprintf sz fmt args) < sz \<and>
    snprintf_ret sz fmt args = min (int sz - 1) (int (length (render fmt args)))"
  using assms snprintf_length [of sz fmt args]
  by (auto simp: snprintf_truncates snprintf_ret_def min_def)

lemma ptr_free_eval:
  "ptr_free [] = True"
  "ptr_free (c # s) =
     (if c = NUL then True else if c \<noteq> CHR ''%'' then ptr_free s
      else (case length_modifier s of (l, z, f) \<Rightarrow> deref f \<noteq> CHR ''p'' \<and> ptr_free (tl f)))"
  by (subst ptr_free.simps; simp)+

theorem snprintf_contract_witness:
  "snprintf 4 ''a%db'' [VInt 12] = take 3 (render ''a%db'' [VInt 12])"
proof -
  have "ptr_free ''a%db''" by (simp add: ptr_free_eval length_modifier_def)
  then show ?thesis using snprintf_contract [of 4 "''a%db''" "[VInt 12]"] by simp
qed

text \<open>The returned value is always below the size, also when the text did not fit.  The
  truncation tests of the callers (\<^verbatim>\<open>written >= sizeof(buf)\<close>, made after the C standard's
  \<open>snprintf\<close>, which returns the length of the untruncated text) can therefore never succeed.\<close>

lemma snprintf_never_reports_truncation:
  assumes "0 < sz"
  shows "\<not> snprintf_ret sz fmt args \<ge> int sz"
  using assms snprintf_length [of sz fmt args] by (simp add: snprintf_ret_def)

subsection \<open>String arguments matter up to their terminator\<close>

definition va_equiv :: "va_arg \<Rightarrow> va_arg \<Rightarrow> bool" where
  "va_equiv a b \<longleftrightarrow> a = b \<or> (\<exists>s t. a = VStr s \<and> b = VStr t \<and> cstr s = cstr t)"

lemma va_equiv_VStr [simp]: "va_equiv (VStr s) (VStr t) \<longleftrightarrow> cstr s = cstr t"
  by (auto simp: va_equiv_def)

lemma va_equiv_refl [simp]: "va_equiv a a"
  by (simp add: va_equiv_def)

lemma append_str_cstr: "append_str rem (cstr s) = append_str rem s"
  by (induction rem s rule: append_str.induct) auto

lemma va_equiv_reads:
  assumes "va_equiv a b"
  shows "va_long l a = va_long l b" "va_ulong l a = va_ulong l b" "append_str r (va_str a) = append_str r (va_str b)"
  using assms append_str_cstr by (auto simp: va_equiv_def) metis

lemma va_next_equiv:
  "list_all2 va_equiv as bs \<Longrightarrow> va_equiv (fst (va_next as)) (fst (va_next bs)) \<and> list_all2 va_equiv (snd (va_next as)) (snd (va_next bs))"
  by (auto simp: va_next_def split: list.split)

lemma convert_equiv:
  assumes "list_all2 va_equiv as bs"
  shows "fst (convert f l z r as) = fst (convert f l z r bs) \<and>
    fst (snd (convert f l z r as)) = fst (snd (convert f l z r bs)) \<and>
    list_all2 va_equiv (snd (snd (convert f l z r as))) (snd (snd (convert f l z r bs)))"
  using assms va_next_equiv [OF assms] va_equiv_reads [of "fst (va_next as)" "fst (va_next bs)"]
  by (simp add: convert_def Let_def case_prod_beta)

lemma vsnprintf_loop_equiv:
  "list_all2 va_equiv as bs \<Longrightarrow> vsnprintf_loop fmt rem as = vsnprintf_loop fmt rem bs"
proof (induction fmt rem as arbitrary: bs rule: vsnprintf_loop.induct)
  case (1 fmt rem as)
  obtain l z f where m: "length_modifier (tl fmt) = (l, z, f)" by (cases "length_modifier (tl fmt)")
  obtain oa ra a where ca: "convert (deref f) l z rem as = (oa, ra, a)" by (cases "convert (deref f) l z rem as")
  obtain ob rb b where cb: "convert (deref f) l z rem bs = (ob, rb, b)" by (cases "convert (deref f) l z rem bs")
  have "oa = ob \<and> ra = rb \<and> list_all2 va_equiv a b"
    using convert_equiv [OF "1.prems", of "deref f" l z rem] by (simp add: ca cb)
  then show ?case
    using "1.IH"(1) [OF _ _ "1.prems"] "1.IH"(2) [OF _ _ m [symmetric] refl ca [symmetric] refl]
    by (simp add: vsnprintf_loop.simps [of fmt rem] m ca cb)
qed

lemma snprintf_equiv: "list_all2 va_equiv as bs \<Longrightarrow> snprintf sz fmt as = snprintf sz fmt bs"
  by (simp add: snprintf_def vsnprintf_loop_equiv)

end
