(* ===== verification/Rng.thy ===== *)
theory Rng
  imports Prelude
begin

text \<open>
  The random numbers of \<^verbatim>\<open>src/src/net/libc_glue.c\<close>: \<open>hw_trng_read\<close>, \<open>secure_random_u32\<close> and
  \<open>rand\<close>.  The \<open>rdrand\<close> instruction is the environment: \<open>rdrand k\<close> is what its \<open>k\<close>-th
  execution gives, \<open>None\<close> when the carry flag stays clear.  The static variables of the two
  functions and the address of \<open>state\<close>, which the fallback seed uses, are fields of \<open>rng\<close>.
\<close>

record rng =
  rdrand :: "nat \<Rightarrow> u32 option"
  rd_pos :: nat
  rs_state :: u64
  rs_seeded :: bool
  rs_addr :: u64

fun hw_trng_attempts :: "nat \<Rightarrow> rng \<Rightarrow> u32 option \<times> rng" where
  "hw_trng_attempts 0 r = (None, r)"
| "hw_trng_attempts (Suc n) r =
     (let r' = r\<lparr>rd_pos := Suc (rd_pos r)\<rparr> in
      case rdrand r (rd_pos r) of
        Some v \<Rightarrow> (Some v, r')
      | None \<Rightarrow> hw_trng_attempts n r')"

definition hw_trng_read :: "rng \<Rightarrow> u32 option \<times> rng" where
  "hw_trng_read r = hw_trng_attempts 10 r"

definition seed_state :: "rng \<Rightarrow> rng" where
  "seed_state r =
     (if rs_seeded r then r
      else
        let (hi, r1) = hw_trng_read r;
            (lo, r2) = hw_trng_read r1;
            st = (case (hi, lo) of
                    (Some h, Some l) \<Rightarrow> push_bit 32 (ucast h) OR ucast l
                  | _ \<Rightarrow> 0xDEADBEEFCAFEBABE XOR rs_addr r);
            st' = (if st = 0 then 0x123456789ABCDEF0 else st)
        in r2\<lparr>rs_state := st', rs_seeded := True\<rparr>)"

definition xorshift :: "u64 \<Rightarrow> u64" where
  "xorshift s =
     (let s1 = s XOR drop_bit 12 s;
          s2 = s1 XOR push_bit 25 s1
      in s2 XOR drop_bit 27 s2)"

definition secure_random_u32 :: "rng \<Rightarrow> u32 \<times> rng" where
  "secure_random_u32 r =
     (case hw_trng_read r of
        (Some hw, r1) \<Rightarrow> (hw, r1)
      | (None, r1) \<Rightarrow>
          let r2 = seed_state r1;
              s = xorshift (rs_state r2)
          in (ucast (drop_bit 32 (s * 0x2545F4914F6CDD1D)), r2\<lparr>rs_state := s\<rparr>))"

definition rand_next :: "u64 \<Rightarrow> u64" where
  "rand_next n = n * 1103515245 + 12345"

definition rand_value :: "u64 \<Rightarrow> u32" where
  "rand_value n = (ucast (n div 65536) :: u32) mod 32768"

subsection \<open>The fallback generator never reaches the zero state\<close>

lemma drop_bit_iterate: "drop_bit n (x :: u64) = x \<Longrightarrow> drop_bit (k * n) x = x"
  by (induction k) (simp_all add: drop_bit_drop_bit [symmetric])

lemma push_bit_iterate: "push_bit n (x :: u64) = x \<Longrightarrow> push_bit (k * n) x = x"
  by (induction k) (simp_all add: push_bit_push_bit [symmetric])

lemma drop_bit_fixpoint: "drop_bit (Suc n) (x :: u64) = x \<Longrightarrow> x = 0"
  using drop_bit_iterate [of "Suc n" x 64] drop_bit_word_beyond [of "64 * Suc n" x] by simp

lemma push_bit_fixpoint: "push_bit (Suc n) (x :: u64) = x \<Longrightarrow> x = 0"
  using push_bit_iterate [of "Suc n" x 64] push_bit_word_beyond [of "64 * Suc n" x] by simp

lemma xor_eq_0_word: "(a :: u64) XOR b = 0 \<longleftrightarrow> b = a"
proof
  assume "a XOR b = 0"
  then have "a XOR (a XOR b) = a" by simp
  then show "b = a" by (simp flip: xor.assoc)
qed simp

lemma xor_drop_bit_eq_0: "x XOR drop_bit (numeral k) (x :: u64) = 0 \<longleftrightarrow> x = 0"
  using drop_bit_fixpoint [of "pred_numeral k" x] by (auto simp: xor_eq_0_word numeral_eq_Suc)

lemma xor_push_bit_eq_0: "x XOR push_bit (numeral k) (x :: u64) = 0 \<longleftrightarrow> x = 0"
  using push_bit_fixpoint [of "pred_numeral k" x] by (auto simp: xor_eq_0_word numeral_eq_Suc)

lemma xorshift_eq_0: "xorshift s = 0 \<longleftrightarrow> s = 0"
  by (simp only: xorshift_def Let_def xor_drop_bit_eq_0 xor_push_bit_eq_0)

definition rng_ok :: "rng \<Rightarrow> bool" where
  "rng_ok r \<longleftrightarrow> (rs_seeded r \<longrightarrow> rs_state r \<noteq> 0)"

lemma hw_trng_attempts_frame:
  "hw_trng_attempts n r = (v, r') \<Longrightarrow>
     rs_state r' = rs_state r \<and> rs_seeded r' = rs_seeded r \<and> rdrand r' = rdrand r \<and>
     rs_addr r' = rs_addr r \<and> rd_pos r \<le> rd_pos r' \<and> rd_pos r' \<le> rd_pos r + n"
  by (induction n r rule: hw_trng_attempts.induct)
     (fastforce simp: Let_def split: option.splits)+

lemma hw_trng_read_frame:
  "hw_trng_read r = (v, r') \<Longrightarrow>
     rs_state r' = rs_state r \<and> rs_seeded r' = rs_seeded r \<and> rdrand r' = rdrand r \<and>
     rs_addr r' = rs_addr r \<and> rd_pos r \<le> rd_pos r' \<and> rd_pos r' \<le> rd_pos r + 10"
  unfolding hw_trng_read_def by (rule hw_trng_attempts_frame)

lemma seed_state_ok: "rng_ok r \<Longrightarrow> rs_state (seed_state r) \<noteq> 0 \<and> rs_seeded (seed_state r)"
  by (auto simp: seed_state_def rng_ok_def Let_def split: prod.splits)

text \<open>
  The xorshift fallback of \<open>secure_random_u32\<close> can never lock up in the all-zero state:
  whatever the hardware generator returns, each call keeps the invariant that a seeded state is
  non-zero, and a call that had to fall back leaves the generator seeded.
\<close>

lemma secure_random_never_stuck:
  assumes "rng_ok r"
  shows "rng_ok (snd (secure_random_u32 r)) \<and>
    (fst (hw_trng_read r) = None \<longrightarrow> rs_state (snd (secure_random_u32 r)) \<noteq> 0)"
proof (cases "hw_trng_read r")
  case (Pair v r1)
  from hw_trng_read_frame [OF Pair] assms have "rng_ok r1"
    by (simp add: rng_ok_def)
  with Pair hw_trng_read_frame [OF Pair] show ?thesis
    using seed_state_ok [of r1]
    by (cases v) (simp_all add: secure_random_u32_def rng_ok_def Let_def xorshift_eq_0)
qed

lemma secure_random_example:
  "rng_ok (snd (secure_random_u32 \<lparr>rdrand = \<lambda>_. None, rd_pos = 0, rs_state = 0,
      rs_seeded = False, rs_addr = 0xDEADBEEFCAFEBABE\<rparr>))"
  using secure_random_never_stuck
    [of "\<lparr>rdrand = \<lambda>_. None, rd_pos = 0, rs_state = 0, rs_seeded = False, rs_addr = 0xDEADBEEFCAFEBABE\<rparr>"]
  by (simp add: rng_ok_def)

end
