(* ===== verification/Disk.thy ===== *)
theory Disk
  imports Libc
begin

text \<open>
  The block device behind the persistent stores: \<open>disk_init\<close>, \<open>disk_read_sectors\<close> and
  \<open>disk_write_sectors\<close> of \<^verbatim>\<open>src/src/drivers/disk.c\<close>.  The medium maps a sector number to its 512
  bytes.  The two drivers drive hardware, so their transfers follow a script: the \<open>k\<close>-th transfer
  either completes, or fails after some number of sectors, which on a write have then reached
  the medium.
\<close>

abbreviation (input) SECTOR :: nat where
  "SECTOR \<equiv> 512"

datatype disk_backend_t = DISK_NONE | DISK_ATA_PIO | DISK_AHCI

datatype io_result = IoOk | IoFail nat

record disk =
  g_backend :: disk_backend_t
  medium :: "nat \<Rightarrow> cbuf"
  io_script :: "nat \<Rightarrow> io_result"
  io_calls :: nat

text \<open>The probing order: AHCI when its \<open>init\<close> returns 0, else the ATA slave drive when its bit
  is set in the mask \<open>ata_init\<close> returns.\<close>

definition disk_init :: "int \<Rightarrow> u32 \<Rightarrow> disk \<Rightarrow> disk_backend_t \<times> disk" where
  "disk_init ahci_init ata_drives d =
     (if ahci_init = 0 then (DISK_AHCI, d\<lparr>g_backend := DISK_AHCI\<rparr>)
      else if bit ata_drives 1 then (DISK_ATA_PIO, d\<lparr>g_backend := DISK_ATA_PIO\<rparr>)
      else (DISK_NONE, d))"

definition read_range :: "(nat \<Rightarrow> cbuf) \<Rightarrow> nat \<Rightarrow> nat \<Rightarrow> cbuf" where
  "read_range m lba count = concat (map m [lba..<lba + count])"

definition sector_of :: "cbuf \<Rightarrow> nat \<Rightarrow> cbuf" where
  "sector_of b k = take SECTOR (drop (SECTOR * k) b)"

definition write_range :: "(nat \<Rightarrow> cbuf) \<Rightarrow> nat \<Rightarrow> nat \<Rightarrow> cbuf \<Rightarrow> nat \<Rightarrow> cbuf" where
  "write_range m lba count b =
     (\<lambda>k. if lba \<le> k \<and> k < lba + count then sector_of b (k - lba) else m k)"

text \<open>A driver's transfer: \<open>None\<close> is the error return -1.\<close>

definition driver_read :: "nat \<Rightarrow> nat \<Rightarrow> disk \<Rightarrow> cbuf option \<times> disk" where
  "driver_read lba count d =
     (let d' = d\<lparr>io_calls := Suc (io_calls d)\<rparr> in
      case io_script d (io_calls d) of
        IoOk \<Rightarrow> (Some (read_range (medium d) lba count), d')
      | IoFail k \<Rightarrow> (None, d'))"

definition driver_write :: "nat \<Rightarrow> nat \<Rightarrow> cbuf \<Rightarrow> disk \<Rightarrow> bool \<times> disk" where
  "driver_write lba count b d =
     (let d' = d\<lparr>io_calls := Suc (io_calls d)\<rparr> in
      case io_script d (io_calls d) of
        IoOk \<Rightarrow> (True, d'\<lparr>medium := write_range (medium d) lba count b\<rparr>)
      | IoFail k \<Rightarrow> (False, d'\<lparr>medium := write_range (medium d) lba (min k count) b\<rparr>))"

definition disk_read_sectors :: "nat \<Rightarrow> nat \<Rightarrow> disk \<Rightarrow> cbuf option \<times> disk" where
  "disk_read_sectors lba count d =
     (case g_backend d of
        DISK_AHCI \<Rightarrow> driver_read lba count d
      | DISK_ATA_PIO \<Rightarrow> driver_read lba count d
      | DISK_NONE \<Rightarrow> (None, d))"

definition disk_write_sectors :: "nat \<Rightarrow> nat \<Rightarrow> cbuf \<Rightarrow> disk \<Rightarrow> bool \<times> disk" where
  "disk_write_sectors lba count b d =
     (case g_backend d of
        DISK_AHCI \<Rightarrow> driver_write lba count b d
      | DISK_ATA_PIO \<Rightarrow> driver_write lba count b d
      | DISK_NONE \<Rightarrow> (False, d))"

lemmas disk_io_defs = disk_read_sectors_def disk_write_sectors_def driver_read_def driver_write_def

subsection \<open>The sector store as an interface\<close>

text \<open>What the persistence layer relies on: a successful write is read back as it was written, a
  write touches no other sector, and the state of the backend does not change under transfers.\<close>

definition medium_ok :: "disk \<Rightarrow> bool" where
  "medium_ok d \<longleftrightarrow> (\<forall>k. length (medium d k) = SECTOR)"

lemma length_read_range: "(\<And>k. length (m k) = SECTOR) \<Longrightarrow> length (read_range m lba count) = SECTOR * count"
  by (simp add: read_range_def length_concat comp_def sum_list_triv)

lemma concat_sectors: "length b = SECTOR * n \<Longrightarrow> concat (map (sector_of b) [0..<n]) = b"
proof (induction n arbitrary: b)
  case (Suc n)
  have len: "length (drop SECTOR b) = SECTOR * n" using Suc.prems by simp
  have "sector_of b (Suc k) = sector_of (drop SECTOR b) k" for k
    by (simp add: sector_of_def add.commute)
  then have "concat (map (sector_of b) [1..<Suc n]) = concat (map (sector_of (drop SECTOR b)) [0..<n])"
    by (simp add: map_Suc_upt [symmetric] comp_def del: upt_Suc map_Suc_upt)
  then have "concat (map (sector_of b) [0..<Suc n]) = sector_of b 0 @ drop SECTOR b"
    using Suc.IH [OF len] by (simp add: upt_conv_Cons del: upt_Suc)
  moreover have "sector_of b 0 = take SECTOR b" by (simp add: sector_of_def)
  ultimately show ?case by (simp del: upt_Suc)
qed simp

lemma read_write_range:
  assumes "length b = SECTOR * count"
  shows "read_range (write_range m lba count b) lba count = b"
proof -
  have "map (write_range m lba count b) [lba..<lba + count] = map (sector_of b) [0..<count]"
    by (rule nth_equalityI) (auto simp: write_range_def)
  then show ?thesis using concat_sectors [OF assms] by (simp add: read_range_def)
qed

lemma read_write_range_other:
  assumes "lba' + count' \<le> lba \<or> lba + count \<le> lba'"
  shows "read_range (write_range m lba count b) lba' count' = read_range m lba' count'"
  unfolding read_range_def
  by (rule arg_cong [where f = concat], rule map_cong) (use assms in \<open>auto simp: write_range_def\<close>)

locale sector_store =
  fixes rd :: "nat \<Rightarrow> nat \<Rightarrow> 'd \<Rightarrow> cbuf option \<times> 'd"
    and wr :: "nat \<Rightarrow> nat \<Rightarrow> cbuf \<Rightarrow> 'd \<Rightarrow> bool \<times> 'd"
    and content :: "'d \<Rightarrow> nat \<Rightarrow> cbuf"
  assumes rd_content: "rd lba n d = (Some b, d') \<Longrightarrow> b = read_range (content d) lba n"
    and rd_keeps: "rd lba n d = (r, d') \<Longrightarrow> content d' = content d"
    and wr_content: "wr lba n b d = (True, d') \<Longrightarrow> content d' = write_range (content d) lba n b"
    and wr_frame: "wr lba n b d = (ok, d') \<Longrightarrow> k < lba \<or> lba + n \<le> k \<Longrightarrow> content d' k = content d k"
begin

lemma read_after_write:
  assumes "wr lba n b d = (True, d1)" and "length b = SECTOR * n" and "rd lba n d1 = (Some c, d2)"
  shows "c = b"
  using rd_content [OF assms(3)] wr_content [OF assms(1)] read_write_range [OF assms(2)] by simp

lemma read_other_after_write:
  assumes "wr lba n b d = (ok, d1)" and "lba' + n' \<le> lba \<or> lba + n \<le> lba'"
  shows "read_range (content d1) lba' n' = read_range (content d) lba' n'"
  unfolding read_range_def
  by (rule arg_cong [where f = concat], rule map_cong) (use wr_frame [OF assms(1)] assms(2) in auto)

end

interpretation dsk: sector_store disk_read_sectors disk_write_sectors medium
  by unfold_locales
    (auto simp: disk_io_defs write_range_def Let_def split: disk_backend_t.splits io_result.splits)

lemma disk_write_keeps:
  "disk_write_sectors lba n b d = (ok, d') \<Longrightarrow> g_backend d' = g_backend d \<and> io_script d' = io_script d"
  by (auto simp: disk_io_defs Let_def split: disk_backend_t.splits io_result.splits)

lemma disk_read_keeps:
  "disk_read_sectors lba n d = (r, d') \<Longrightarrow>
     g_backend d' = g_backend d \<and> io_script d' = io_script d \<and> medium d' = medium d"
  by (auto simp: disk_io_defs Let_def split: disk_backend_t.splits io_result.splits)

end
