(* ===== verification/Xmpp_Types.thy ===== *)
theory Xmpp_Types
  imports Printf Rng Disk
begin

text \<open>
  The data of the server, from \<^verbatim>\<open>src/src/xmpp/xmpp_core.h\<close>: stanzas, client contexts, rooms,
  the persistent stores, and the world that the handlers transform.  A \<open>char[n]\<close> field is a
  list of \<open>n\<close> bytes.  Flags of a client that the code only sets to 0 and 1 are booleans; the
  fields that are written to disk keep their integer type.  A pointer to a client context is its
  index in \<open>client_registry\<close>, a \<open>tcp_pcb\<close> is a number, \<open>None\<close> the null pointer.

  lwIP and mbedTLS are the environment.  What they do is a script in the record \<open>env\<close>: the
  \<open>k\<close>-th call of an mbedTLS function makes the calls of the BIO functions listed in
  \<open>ssl_script k\<close> and returns its result, and the \<open>k\<close>-th \<open>tcp_write\<close> returns
  \<open>tcp_script k\<close>.  All theorems hold for every script.  The calls the server makes are
  recorded in \<open>trace\<close>.
\<close>

subsection \<open>Enumerations\<close>

datatype parse_null_reason_t = PARSE_INCOMPLETE | PARSE_NO_MEMORY

datatype stanza_type_t =
    XMPP_UNKNOWN | XMPP_IQ_GET | XMPP_IQ_SET | XMPP_IQ_RESULT | XMPP_IQ_ERROR | XMPP_MESSAGE
  | XMPP_PRESENCE | XMPP_PRESENCE_UNAVAILABLE | XMPP_PRESENCE_SUBSCRIBE
  | XMPP_PRESENCE_SUBSCRIBED | XMPP_PRESENCE_UNSUBSCRIBE | XMPP_PRESENCE_UNSUBSCRIBED
  | XMPP_PRESENCE_PROBE

datatype client_state_t =
    STATE_CONNECTED | STATE_STARTTLS | STATE_SASL | STATE_AUTHENTICATED | STATE_BIND
  | STATE_SESSION | STATE_READY

text \<open>The code compares states with \<open><\<close>: the order of the enumeration.\<close>

fun state_rank :: "client_state_t \<Rightarrow> nat" where
  "state_rank STATE_CONNECTED = 0"
| "state_rank STATE_STARTTLS = 1"
| "state_rank STATE_SASL = 2"
| "state_rank STATE_AUTHENTICATED = 3"
| "state_rank STATE_BIND = 4"
| "state_rank STATE_SESSION = 5"
| "state_rank STATE_READY = 6"

lemma state_rank_inj: "state_rank a = state_rank b \<Longrightarrow> a = b"
  by (cases a; cases b) simp_all

instantiation client_state_t :: linorder
begin

definition less_eq_client_state_t :: "client_state_t \<Rightarrow> client_state_t \<Rightarrow> bool" where
  "less_eq_client_state_t a b \<longleftrightarrow> state_rank a \<le> state_rank b"

definition less_client_state_t :: "client_state_t \<Rightarrow> client_state_t \<Rightarrow> bool" where
  "less_client_state_t a b \<longleftrightarrow> state_rank a < state_rank b"

instance
  by standard (auto simp: less_eq_client_state_t_def less_client_state_t_def intro: state_rank_inj)

end

lemmas state_order_defs = less_eq_client_state_t_def less_client_state_t_def

subsection \<open>Limits\<close>

abbreviation (input) MAX_ROOMS :: nat where "MAX_ROOMS \<equiv> 4"
abbreviation (input) MAX_USERS_PER_ROOM :: nat where "MAX_USERS_PER_ROOM \<equiv> 8"
abbreviation (input) MAX_BANNED_PER_ROOM :: nat where "MAX_BANNED_PER_ROOM \<equiv> 8"
abbreviation (input) MAX_USERS :: nat where "MAX_USERS \<equiv> 20"
abbreviation (input) MAX_OFFLINE_MSGS :: nat where "MAX_OFFLINE_MSGS \<equiv> 32"
abbreviation (input) MAX_PENDING_SUBS :: nat where "MAX_PENDING_SUBS \<equiv> 32"
abbreviation (input) PRIVATE_STORAGE_SLOTS :: nat where "PRIVATE_STORAGE_SLOTS \<equiv> 20"
abbreviation (input) MAX_ROSTER_ENTRIES :: nat where "MAX_ROSTER_ENTRIES \<equiv> 80"
abbreviation (input) ROSTER_ITEM_MAX_LEN :: nat where "ROSTER_ITEM_MAX_LEN \<equiv> 256"
abbreviation (input) RX_BUF_SIZE :: nat where "RX_BUF_SIZE \<equiv> 32768"
abbreviation (input) TLS_RX_BUF_SIZE :: nat where "TLS_RX_BUF_SIZE \<equiv> 32768"
abbreviation (input) SASL_MAX_FAILURES :: nat where "SASL_MAX_FAILURES \<equiv> 5"
abbreviation XMPP_DOMAIN :: string where "XMPP_DOMAIN \<equiv> ''angelic.local''"

subsection \<open>Structures\<close>

record xmpp_stanza_t =
  st_type :: stanza_type_t
  st_from :: cbuf
  st_to :: cbuf
  st_id :: cbuf
  st_xmlns :: cbuf
  st_payload :: cbuf
  st_mechanism :: cbuf
  st_is_used :: bool

record xmpp_client_ctx_t =
  cl_pcb :: "nat option"
  cl_state :: client_state_t
  cl_full_jid :: cbuf
  cl_username :: cbuf
  cl_authenticated :: bool
  cl_rx_buffer :: cbuf
  cl_rx_pos :: nat
  cl_client_from :: cbuf
  cl_presence_payload :: cbuf
  cl_sasl_failures :: nat
  cl_tls_rx_buf :: cbuf
  cl_tls_rx_len :: nat
  cl_tls_rx_pos :: nat
  cl_tls_established :: bool
  cl_tls_initialised :: bool
  cl_tls_want_write :: bool
  cl_initial_presence_sent :: bool
  cl_sm_enabled :: bool
  cl_sm_want_ack :: bool
  cl_sm_inbound_h :: u32
  cl_sm_outbound_count :: u32

record participant_t =
  pt_pcb :: "nat option"
  pt_nick :: cbuf
  pt_jid :: cbuf
  pt_active :: bool

record room_t =
  rm_name :: cbuf
  rm_users :: "participant_t list"
  rm_creator_jid :: cbuf
  rm_semi_anon :: int
  rm_locked :: int
  rm_active :: int
  rm_persistent :: int
  rm_moderated :: int
  rm_members_only :: int
  rm_banned_jids :: "cbuf list"
  rm_banned_count :: int
  rm_subject :: cbuf

record offline_msg_t =
  om_from :: cbuf
  om_to_bare :: cbuf
  om_to_user :: cbuf
  om_id :: cbuf
  om_payload :: cbuf
  om_active :: int

record pending_sub_t =
  ps_type :: cbuf
  ps_from :: cbuf
  ps_to_user :: cbuf
  ps_active :: int

record private_store_entry_t =
  pe_username :: cbuf
  pe_ns :: cbuf
  pe_xml :: cbuf
  pe_active :: int

record roster_entry_t =
  re_username :: cbuf
  re_jid :: cbuf
  re_item_xml :: cbuf
  re_active :: int

subsection \<open>The environment\<close>

datatype err_t = ERR_OK | ERR_MEM | ERR_OTHER

text \<open>What an mbedTLS call does: calls of the two BIO functions, its return value, and for a read
  the decrypted bytes.\<close>

datatype bio_call = BioSend string | BioRecv nat

record ssl_step =
  ss_bio :: "bio_call list"
  ss_ret :: int
  ss_plain :: string

text \<open>The calls the server makes: the pcb is the one of the client context.  \<open>Ev_Send\<close> is the
  log line \<open>send_raw\<close> writes for every stanza it is given, \<open>Ev_SslWrite\<close> carries the result of the
  call.\<close>

datatype event =
    Ev_Send "nat option" string
  | Ev_TcpWrite "nat option" string
  | Ev_TcpOutput "nat option"
  | Ev_TcpClose "nat option"
  | Ev_TcpRecved "nat option" nat
  | Ev_SslWrite "nat option" string int
  | Ev_SslCloseNotify "nat option"
  | Ev_SslFree "nat option"

record env =
  trace :: "event list"
  ssl_script :: "nat \<Rightarrow> ssl_step"
  ssl_calls :: nat
  tcp_script :: "nat \<Rightarrow> err_t"
  tcp_calls :: nat
  env_rng :: rng
  stack_bytes :: "nat \<Rightarrow> char"

text \<open>The contents of a local array of \<open>n\<close> bytes that has no initialiser.\<close>

definition uninit :: "nat \<Rightarrow> env \<Rightarrow> cbuf" where
  "uninit n e = map (stack_bytes e) [0..<n]"

type_synonym cx = "xmpp_client_ctx_t \<times> env"

subsection \<open>The world\<close>

record world =
  client_registry :: "xmpp_client_ctx_t list"
  rooms :: "room_t list"
  roster_store :: "roster_entry_t list"
  roster_version :: int
  private_store :: "private_store_entry_t list"
  offline_store :: "offline_msg_t list"
  pending_subs :: "pending_sub_t list"
  stanza_pool :: "xmpp_stanza_t list"
  client_idx :: nat
  disk_dev :: disk
  env :: env

abbreviation client :: "world \<Rightarrow> nat \<Rightarrow> xmpp_client_ctx_t" where
  "client w i \<equiv> client_registry w ! i"

abbreviation room :: "world \<Rightarrow> nat \<Rightarrow> room_t" where
  "room w r \<equiv> rooms w ! r"

text \<open>Running code that touches one client context and the environment only.\<close>

definition on_client :: "nat \<Rightarrow> (cx \<Rightarrow> cx) \<Rightarrow> world \<Rightarrow> world" where
  "on_client i f w =
     (let (c, e) = f (client w i, env w)
      in w\<lparr>client_registry := (client_registry w)[i := c], env := e\<rparr>)"

definition upd_client :: "nat \<Rightarrow> (xmpp_client_ctx_t \<Rightarrow> xmpp_client_ctx_t) \<Rightarrow> world \<Rightarrow> world" where
  "upd_client i f w = w\<lparr>client_registry := (client_registry w)[i := f (client w i)]\<rparr>"

definition upd_room :: "nat \<Rightarrow> (room_t \<Rightarrow> room_t) \<Rightarrow> world \<Rightarrow> world" where
  "upd_room r f w = w\<lparr>rooms := (rooms w)[r := f (room w r)]\<rparr>"

subsection \<open>Zero-initialised objects\<close>

definition zero_stanza :: xmpp_stanza_t where
  "zero_stanza = \<lparr>st_type = XMPP_UNKNOWN, st_from = zbuf 64, st_to = zbuf 64, st_id = zbuf 64,
     st_xmlns = zbuf 128, st_payload = zbuf 4096, st_mechanism = zbuf 32, st_is_used = False\<rparr>"

definition zero_client :: xmpp_client_ctx_t where
  "zero_client = \<lparr>cl_pcb = None, cl_state = STATE_CONNECTED, cl_full_jid = zbuf 64,
     cl_username = zbuf 32, cl_authenticated = False, cl_rx_buffer = zbuf RX_BUF_SIZE,
     cl_rx_pos = 0, cl_client_from = zbuf 64, cl_presence_payload = zbuf 1024,
     cl_sasl_failures = 0, cl_tls_rx_buf = zbuf TLS_RX_BUF_SIZE, cl_tls_rx_len = 0,
     cl_tls_rx_pos = 0, cl_tls_established = False, cl_tls_initialised = False,
     cl_tls_want_write = False, cl_initial_presence_sent = False, cl_sm_enabled = False,
     cl_sm_want_ack = False, cl_sm_inbound_h = 0, cl_sm_outbound_count = 0\<rparr>"

definition zero_participant :: participant_t where
  "zero_participant = \<lparr>pt_pcb = None, pt_nick = zbuf 32, pt_jid = zbuf 64, pt_active = False\<rparr>"

definition zero_room :: room_t where
  "zero_room = \<lparr>rm_name = zbuf 32, rm_users = replicate MAX_USERS_PER_ROOM zero_participant,
     rm_creator_jid = zbuf 64, rm_semi_anon = 0, rm_locked = 0, rm_active = 0, rm_persistent = 0,
     rm_moderated = 0, rm_members_only = 0,
     rm_banned_jids = replicate MAX_BANNED_PER_ROOM (zbuf 64), rm_banned_count = 0,
     rm_subject = zbuf 256\<rparr>"

definition zero_offline :: offline_msg_t where
  "zero_offline = \<lparr>om_from = zbuf 64, om_to_bare = zbuf 64, om_to_user = zbuf 32, om_id = zbuf 64,
     om_payload = zbuf 1024, om_active = 0\<rparr>"

definition zero_pending :: pending_sub_t where
  "zero_pending = \<lparr>ps_type = zbuf 16, ps_from = zbuf 64, ps_to_user = zbuf 32, ps_active = 0\<rparr>"

definition zero_private :: private_store_entry_t where
  "zero_private = \<lparr>pe_username = zbuf 32, pe_ns = zbuf 128, pe_xml = zbuf 900, pe_active = 0\<rparr>"

definition zero_roster :: roster_entry_t where
  "zero_roster = \<lparr>re_username = zbuf 32, re_jid = zbuf 64, re_item_xml = zbuf 256, re_active = 0\<rparr>"

lemmas zero_defs = zero_stanza_def zero_client_def zero_participant_def zero_room_def
  zero_offline_def zero_pending_def zero_private_def zero_roster_def

subsection \<open>Memory safety of the objects\<close>

text \<open>Every array has its declared size, every string field is terminated inside its array, every
  index lies inside the array it indexes, and received text is terminated where it ends.  A write past the end of a field would lengthen
  its list, so preservation of \<open>world_ok\<close> is memory safety.\<close>

definition stanza_ok :: "xmpp_stanza_t \<Rightarrow> bool" where
  "stanza_ok s \<longleftrightarrow> buf 64 (st_from s) \<and> buf 64 (st_to s) \<and> buf 64 (st_id s) \<and>
     buf 128 (st_xmlns s) \<and> buf 4096 (st_payload s) \<and> buf 32 (st_mechanism s)"

definition client_ok :: "xmpp_client_ctx_t \<Rightarrow> bool" where
  "client_ok c \<longleftrightarrow> buf 64 (cl_full_jid c) \<and> buf 32 (cl_username c) \<and>
     buf RX_BUF_SIZE (cl_rx_buffer c) \<and> cl_rx_pos c < RX_BUF_SIZE \<and>
     (0 < cl_rx_pos c \<longrightarrow> cl_rx_buffer c ! cl_rx_pos c = NUL) \<and>
     buf 64 (cl_client_from c) \<and> buf 1024 (cl_presence_payload c) \<and>
     length (cl_tls_rx_buf c) = TLS_RX_BUF_SIZE \<and> cl_tls_rx_len c \<le> TLS_RX_BUF_SIZE \<and>
     cl_tls_rx_pos c \<le> cl_tls_rx_len c"

definition participant_ok :: "participant_t \<Rightarrow> bool" where
  "participant_ok p \<longleftrightarrow> buf 32 (pt_nick p) \<and> pt_nick p ! 31 = NUL \<and> buf 64 (pt_jid p)"

definition room_ok :: "room_t \<Rightarrow> bool" where
  "room_ok r \<longleftrightarrow> buf 32 (rm_name r) \<and> array_ok MAX_USERS_PER_ROOM participant_ok (rm_users r) \<and>
     buf 64 (rm_creator_jid r) \<and> array_ok MAX_BANNED_PER_ROOM (buf 64) (rm_banned_jids r) \<and>
     0 \<le> rm_banned_count r \<and> rm_banned_count r \<le> int MAX_BANNED_PER_ROOM \<and> buf 256 (rm_subject r)"

definition offline_ok :: "offline_msg_t \<Rightarrow> bool" where
  "offline_ok m \<longleftrightarrow> buf 64 (om_from m) \<and> buf 64 (om_to_bare m) \<and> buf 32 (om_to_user m) \<and>
     buf 64 (om_id m) \<and> buf 1024 (om_payload m)"

definition pending_ok :: "pending_sub_t \<Rightarrow> bool" where
  "pending_ok p \<longleftrightarrow> buf 16 (ps_type p) \<and> buf 64 (ps_from p) \<and> buf 32 (ps_to_user p)"

definition private_ok :: "private_store_entry_t \<Rightarrow> bool" where
  "private_ok p \<longleftrightarrow> buf 32 (pe_username p) \<and> buf 128 (pe_ns p) \<and> buf 900 (pe_xml p)"

definition roster_ok :: "roster_entry_t \<Rightarrow> bool" where
  "roster_ok r \<longleftrightarrow> buf 32 (re_username r) \<and> buf 64 (re_jid r) \<and> buf 256 (re_item_xml r)"

definition world_ok :: "world \<Rightarrow> bool" where
  "world_ok w \<longleftrightarrow>
     array_ok MAX_USERS client_ok (client_registry w) \<and> array_ok MAX_ROOMS room_ok (rooms w) \<and>
     array_ok MAX_ROSTER_ENTRIES roster_ok (roster_store w) \<and>
     array_ok PRIVATE_STORAGE_SLOTS private_ok (private_store w) \<and>
     array_ok MAX_OFFLINE_MSGS offline_ok (offline_store w) \<and>
     array_ok MAX_PENDING_SUBS pending_ok (pending_subs w) \<and>
     array_ok 16 stanza_ok (stanza_pool w) \<and> client_idx w < MAX_USERS"

lemmas object_ok_defs = stanza_ok_def client_ok_def participant_ok_def room_ok_def offline_ok_def
  pending_ok_def private_ok_def roster_ok_def

lemma zero_ok [simp]:
  "stanza_ok zero_stanza" "client_ok zero_client" "participant_ok zero_participant"
  "room_ok zero_room" "offline_ok zero_offline" "pending_ok zero_pending"
  "private_ok zero_private" "roster_ok zero_roster"
  by (simp_all add: object_ok_defs zero_defs) (simp_all add: zbuf_def)

text \<open>The memory at boot, before the stores are loaded.\<close>

definition boot_world :: "disk \<Rightarrow> env \<Rightarrow> world" where
  "boot_world d e =
     \<lparr>client_registry = replicate MAX_USERS zero_client, rooms = replicate MAX_ROOMS zero_room,
      roster_store = replicate MAX_ROSTER_ENTRIES zero_roster, roster_version = 0,
      private_store = replicate PRIVATE_STORAGE_SLOTS zero_private,
      offline_store = replicate MAX_OFFLINE_MSGS zero_offline,
      pending_subs = replicate MAX_PENDING_SUBS zero_pending,
      stanza_pool = replicate 16 zero_stanza, client_idx = 0, disk_dev = d, env = e\<rparr>"

lemma zero_client_sel [simp]:
  "cl_pcb zero_client = None" "cl_state zero_client = STATE_CONNECTED"
  "cl_authenticated zero_client = False" "cl_rx_pos zero_client = 0"
  "cl_tls_rx_len zero_client = 0" "cl_tls_rx_pos zero_client = 0"
  "cl_tls_established zero_client = False" "cl_tls_initialised zero_client = False"
  "cl_sm_enabled zero_client = False" "cl_sasl_failures zero_client = 0"
  "cstr (cl_full_jid zero_client) = []" "cstr (cl_username zero_client) = []"
  "cl_initial_presence_sent zero_client = False"
  by (simp_all add: zero_client_def)

text \<open>A concrete environment and disk for examples: the hardware generator is absent, mbedTLS
  accepts everything it is given, \<open>tcp_write\<close> succeeds and there is no disk.\<close>

definition idle_env :: env where
  "idle_env = \<lparr>trace = [], ssl_script = (\<lambda>_. \<lparr>ss_bio = [], ss_ret = 65536, ss_plain = []\<rparr>),
     ssl_calls = 0, tcp_script = (\<lambda>_. ERR_OK), tcp_calls = 0,
     env_rng = \<lparr>rdrand = (\<lambda>_. None), rd_pos = 0, rs_state = 0, rs_seeded = False, rs_addr = 4096\<rparr>, stack_bytes = (\<lambda>_. NUL)\<rparr>"

definition no_disk :: disk where
  "no_disk = \<lparr>g_backend = DISK_NONE, medium = (\<lambda>_. zbuf SECTOR), io_script = (\<lambda>_. IoOk), io_calls = 0\<rparr>"

lemma boot_world_ok: "world_ok (boot_world d e)"
  by (simp add: world_ok_def boot_world_def)

lemma world_ok_client: "world_ok w \<Longrightarrow> i < MAX_USERS \<Longrightarrow> client_ok (client w i)"
  by (auto simp: world_ok_def dest: array_ok_nth)

lemma world_ok_room: "world_ok w \<Longrightarrow> r < MAX_ROOMS \<Longrightarrow> room_ok (room w r)"
  by (auto simp: world_ok_def dest: array_ok_nth)

lemma world_ok_lengths:
  assumes "world_ok w"
  shows "length (client_registry w) = 20" "length (rooms w) = 4" "length (roster_store w) = 80"
    "length (private_store w) = 20" "length (offline_store w) = 32" "length (pending_subs w) = 32"
    "length (stanza_pool w) = 16"
  using assms by (auto simp: world_ok_def dest: array_ok_length)

lemma world_ok_on_client:
  assumes "world_ok w" and "i < MAX_USERS \<Longrightarrow> client_ok (client w i) \<Longrightarrow> client_ok (fst (f (client w i, env w)))"
  shows "world_ok (on_client i f w)"
  using assms
  by (auto simp: world_ok_def on_client_def split: prod.splits dest: array_ok_nth intro!: array_ok_update)

lemma world_ok_upd_client:
  assumes "world_ok w" and "i < MAX_USERS \<Longrightarrow> client_ok (client w i) \<Longrightarrow> client_ok (f (client w i))"
  shows "world_ok (upd_client i f w)"
  using assms by (auto simp: world_ok_def upd_client_def dest: array_ok_nth intro!: array_ok_update)

lemma world_ok_upd_room:
  assumes "world_ok w" and "r < MAX_ROOMS \<Longrightarrow> room_ok (room w r) \<Longrightarrow> room_ok (f (room w r))"
  shows "world_ok (upd_room r f w)"
  using assms by (auto simp: world_ok_def upd_room_def dest: array_ok_nth intro!: array_ok_update)

end
