(* ===== verification/Tls.thy ===== *)
theory Tls
  imports Xmpp_Types
begin

text \<open>
  The calls into lwIP and the TLS glue of \<^verbatim>\<open>src/src/xmpp/xmpp_tls.c\<close>: the BIO functions that mbedTLS
  calls back, the staging buffer of received ciphertext, the handshake step and decryption into
  the receive buffer.  \<open>decrypt_loop\<close> is the \<open>do ... while (ret > 0)\<close> of \<open>xmpp_tls_decrypt\<close>; its
  termination proof shows that the loop ends whatever mbedTLS returns, because every round
  that continues has filled part of the receive buffer.
\<close>

subsection \<open>lwIP\<close>

definition emit :: "event \<Rightarrow> env \<Rightarrow> env" where
  "emit ev e = e\<lparr>trace := trace e @ [ev]\<rparr>"

definition tcp_write :: "nat option \<Rightarrow> string \<Rightarrow> env \<Rightarrow> err_t \<times> env" where
  "tcp_write p data e =
     (tcp_script e (tcp_calls e), (emit (Ev_TcpWrite p data) e)\<lparr>tcp_calls := Suc (tcp_calls e)\<rparr>)"

definition tcp_output :: "nat option \<Rightarrow> env \<Rightarrow> env" where
  "tcp_output p e = emit (Ev_TcpOutput p) e"

definition tcp_close :: "nat option \<Rightarrow> env \<Rightarrow> env" where
  "tcp_close p e = emit (Ev_TcpClose p) e"

definition tcp_recved :: "nat option \<Rightarrow> nat \<Rightarrow> env \<Rightarrow> env" where
  "tcp_recved p n e = emit (Ev_TcpRecved p n) e"

subsection \<open>The BIO callbacks\<close>

abbreviation (input) MBEDTLS_ERR_SSL_WANT_READ :: int where
  "MBEDTLS_ERR_SSL_WANT_READ \<equiv> - 0x6900"

abbreviation (input) MBEDTLS_ERR_SSL_WANT_WRITE :: int where
  "MBEDTLS_ERR_SSL_WANT_WRITE \<equiv> - 0x6880"

abbreviation (input) MBEDTLS_SSL_IN_CONTENT_LEN :: nat where
  "MBEDTLS_SSL_IN_CONTENT_LEN \<equiv> 16384"

definition tls_net_send :: "string \<Rightarrow> cx \<Rightarrow> int \<times> cx" where
  "tls_net_send data x =
     (case x of (c, e) \<Rightarrow>
        if cl_pcb c = None then (-1, (c, e))
        else
          let (r, e') = tcp_write (cl_pcb c) (take (length data mod 65536) data) e in
          if r = ERR_MEM then (MBEDTLS_ERR_SSL_WANT_WRITE, (c, e'))
          else if r \<noteq> ERR_OK then (-1, (c, e'))
          else (int (length data), (c, e')))"

definition tls_net_recv :: "nat \<Rightarrow> xmpp_client_ctx_t \<Rightarrow> int \<times> cbuf \<times> xmpp_client_ctx_t" where
  "tls_net_recv len c =
     (if cl_tls_rx_len c \<le> cl_tls_rx_pos c then (MBEDTLS_ERR_SSL_WANT_READ, [], c)
      else
        let avail = cl_tls_rx_len c - cl_tls_rx_pos c;
            n = (if len < avail then len else avail)
        in (int n, take n (drop (cl_tls_rx_pos c) (cl_tls_rx_buf c)),
            c\<lparr>cl_tls_rx_pos := cl_tls_rx_pos c + n\<rparr>))"

subsection \<open>mbedTLS\<close>

fun run_bio :: "bio_call list \<Rightarrow> cx \<Rightarrow> cx" where
  "run_bio [] x = x"
| "run_bio (BioSend data # cs) x = run_bio cs (snd (tls_net_send data x))"
| "run_bio (BioRecv len # cs) x = run_bio cs (snd (snd (tls_net_recv len (fst x))), snd x)"

definition ssl_call :: "cx \<Rightarrow> ssl_step \<times> cx" where
  "ssl_call x =
     (case x of (c, e) \<Rightarrow>
        let s = ssl_script e (ssl_calls e) in
        (s, run_bio (ss_bio s) (c, e\<lparr>ssl_calls := Suc (ssl_calls e)\<rparr>)))"

text \<open>\<open>mbedtls_ssl_write\<close> returns an error or a number of bytes accepted, at most the length;
  \<open>mbedtls_ssl_read\<close> an error or the number of bytes it stored, at most the size.\<close>

definition ssl_write :: "string \<Rightarrow> cx \<Rightarrow> int \<times> cx" where
  "ssl_write data x =
     (case x of (c, e) \<Rightarrow>
        let (s, (c', e')) = ssl_call (c, e);
            ret = min (ss_ret s) (int (length data))
        in (ret, (c', emit (Ev_SslWrite (cl_pcb c) data ret) e')))"

definition ssl_read :: "nat \<Rightarrow> cx \<Rightarrow> int \<times> string \<times> cx" where
  "ssl_read sz x =
     (let (s, x') = ssl_call x; plain = take sz (ss_plain s)
      in if ss_ret s > 0 then (int (length plain), plain, x') else (ss_ret s, [], x'))"

definition ssl_handshake :: "cx \<Rightarrow> int \<times> cx" where
  "ssl_handshake x = (let (s, x') = ssl_call x in (ss_ret s, x'))"

definition ssl_setup :: "env \<Rightarrow> int \<times> env" where
  "ssl_setup e = (ss_ret (ssl_script e (ssl_calls e)), e\<lparr>ssl_calls := Suc (ssl_calls e)\<rparr>)"

subsection \<open>The staging buffer\<close>

definition tls_staging_compact :: "xmpp_client_ctx_t \<Rightarrow> xmpp_client_ctx_t" where
  "tls_staging_compact c =
     (if cl_tls_rx_pos c \<ge> cl_tls_rx_len c then c\<lparr>cl_tls_rx_pos := 0, cl_tls_rx_len := 0\<rparr>
      else if cl_tls_rx_pos c > 0 then
        c\<lparr>cl_tls_rx_buf :=
             memmove (cl_tls_rx_buf c) 0 (cl_tls_rx_pos c) (cl_tls_rx_len c - cl_tls_rx_pos c),
          cl_tls_rx_len := cl_tls_rx_len c - cl_tls_rx_pos c, cl_tls_rx_pos := 0\<rparr>
      else c)"

definition stage :: "string \<Rightarrow> xmpp_client_ctx_t \<Rightarrow> xmpp_client_ctx_t" where
  "stage data c =
     (if length data > 0 then
        c\<lparr>cl_tls_rx_buf := memcpy_at (cl_tls_rx_buf c) (cl_tls_rx_len c) data (length data),
          cl_tls_rx_len := cl_tls_rx_len c + length data\<rparr>
      else c)"

definition close_pcb :: "cx \<Rightarrow> cx" where
  "close_pcb x =
     (case x of (c, e) \<Rightarrow>
        if cl_pcb c \<noteq> None then (c\<lparr>cl_pcb := None\<rparr>, tcp_close (cl_pcb c) e) else (c, e))"

subsection \<open>Sessions\<close>

definition xmpp_tls_client_init :: "cx \<Rightarrow> int \<times> cx" where
  "xmpp_tls_client_init x =
     (case x of (c, e) \<Rightarrow>
        let c1 = c\<lparr>cl_tls_want_write := False\<rparr>; (ret, e1) = ssl_setup e in
        if ret \<noteq> 0 then (ret, (c1, emit (Ev_SslFree (cl_pcb c)) e1))
        else (0, (c1\<lparr>cl_tls_rx_len := 0, cl_tls_rx_pos := 0, cl_tls_established := False,
                     cl_tls_initialised := True\<rparr>, e1)))"

definition xmpp_tls_client_free :: "cx \<Rightarrow> cx" where
  "xmpp_tls_client_free x =
     (case x of (c, e) \<Rightarrow>
        if cl_tls_initialised c then
          (c\<lparr>cl_tls_established := False, cl_tls_initialised := False, cl_tls_rx_len := 0,
             cl_tls_rx_pos := 0\<rparr>, emit (Ev_SslFree (cl_pcb c)) e)
        else (c, e))"

definition xmpp_tls_handshake_step :: "string \<Rightarrow> cx \<Rightarrow> cx" where
  "xmpp_tls_handshake_step data x =
     (case x of (c0, e0) \<Rightarrow>
        let c1 = tls_staging_compact c0 in
        if length data > TLS_RX_BUF_SIZE - cl_tls_rx_len c1 then
          (let (c2, e2) = close_pcb (c1, e0)
           in (c2\<lparr>cl_state := STATE_CONNECTED, cl_tls_established := False\<rparr>, e2))
        else
          let (ret, (c2, e2)) = ssl_handshake (stage data c1, e0);
              e3 = (if cl_pcb c2 \<noteq> None then tcp_output (cl_pcb c2) e2 else e2);
              c3 = tls_staging_compact c2
          in if ret = 0 then
               (c3\<lparr>cl_tls_established := True, cl_tls_want_write := False,
                   cl_state := STATE_CONNECTED, cl_rx_pos := 0\<rparr>, e3)
             else if ret = MBEDTLS_ERR_SSL_WANT_READ then (c3\<lparr>cl_tls_want_write := False\<rparr>, e3)
             else if ret = MBEDTLS_ERR_SSL_WANT_WRITE then (c3\<lparr>cl_tls_want_write := True\<rparr>, e3)
             else
               (let (c4, e4) = close_pcb (c3\<lparr>cl_tls_want_write := False\<rparr>, e3)
                in (c4\<lparr>cl_state := STATE_CONNECTED, cl_tls_established := False\<rparr>, e4)))"

definition policy_violation :: string where
  "policy_violation =
     ''<stream:error><policy-violation xmlns='urn:ietf:params:xml:ns:xmpp-stanzas'/></stream:error></stream:stream>''"

text \<open>Appending to the receive buffer: \<open>memcpy\<close> at \<open>rx_pos\<close>, then the terminator.\<close>

definition rx_append :: "string \<Rightarrow> xmpp_client_ctx_t \<Rightarrow> xmpp_client_ctx_t" where
  "rx_append data c =
     (let pos = cl_rx_pos c + length data
      in c\<lparr>cl_rx_buffer := poke (memcpy_at (cl_rx_buffer c) (cl_rx_pos c) data (length data)) pos NUL,
           cl_rx_pos := pos\<rparr>)"


subsection \<open>What the environment cannot change\<close>

text \<open>The part of a client context that lwIP and mbedTLS calls leave alone: everything but the
  read position of the staging buffer.\<close>

definition bio_frame :: "xmpp_client_ctx_t \<Rightarrow> xmpp_client_ctx_t \<Rightarrow> bool" where
  "bio_frame c c' \<longleftrightarrow> (\<exists>p. c' = c\<lparr>cl_tls_rx_pos := p\<rparr> \<and>
     (cl_tls_rx_pos c \<le> cl_tls_rx_len c \<longrightarrow> p \<le> cl_tls_rx_len c))"

lemma bio_frame_refl [simp]: "bio_frame c c"
  unfolding bio_frame_def by (intro exI [of _ "cl_tls_rx_pos c"]) simp

lemma bio_frame_trans: "bio_frame a b \<Longrightarrow> bio_frame b c \<Longrightarrow> bio_frame a c"
  unfolding bio_frame_def by (elim exE) (rule_tac x = pa in exI, simp)

lemma tls_net_send_frame: "fst (snd (tls_net_send data (c, e))) = c"
  by (simp add: tls_net_send_def Let_def split: prod.splits)

lemma tls_net_recv_frame: "bio_frame c (snd (snd (tls_net_recv len c)))"
  unfolding bio_frame_def
  by (intro exI [of _ "cl_tls_rx_pos (snd (snd (tls_net_recv len c)))"])
     (auto simp: tls_net_recv_def Let_def)

lemma run_bio_frame: "bio_frame (fst x) (fst (run_bio cs x))"
proof (induction cs x rule: run_bio.induct)
  case (2 data cs x)
  then show ?case using tls_net_send_frame [of data "fst x" "snd x"] by simp
next
  case (3 len cs x)
  then show ?case using tls_net_recv_frame [of "fst x" len] bio_frame_trans by auto
qed simp

lemma ssl_call_frame: "ssl_call (c, e) = (s, (c', e')) \<Longrightarrow> bio_frame c c'"
  using run_bio_frame [of "(c, e\<lparr>ssl_calls := Suc (ssl_calls e)\<rparr>)"]
  by (auto simp: ssl_call_def Let_def) (metis fst_conv)

lemma ssl_write_frame: "ssl_write data (c, e) = (r, (c', e')) \<Longrightarrow> bio_frame c c'"
  by (auto simp: ssl_write_def Let_def split: prod.splits dest: ssl_call_frame)

lemma ssl_read_frame: "ssl_read sz (c, e) = (r, d, (c', e')) \<Longrightarrow> bio_frame c c'"
  by (auto simp: ssl_read_def Let_def split: prod.splits if_splits dest: ssl_call_frame)

lemma ssl_handshake_frame: "ssl_handshake (c, e) = (r, (c', e')) \<Longrightarrow> bio_frame c c'"
  by (auto simp: ssl_handshake_def split: prod.splits dest: ssl_call_frame)

lemma bio_frame_ok: "client_ok c \<Longrightarrow> bio_frame c c' \<Longrightarrow> client_ok c'"
  by (auto simp: bio_frame_def client_ok_def)

lemma ssl_read_data: "ssl_read sz x = (r, d, x') \<Longrightarrow> 0 < r \<Longrightarrow> length d = nat r \<and> nat r \<le> sz"
  by (auto simp: ssl_read_def Let_def split: prod.splits if_splits)

subsection \<open>Decryption\<close>

lemma decrypt_progress:
  assumes "(ret, dec, c, e) = ssl_read sz (c0, e0)" and "0 < ret" and "cl_rx_pos c + nat ret < 32767"
  shows "RX_BUF_SIZE - cl_rx_pos (rx_append dec c) < RX_BUF_SIZE - cl_rx_pos c0"
proof -
  have "cl_rx_pos c = cl_rx_pos c0" using ssl_read_frame [OF assms(1) [symmetric]] by (auto simp: bio_frame_def)
  moreover have "length dec = nat ret" using ssl_read_data [OF assms(1) [symmetric] assms(2)] by simp
  ultimately show ?thesis using assms(2,3) by (simp add: rx_append_def Let_def)
qed

function decrypt_loop :: "cx \<Rightarrow> cx" where
  "decrypt_loop x =
     (case ssl_read MBEDTLS_SSL_IN_CONTENT_LEN x of (ret, dec, (c, e)) \<Rightarrow>
        if ret > 0 then
          (if cl_rx_pos c + nat ret < RX_BUF_SIZE - 1 then decrypt_loop (rx_append dec c, e)
           else if cl_pcb c \<noteq> None then
             (let (_, (c1, e1)) = ssl_write policy_violation (c, e);
                  e2 = tcp_close (cl_pcb c1) (tcp_output (cl_pcb c1) e1)
              in (c1\<lparr>cl_pcb := None\<rparr>, e2))
           else (c, e))
        else if ret = 0 then close_pcb (c, e)
        else if ret \<noteq> MBEDTLS_ERR_SSL_WANT_READ \<and> ret \<noteq> MBEDTLS_ERR_SSL_WANT_WRITE then
          (let (c1, e1) = close_pcb (c, e) in (c1\<lparr>cl_tls_established := False\<rparr>, e1))
        else (tls_staging_compact c, e))"
  by pat_completeness auto
termination
  by (relation "measure (\<lambda>(c, e). RX_BUF_SIZE - cl_rx_pos c)") (auto dest: decrypt_progress)

declare decrypt_loop.simps [simp del]

definition xmpp_tls_decrypt :: "string \<Rightarrow> cx \<Rightarrow> cx" where
  "xmpp_tls_decrypt data x =
     (case x of (c0, e0) \<Rightarrow>
        let c1 = tls_staging_compact c0 in
        if length data > TLS_RX_BUF_SIZE - cl_tls_rx_len c1 then close_pcb (c1, e0)
        else decrypt_loop (stage data c1, e0))"

subsection \<open>The buffers stay within bounds\<close>

lemma tls_staging_compact_ok: "client_ok c \<Longrightarrow> client_ok (tls_staging_compact c)"
  by (auto simp: tls_staging_compact_def client_ok_def)

lemma stage_ok:
  assumes "client_ok c" and "length data \<le> TLS_RX_BUF_SIZE - cl_tls_rx_len c"
  shows "client_ok (stage data c)"
  using assms by (auto simp: stage_def client_ok_def memcpy_at_eq)

lemma rx_append_ok:
  assumes "client_ok c" and "cl_rx_pos c + length data < RX_BUF_SIZE - 1"
  shows "client_ok (rx_append data c)"
proof -
  have "buf RX_BUF_SIZE (poke (memcpy_at (cl_rx_buffer c) (cl_rx_pos c) data (length data))
      (cl_rx_pos c + length data) NUL)"
    using assms by (intro buf_poke_NUL) (auto simp: client_ok_def memcpy_at_eq buf_length)
  with assms show ?thesis
    by (auto simp: rx_append_def client_ok_def Let_def memcpy_at_eq buf_length nth_poke)
qed

lemma close_pcb_fst: "fst (close_pcb (c, e)) = c\<lparr>cl_pcb := None\<rparr>"
  by (auto simp: close_pcb_def)

lemma close_pcb_ok: "client_ok c \<Longrightarrow> close_pcb (c, e) = (c', e') \<Longrightarrow> client_ok c'"
  by (auto simp: close_pcb_def client_ok_def split: if_splits)

lemma ssl_write_ok: "client_ok c \<Longrightarrow> ssl_write data (c, e) = (r, (c', e')) \<Longrightarrow> client_ok c'"
  using bio_frame_ok ssl_write_frame by blast

lemma decrypt_loop_ok: "client_ok (fst x) \<Longrightarrow> client_ok (fst (decrypt_loop x))"
proof (induction x rule: decrypt_loop.induct)
  case (1 x)
  obtain ret dec c e where rd: "ssl_read MBEDTLS_SSL_IN_CONTENT_LEN x = (ret, dec, c, e)"
    by (metis prod_cases4)
  obtain c0 e0 where x: "x = (c0, e0)" by force
  have ok: "client_ok c" using 1(2) ssl_read_frame [OF rd [unfolded x]] bio_frame_ok x by simp
  note step = decrypt_loop.simps [of x, unfolded rd prod.case]
  show ?case
  proof (cases "ret > 0 \<and> cl_rx_pos c + nat ret < RX_BUF_SIZE - 1")
    case True
    then have "length dec = nat ret" using ssl_read_data [OF rd] by simp
    then have "client_ok (rx_append dec c)" using rx_append_ok [OF ok] True by simp
    with True 1(1) [OF rd [symmetric]] show ?thesis by (simp add: step)
  next
    case False
    with ok show ?thesis
      using close_pcb_ok [OF ok] tls_staging_compact_ok [OF ok] ssl_write_ok [OF ok]
      by (auto simp: step Let_def client_ok_def split: prod.splits)
  qed
qed

lemma xmpp_tls_decrypt_ok: "client_ok (fst x) \<Longrightarrow> client_ok (fst (xmpp_tls_decrypt data x))"
proof (cases x)
  case (Pair c e)
  assume "client_ok (fst x)"
  then have ok: "client_ok (tls_staging_compact c)" using Pair tls_staging_compact_ok by simp
  show ?thesis
    using Pair ok stage_ok [OF ok, of data] decrypt_loop_ok [of "(stage data (tls_staging_compact c), e)"]
      close_pcb_ok [OF ok]
    by (cases "close_pcb (tls_staging_compact c, e)")
       (auto simp: xmpp_tls_decrypt_def Let_def)
qed

lemma xmpp_tls_handshake_step_ok:
  "client_ok (fst x) \<Longrightarrow> client_ok (fst (xmpp_tls_handshake_step data x))"
proof (cases x)
  case (Pair c e)
  assume "client_ok (fst x)"
  then have ok: "client_ok (tls_staging_compact c)" using Pair tls_staging_compact_ok by simp
  show ?thesis
  proof (cases "length data > TLS_RX_BUF_SIZE - cl_tls_rx_len (tls_staging_compact c)")
    case True
    then show ?thesis using Pair ok
      by (simp add: xmpp_tls_handshake_step_def Let_def case_prod_beta close_pcb_fst client_ok_def)
  next
    case False
    obtain ret c2 e2 where hs: "ssl_handshake (stage data (tls_staging_compact c), e) = (ret, c2, e2)"
      by (metis prod_cases3)
    from False have "client_ok (stage data (tls_staging_compact c))" by (intro stage_ok [OF ok]) simp
    then have "client_ok (tls_staging_compact c2)"
      using ssl_handshake_frame [OF hs] bio_frame_ok tls_staging_compact_ok by blast
    with Pair False show ?thesis
      by (simp add: xmpp_tls_handshake_step_def Let_def case_prod_beta hs close_pcb_fst client_ok_def)
  qed
qed

lemma xmpp_tls_client_init_ok:
  "client_ok (fst x) \<Longrightarrow> xmpp_tls_client_init x = (r, x') \<Longrightarrow> client_ok (fst x')"
  by (auto simp: xmpp_tls_client_init_def client_ok_def Let_def split: prod.splits if_splits)

lemma xmpp_tls_client_free_ok: "client_ok (fst x) \<Longrightarrow> client_ok (fst (xmpp_tls_client_free x))"
  by (auto simp: xmpp_tls_client_free_def client_ok_def split: prod.splits)

subsection \<open>The staging buffer is a byte queue\<close>

definition staged :: "xmpp_client_ctx_t \<Rightarrow> string" where
  "staged c = take (cl_tls_rx_len c - cl_tls_rx_pos c) (drop (cl_tls_rx_pos c) (cl_tls_rx_buf c))"

definition stage_space :: "xmpp_client_ctx_t \<Rightarrow> nat" where
  "stage_space c = TLS_RX_BUF_SIZE - cl_tls_rx_len c"

definition bio_get :: "nat \<Rightarrow> xmpp_client_ctx_t \<Rightarrow> string \<times> xmpp_client_ctx_t" where
  "bio_get n c = snd (tls_net_recv n c)"

text \<open>The operations in any order: data arriving from the network (dropped with the connection
  when it does not fit), mbedTLS reading, and compaction.\<close>

datatype queue_op = Put string | Get nat | Tidy

fun queue_run ::
  "(string \<Rightarrow> 's \<Rightarrow> 's) \<Rightarrow> (nat \<Rightarrow> 's \<Rightarrow> string \<times> 's) \<Rightarrow> ('s \<Rightarrow> 's) \<Rightarrow> ('s \<Rightarrow> nat) \<Rightarrow> queue_op list \<Rightarrow>
   's \<times> string \<times> string \<Rightarrow> 's \<times> string \<times> string" where
  "queue_run put get tidy space [] x = x"
| "queue_run put get tidy space (Put d # ops) (s, i, out) =
     (if length d \<le> space s then queue_run put get tidy space ops (put d s, i @ d, out)
      else (s, i, out))"
| "queue_run put get tidy space (Get n # ops) (s, i, out) =
     (case get n s of (d, s') \<Rightarrow> queue_run put get tidy space ops (s', i, out @ d))"
| "queue_run put get tidy space (Tidy # ops) (s, i, out) =
     queue_run put get tidy space ops (tidy s, i, out)"

locale byte_queue =
  fixes put :: "string \<Rightarrow> 's \<Rightarrow> 's"
    and get :: "nat \<Rightarrow> 's \<Rightarrow> string \<times> 's"
    and tidy :: "'s \<Rightarrow> 's"
    and space :: "'s \<Rightarrow> nat"
    and content :: "'s \<Rightarrow> string"
    and inv :: "'s \<Rightarrow> bool"
  assumes put_law: "inv s \<Longrightarrow> length d \<le> space s \<Longrightarrow> content (put d s) = content s @ d \<and> inv (put d s)"
    and get_law: "inv s \<Longrightarrow> get n s = (d, s') \<Longrightarrow> d @ content s' = content s \<and> length d = min n (length (content s)) \<and> inv s'"
    and tidy_law: "inv s \<Longrightarrow> content (tidy s) = content s \<and> inv (tidy s)"
begin

lemma queue_fifo:
  assumes "inv s" and "out @ content s = inp"
    and "queue_run put get tidy space ops (s, inp, out) = (s', inp', out')"
  shows "out' @ content s' = inp' \<and> inv s'"
  using assms
proof (induction ops arbitrary: s inp out)
  case (Cons op ops)
  show ?case
  proof (cases op)
    case (Put d)
    show ?thesis
    proof (cases "length d \<le> space s")
      case True
      then show ?thesis
        using Put Cons.prems Cons.IH [of "put d s" out "inp @ d"] put_law [of s d] by auto
    next
      case False
      then show ?thesis using Put Cons.prems by auto
    qed
  next
    case (Get n)
    obtain d s1 where g: "get n s = (d, s1)" by force
    then show ?thesis
      using Get Cons.prems Cons.IH [of s1 "out @ d" inp] get_law [OF Cons.prems(1) g] by simp
  next
    case Tidy
    then show ?thesis using Cons.prems Cons.IH [of "tidy s" out inp] tidy_law [of s] by simp
  qed
qed simp

end

interpretation tls_staging: byte_queue stage bio_get tls_staging_compact stage_space staged client_ok
proof unfold_locales
  fix s :: xmpp_client_ctx_t and d :: string
  assume ok: "client_ok s"
  show "staged (tls_staging_compact s) = staged s \<and> client_ok (tls_staging_compact s)"
    using ok tls_staging_compact_ok [OF ok]
    by (auto simp: staged_def tls_staging_compact_def client_ok_def memmove_eq)
  show "staged (stage d s) = staged s @ d \<and> client_ok (stage d s)" if "length d \<le> stage_space s"
    using that ok stage_ok [OF ok, of d]
    by (auto simp: staged_def stage_def stage_space_def client_ok_def memcpy_at_eq take_drop)
next
  fix s s' :: xmpp_client_ctx_t and n and d :: string
  assume ok: "client_ok s" and g: "bio_get n s = (d, s')"
  have "client_ok s'"
    using bio_frame_ok [OF ok tls_net_recv_frame, of n] g by (simp add: bio_get_def)
  moreover have "d @ staged s' = staged s \<and> length d = min n (length (staged s))"
  proof (cases "cl_tls_rx_len s \<le> cl_tls_rx_pos s")
    case True
    with g show ?thesis by (auto simp: bio_get_def tls_net_recv_def staged_def)
  next
    case False
    define k where "k = min n (cl_tls_rx_len s - cl_tls_rx_pos s)"
    have "d = take k (drop (cl_tls_rx_pos s) (cl_tls_rx_buf s))"
      "s' = s\<lparr>cl_tls_rx_pos := cl_tls_rx_pos s + k\<rparr>"
      using False g by (auto simp: bio_get_def tls_net_recv_def k_def Let_def min_def split: if_splits)
    then show ?thesis
      using False ok take_add [of k "cl_tls_rx_len s - cl_tls_rx_pos s - k" "drop (cl_tls_rx_pos s) (cl_tls_rx_buf s)"]
      by (auto simp: staged_def k_def client_ok_def add.commute)
  qed
  ultimately show "d @ staged s' = staged s \<and> length d = min n (length (staged s)) \<and> client_ok s'"
    by simp
qed

text \<open>C37: Received ciphertext reaches mbedTLS complete and in order.  However arrivals, reads of
  any size and compactions interleave, the bytes read so far followed by the bytes still staged
  are exactly the bytes that arrived.\<close>

theorem tls_staging_fifo:
  assumes "client_ok c" and "staged c = []"
    and "queue_run stage bio_get tls_staging_compact stage_space ops (c, [], []) = (c', arrived, delivered)"
  shows "delivered @ staged c' = arrived \<and> client_ok c'"
  using tls_staging.queue_fifo [OF assms(1) _ assms(3)] assms(2) by simp

theorem tls_staging_fifo_witness:
  "staged (tls_staging_compact (stage ''ab'' zero_client)) = ''ab''"
proof -
  have "queue_run stage bio_get tls_staging_compact stage_space [Put ''ab'', Tidy] (zero_client, [], []) =
      (tls_staging_compact (stage ''ab'' zero_client), ''ab'', [])"
    by (simp add: stage_space_def)
  from tls_staging_fifo [OF _ _ this] show ?thesis by (simp add: staged_def)
qed

text \<open>C36: The TLS glue is memory safe for every behaviour of mbedTLS and every input: the
  handshake step and the decryption loop keep each buffer of the client inside its array, with
  the receive buffer terminated.\<close>

theorem tls_buffers_safe:
  assumes "client_ok c"
  shows "client_ok (fst (xmpp_tls_handshake_step data (c, e))) \<and>
    client_ok (fst (xmpp_tls_decrypt data (c, e))) \<and>
    client_ok (fst (snd (xmpp_tls_client_init (c, e)))) \<and>
    client_ok (fst (xmpp_tls_client_free (c, e)))"
  using assms xmpp_tls_client_init_ok [of "(c, e)" "fst (xmpp_tls_client_init (c, e))"]
  by (intro conjI xmpp_tls_handshake_step_ok xmpp_tls_decrypt_ok xmpp_tls_client_free_ok) simp_all

theorem tls_buffers_safe_witness:
  "client_ok (fst (xmpp_tls_decrypt ''x'' (zero_client, idle_env)))"
  using tls_buffers_safe [of zero_client "''x''" idle_env] by simp

end
