(* ===== verification/Sm.thy ===== *)
theory Sm
  imports Tls
begin

text \<open>
  Sending to a client and stream management: \<open>send_raw\<close> of \<^verbatim>\<open>src/src/xmpp/xmpp_handlers.c\<close> and the
  XEP-0198 functions of \<^verbatim>\<open>src/src/xmpp/xmpp_sm.c\<close>.  \<open>outbox\<close> lists the stanzas handed to
  \<open>send_raw\<close> so far with the connection they go to; \<open>tls_accepted\<close> is the plaintext mbedTLS has
  taken.
\<close>

abbreviation SM_NS :: string where
  "SM_NS \<equiv> ''urn:xmpp:sm:3''"

subsection \<open>Stanza counting\<close>

definition xmpp_sm_on_stanza_received :: "xmpp_client_ctx_t \<Rightarrow> xmpp_client_ctx_t" where
  "xmpp_sm_on_stanza_received c =
     (if cl_sm_enabled c then c\<lparr>cl_sm_inbound_h := cl_sm_inbound_h c + 1\<rparr> else c)"

definition xmpp_sm_on_stanza_sent :: "xmpp_client_ctx_t \<Rightarrow> xmpp_client_ctx_t" where
  "xmpp_sm_on_stanza_sent c =
     (if \<not> cl_sm_enabled c then c
      else
        let c1 = c\<lparr>cl_sm_outbound_count := cl_sm_outbound_count c + 1\<rparr>
        in if cl_sm_outbound_count c1 mod 10 = 0 then c1\<lparr>cl_sm_want_ack := True\<rparr> else c1)"

subsection \<open>Sending\<close>

function send_loop :: "string \<Rightarrow> cx \<Rightarrow> cx" where
  "send_loop p x =
     (if p = [] then x
      else
        let (written, (c, e)) = ssl_write p x in
        if written = MBEDTLS_ERR_SSL_WANT_WRITE \<or> written = MBEDTLS_ERR_SSL_WANT_READ then
          (let e1 = (if cl_pcb c \<noteq> None then tcp_output (cl_pcb c) e else e);
               (written', x') = ssl_write p (c, e1)
           in if written' \<le> 0 then x' else send_loop (drop (nat written') p) x')
        else if written \<le> 0 then (c, e)
        else send_loop (drop (nat written) p) (c, e))"
  by pat_completeness auto
termination
  by (relation "measure (\<lambda>(p, x). length p)") auto

declare send_loop.simps [simp del]

definition send_raw :: "cbuf \<Rightarrow> cx \<Rightarrow> cx" where
  "send_raw data x =
     (case x of (c, e) \<Rightarrow>
        let e0 = emit (Ev_Send (cl_pcb c) (cstr data)) e;
            (c1, e1) =
              (if cl_tls_established c then
                 (let (c', e') = send_loop (cstr data) (c, e0)
                  in (c', if cl_pcb c' \<noteq> None then tcp_output (cl_pcb c') e' else e'))
               else (c, tcp_output (cl_pcb c) (snd (tcp_write (cl_pcb c) (cstr data) e0))))
        in (xmpp_sm_on_stanza_sent c1, e1))"

subsection \<open>Stream management elements\<close>

definition sm_enabled_fmt :: string where
  "sm_enabled_fmt = ''<enabled xmlns='urn:xmpp:sm:3' id='angelic%06x' resume='false'/>''"

definition xmpp_sm_send_enabled :: "cx \<Rightarrow> cx" where
  "xmpp_sm_send_enabled x =
     (case x of (c, e) \<Rightarrow>
        let (r, rng') = secure_random_u32 (env_rng e);
            token = r mod 0xFFFFFF;
            response = snprintf 256 sm_enabled_fmt [VInt (uint token)]
        in send_raw response
             (c\<lparr>cl_sm_enabled := True, cl_sm_inbound_h := 0, cl_sm_outbound_count := 0\<rparr>,
              e\<lparr>env_rng := rng'\<rparr>))"

definition xmpp_sm_send_ack :: "cx \<Rightarrow> cx" where
  "xmpp_sm_send_ack x =
     send_raw (snprintf 128 ''<a xmlns='urn:xmpp:sm:3' h='%u'/>'' [VInt (uint (cl_sm_inbound_h (fst x)))]) x"

definition xmpp_sm_request_ack :: "cx \<Rightarrow> cx" where
  "xmpp_sm_request_ack x =
     (if \<not> cl_sm_enabled (fst x) then x else send_raw ''<r xmlns='urn:xmpp:sm:3'/>'' x)"

text \<open>Removing the first \<open>n\<close> bytes of the receive buffer: \<open>memmove\<close>, the new position and the
  terminator.\<close>

definition rx_consume :: "nat \<Rightarrow> xmpp_client_ctx_t \<Rightarrow> xmpp_client_ctx_t" where
  "rx_consume n c =
     (let pos = cl_rx_pos c - n
      in c\<lparr>cl_rx_buffer := poke (memmove (cl_rx_buffer c) 0 n pos) pos NUL, cl_rx_pos := pos\<rparr>)"

text \<open>\<open>xmpp_sm_handle_element\<close>: the flag tells whether an element was consumed.  The value of
  \<open>h\<close> in an answer is parsed and discarded.\<close>

definition sm_handle_enable :: "cx \<Rightarrow> (bool \<times> cx) option" where
  "sm_handle_enable x =
     (let b = cl_rx_buffer (fst x) in
      if strncmp b ''<enable'' 7 = 0 \<and> strstr b SM_NS \<noteq> None then
        (case strchr b CHR ''>'' of
           None \<Rightarrow> Some (False, x)
         | Some gt \<Rightarrow> (let (c, e) = xmpp_sm_send_enabled x in Some (True, (rx_consume (gt + 1) c, e))))
      else None)"

definition sm_handle_request :: "cx \<Rightarrow> (bool \<times> cx) option" where
  "sm_handle_request x =
     (let b = cl_rx_buffer (fst x) in
      if (strncmp b ''<r'' 2 = 0 \<and> b ! 2 = CHR '' '' \<or> strncmp b ''<r/>'' 4 = 0) \<and> strstr b SM_NS \<noteq> None then
        (case strchr b CHR ''>'' of
           None \<Rightarrow> Some (False, x)
         | Some gt \<Rightarrow> (let (c, e) = xmpp_sm_send_ack x in Some (True, (rx_consume (gt + 1) c, e))))
      else None)"

definition sm_handle_answer :: "cx \<Rightarrow> (bool \<times> cx) option" where
  "sm_handle_answer x =
     (let b = cl_rx_buffer (fst x) in
      if strncmp b ''<a'' 2 = 0 \<and> b ! 2 = CHR '' '' \<and> strstr b SM_NS \<noteq> None \<and> strstr b ''h='' \<noteq> None then
        (case strchr b CHR ''>'' of
           None \<Rightarrow> Some (False, x)
         | Some gt \<Rightarrow> Some (True, (rx_consume (gt + 1) (fst x), snd x)))
      else None)"

definition xmpp_sm_handle_element :: "cx \<Rightarrow> bool \<times> cx" where
  "xmpp_sm_handle_element x =
     (if cl_state (fst x) < STATE_SESSION then (False, x)
      else case sm_handle_enable x of Some r \<Rightarrow> r
      | None \<Rightarrow> (case sm_handle_request x of Some r \<Rightarrow> r
        | None \<Rightarrow> (case sm_handle_answer x of Some r \<Rightarrow> r | None \<Rightarrow> (False, x))))"

subsection \<open>What sending changes\<close>

definition outbox :: "env \<Rightarrow> (nat option \<times> string) list" where
  "outbox e = concat (map (\<lambda>ev. case ev of Ev_Send p s \<Rightarrow> [(p, s)] | _ \<Rightarrow> []) (trace e))"

definition tls_accepted :: "nat option \<Rightarrow> env \<Rightarrow> string" where
  "tls_accepted p e = concat (map (\<lambda>ev. case ev of
     Ev_SslWrite q d r \<Rightarrow> if q = p then take (nat r) d else [] | _ \<Rightarrow> []) (trace e))"

text \<open>The part of the environment that stays when nothing is handed to \<open>send_raw\<close>.\<close>

definition quiet :: "env \<Rightarrow> env \<Rightarrow> bool" where
  "quiet e e' \<longleftrightarrow> outbox e' = outbox e \<and> env_rng e' = env_rng e \<and> ssl_script e' = ssl_script e \<and>
     tcp_script e' = tcp_script e \<and> prefix (trace e) (trace e')"

lemma quiet_refl [simp]: "quiet e e"
  by (simp add: quiet_def)

lemma quiet_trans: "quiet a b \<Longrightarrow> quiet b c \<Longrightarrow> quiet a c"
  by (auto simp: quiet_def)

lemma outbox_emit:
  "outbox (emit ev e) = outbox e @ (case ev of Ev_Send p s \<Rightarrow> [(p, s)] | _ \<Rightarrow> [])"
  by (simp add: outbox_def emit_def)

lemma tls_accepted_emit:
  "tls_accepted p (emit ev e) = tls_accepted p e @
     (case ev of Ev_SslWrite q d r \<Rightarrow> if q = p then take (nat r) d else [] | _ \<Rightarrow> [])"
  by (simp add: tls_accepted_def emit_def)

lemma env_ghost_frame [simp]:
  "outbox (e\<lparr>tcp_calls := n\<rparr>) = outbox e" "outbox (e\<lparr>ssl_calls := n\<rparr>) = outbox e"
  "outbox (e\<lparr>env_rng := r\<rparr>) = outbox e"
  "tls_accepted p (e\<lparr>tcp_calls := n\<rparr>) = tls_accepted p e"
  "tls_accepted p (e\<lparr>ssl_calls := n\<rparr>) = tls_accepted p e"
  by (simp_all add: outbox_def tls_accepted_def)

lemma emit_frame [simp]:
  "ssl_calls (emit ev e) = ssl_calls e" "tcp_calls (emit ev e) = tcp_calls e"
  "ssl_script (emit ev e) = ssl_script e" "tcp_script (emit ev e) = tcp_script e"
  "env_rng (emit ev e) = env_rng e"
  by (simp_all add: emit_def)

lemma quiet_emit: "(\<And>p s. ev \<noteq> Ev_Send p s) \<Longrightarrow> quiet e (emit ev e)"
  by (cases ev) (auto simp: quiet_def outbox_emit, simp_all add: emit_def)

lemma quiet_tcp:
  "quiet e (snd (tcp_write p d e))" "quiet e (tcp_output p e)" "quiet e (tcp_close p e)"
  by (auto simp: tcp_write_def tcp_output_def tcp_close_def quiet_def outbox_emit, simp_all add: emit_def)

lemma run_bio_quiet: "quiet (snd x) (snd (run_bio cs x)) \<and>
    tls_accepted p (snd (run_bio cs x)) = tls_accepted p (snd x) \<and>
    ssl_calls (snd (run_bio cs x)) = ssl_calls (snd x)"
proof (induction cs x rule: run_bio.induct)
  case (2 data cs x)
  have "quiet (snd x) (snd (snd (tls_net_send data x))) \<and>
      tls_accepted p (snd (snd (tls_net_send data x))) = tls_accepted p (snd x) \<and>
      ssl_calls (snd (snd (tls_net_send data x))) = ssl_calls (snd x)"
    using quiet_tcp(1) [of "snd x" "cl_pcb (fst x)" "take (length data mod 65536) data"]
    by (auto simp: tls_net_send_def tcp_write_def Let_def tls_accepted_emit split: prod.splits if_splits)
  with 2 show ?case using quiet_trans by auto
qed simp_all

lemma ssl_call_quiet:
  assumes "ssl_call (c, e) = (s, (c', e'))"
  shows "quiet e e' \<and> tls_accepted p e' = tls_accepted p e \<and> ssl_calls e' = Suc (ssl_calls e) \<and>
    s = ssl_script e (ssl_calls e)"
proof -
  have "quiet e (e\<lparr>ssl_calls := Suc (ssl_calls e)\<rparr>)" by (simp add: quiet_def)
  with assms show ?thesis
    using run_bio_quiet [of "(c, e\<lparr>ssl_calls := Suc (ssl_calls e)\<rparr>)" _ p] quiet_trans
    by (auto simp: ssl_call_def Let_def) (metis snd_conv tls_accepted_def)+
qed

lemma ssl_write_effect:
  assumes "ssl_write d (c, e) = (r, (c', e'))"
  shows "bio_frame c c'" and "quiet e e'" and "ssl_calls e' = Suc (ssl_calls e)"
    and "r = min (ss_ret (ssl_script e (ssl_calls e))) (int (length d))"
    and "tls_accepted (cl_pcb c) e' = tls_accepted (cl_pcb c) e @ take (nat r) d"
proof -
  from assms obtain s e1 where sc: "ssl_call (c, e) = (s, (c', e1))"
    and r: "r = min (ss_ret s) (int (length d))" and e': "e' = emit (Ev_SslWrite (cl_pcb c) d r) e1"
    by (auto simp: ssl_write_def Let_def split: prod.splits)
  note q = ssl_call_quiet [OF sc, of "cl_pcb c"]
  show "bio_frame c c'" by (rule ssl_call_frame [OF sc])
  show "quiet e e'" using q e' quiet_trans quiet_emit by blast
  show "ssl_calls e' = Suc (ssl_calls e)" using q e' by (simp add: emit_def)
  show "r = min (ss_ret (ssl_script e (ssl_calls e))) (int (length d))" using q r by simp
  show "tls_accepted (cl_pcb c) e' = tls_accepted (cl_pcb c) e @ take (nat r) d"
    using q e' by (simp add: tls_accepted_emit)
qed


text \<open>The fields of a client that sending may change.\<close>

definition send_frame :: "xmpp_client_ctx_t \<Rightarrow> xmpp_client_ctx_t \<Rightarrow> bool" where
  "send_frame c c' \<longleftrightarrow> (\<exists>p n b. c' = c\<lparr>cl_tls_rx_pos := p, cl_sm_want_ack := b, cl_sm_outbound_count := n\<rparr> \<and>
     (cl_tls_rx_pos c \<le> cl_tls_rx_len c \<longrightarrow> p \<le> cl_tls_rx_len c))"

lemma send_frame_refl [simp]: "send_frame c c"
  unfolding send_frame_def
  by (intro exI [of _ "cl_tls_rx_pos c"] exI [of _ "cl_sm_outbound_count c"] exI [of _ "cl_sm_want_ack c"]) simp

lemma send_frame_trans: "send_frame a b \<Longrightarrow> send_frame b c \<Longrightarrow> send_frame a c"
  unfolding send_frame_def by (elim exE) fastforce

lemma send_frame_bio: "bio_frame c c' \<Longrightarrow> send_frame c (xmpp_sm_on_stanza_sent c')"
  unfolding bio_frame_def send_frame_def xmpp_sm_on_stanza_sent_def Let_def
  apply (elim exE conjE)
  subgoal for p
    by (intro exI [of _ p] exI [of _ "if cl_sm_enabled c then cl_sm_outbound_count c + 1 else cl_sm_outbound_count c"]
        exI [of _ "if cl_sm_enabled c \<and> (cl_sm_outbound_count c + 1) mod 10 = 0 then True else cl_sm_want_ack c"]) simp
  done

lemma send_frame_ok: "client_ok c \<Longrightarrow> send_frame c c' \<Longrightarrow> client_ok c'"
  by (auto simp: send_frame_def client_ok_def)

lemma send_frame_sel:
  assumes "send_frame c c'"
  shows "cl_pcb c' = cl_pcb c" "cl_state c' = cl_state c" "cl_full_jid c' = cl_full_jid c"
    "cl_username c' = cl_username c" "cl_authenticated c' = cl_authenticated c"
    "cl_rx_buffer c' = cl_rx_buffer c" "cl_rx_pos c' = cl_rx_pos c"
    "cl_client_from c' = cl_client_from c" "cl_presence_payload c' = cl_presence_payload c"
    "cl_sasl_failures c' = cl_sasl_failures c" "cl_tls_established c' = cl_tls_established c"
    "cl_tls_initialised c' = cl_tls_initialised c"
    "cl_initial_presence_sent c' = cl_initial_presence_sent c"
    "cl_sm_enabled c' = cl_sm_enabled c" "cl_sm_inbound_h c' = cl_sm_inbound_h c"
    "cl_tls_rx_buf c' = cl_tls_rx_buf c" "cl_tls_rx_len c' = cl_tls_rx_len c"
  using assms by (auto simp: send_frame_def)

text \<open>mbedTLS makes progress: a call that takes nothing asks for the transport once, and the
  repeated call then takes something.\<close>

definition ssl_cooperates :: "env \<Rightarrow> bool" where
  "ssl_cooperates e \<longleftrightarrow> (\<forall>k \<ge> ssl_calls e. 0 < ss_ret (ssl_script e k) \<or>
     (ss_ret (ssl_script e k) \<in> {MBEDTLS_ERR_SSL_WANT_WRITE, MBEDTLS_ERR_SSL_WANT_READ} \<and>
      0 < ss_ret (ssl_script e (Suc k))))"

definition transmits :: "string \<Rightarrow> cx \<Rightarrow> cx \<Rightarrow> bool" where
  "transmits p x x' \<longleftrightarrow> bio_frame (fst x) (fst x') \<and> quiet (snd x) (snd x') \<and>
     ssl_calls (snd x) \<le> ssl_calls (snd x') \<and>
     (\<exists>q. prefix q p \<and> (ssl_cooperates (snd x) \<longrightarrow> q = p) \<and>
        tls_accepted (cl_pcb (fst x)) (snd x') = tls_accepted (cl_pcb (fst x)) (snd x) @ q)"

lemma ssl_cooperates_later:
  "ssl_cooperates e \<Longrightarrow> ssl_script e' = ssl_script e \<Longrightarrow> ssl_calls e \<le> ssl_calls e' \<Longrightarrow> ssl_cooperates e'"
  by (auto simp: ssl_cooperates_def)

lemma transmits_step:
  assumes "ssl_write p (c, e) = (w, (c1, e1))" and "0 < w" and "transmits (drop (nat w) p) (c1, e1) x'"
  shows "transmits p (c, e) x'"
proof -
  note wr = ssl_write_effect [OF assms(1)]
  have pcb: "cl_pcb c1 = cl_pcb c" using wr(1) by (auto simp: bio_frame_def)
  from assms(3) obtain q where q: "prefix q (drop (nat w) p)" "ssl_cooperates e1 \<longrightarrow> q = drop (nat w) p"
    "tls_accepted (cl_pcb c) (snd x') = tls_accepted (cl_pcb c) e1 @ q"
    "bio_frame c1 (fst x')" "quiet e1 (snd x')" "ssl_calls e1 \<le> ssl_calls (snd x')"
    by (auto simp: transmits_def pcb)
  have "ssl_cooperates e \<longrightarrow> ssl_cooperates e1"
    using wr(2,3) ssl_cooperates_later by (auto simp: quiet_def)
  moreover have "prefix (take (nat w) p @ q) p"
    using q(1) by (metis append_take_drop_id same_prefix_prefix)
  ultimately show ?thesis
    using q wr bio_frame_trans quiet_trans
    by (auto simp: transmits_def intro!: exI [of _ "take (nat w) p @ q"])
qed

lemma transmits_stop:
  assumes "ssl_write p (c, e) = (w, (c1, e1))" and "w \<le> 0" and "\<not> ssl_cooperates e"
  shows "transmits p (c, e) (c1, e1)"
  using ssl_write_effect [OF assms(1)] assms(2,3)
  by (auto simp: transmits_def intro!: exI [of _ "[]"])

lemma transmits_retry:
  assumes "bio_frame c c1" and "quiet e e1" and "quiet e1 e2" and "ssl_calls e \<le> ssl_calls e2"
    and "tls_accepted (cl_pcb c) e2 = tls_accepted (cl_pcb c) e" and "transmits p (c1, e2) x'"
  shows "transmits p (c, e) x'"
proof -
  have pcb: "cl_pcb c1 = cl_pcb c" using assms(1) by (auto simp: bio_frame_def)
  have q: "quiet e e2" using assms(2,3) by (rule quiet_trans)
  have "ssl_cooperates e \<longrightarrow> ssl_cooperates e2"
    using q assms(4) ssl_cooperates_later by (auto simp: quiet_def)
  with assms q show ?thesis
    unfolding transmits_def using bio_frame_trans quiet_trans by (auto simp: pcb)
qed

lemma ssl_write_refused:
  assumes "ssl_write p (c, e) = (w, (c1, e1))" and "w \<le> 0" and "p \<noteq> []" and "ssl_cooperates e"
  shows "w \<in> {MBEDTLS_ERR_SSL_WANT_WRITE, MBEDTLS_ERR_SSL_WANT_READ} \<and>
    0 < ss_ret (ssl_script e (Suc (ssl_calls e)))"
proof -
  have "w = min (ss_ret (ssl_script e (ssl_calls e))) (int (length p))"
    by (rule ssl_write_effect(4) [OF assms(1)])
  moreover have "0 < int (length p)" using assms(3) by simp
  ultimately have "w = ss_ret (ssl_script e (ssl_calls e))" using assms(2) by linarith
  then show ?thesis using assms(2,4) unfolding ssl_cooperates_def by (metis le_refl not_less)
qed

lemma send_loop_transmits: "transmits p x (send_loop p x)"
proof (induction p arbitrary: x rule: measure_induct_rule [of length])
  case (less p)
  obtain c e where x: "x = (c, e)" by force
  show ?case
  proof (cases "p = []")
    case True
    then show ?thesis by (simp add: transmits_def send_loop.simps)
  next
    case False
    obtain w c1 e1 where w: "ssl_write p x = (w, (c1, e1))" by (metis prod_cases3)
    note wx = w [unfolded x]
    have IH: "transmits (drop (nat k) p) y (send_loop (drop (nat k) p) y)" if "0 < k" for k y
      using less.IH [of "drop (nat k) p"] False that by simp
    note step = send_loop.simps [of p x, unfolded w Let_def prod.case]
    consider "0 < w" | "w \<le> 0" "w \<notin> {MBEDTLS_ERR_SSL_WANT_WRITE, MBEDTLS_ERR_SSL_WANT_READ}"
      | "w \<in> {MBEDTLS_ERR_SSL_WANT_WRITE, MBEDTLS_ERR_SSL_WANT_READ}" by force
    then show ?thesis
    proof cases
      case 1
      then have "send_loop p x = send_loop (drop (nat w) p) (c1, e1)" using step False by auto
      then show ?thesis using transmits_step [OF wx 1] IH [OF 1] x by simp
    next
      case 2
      then have "\<not> ssl_cooperates e" using ssl_write_refused [OF wx _ False] by blast
      then show ?thesis using transmits_stop [OF wx] 2 step False x by simp
    next
      case 3
      define e2 where "e2 = (if cl_pcb c1 \<noteq> None then tcp_output (cl_pcb c1) e1 else e1)"
      obtain w' c3 e3 where w': "ssl_write p (c1, e2) = (w', (c3, e3))" by (metis prod_cases3)
      have sl: "send_loop p x = (if w' \<le> 0 then (c3, e3) else send_loop (drop (nat w') p) (c3, e3))"
        using step False 3 w' by (auto simp: e2_def)
      note wr = ssl_write_effect [OF wx]
      have w0: "w \<le> 0" using 3 by auto
      have e2: "quiet e1 e2" "ssl_calls e2 = Suc (ssl_calls e)" "ssl_script e2 = ssl_script e"
        "tls_accepted (cl_pcb c) e2 = tls_accepted (cl_pcb c) e"
        using quiet_tcp(2) wr w0
        by (auto simp: e2_def quiet_def tcp_output_def tls_accepted_emit)
      have pcb: "cl_pcb c1 = cl_pcb c" using wr(1) by (auto simp: bio_frame_def)
      show ?thesis
      proof (cases "w' \<le> 0")
        case True
        have "ssl_cooperates e \<Longrightarrow> 0 < w'"
          using ssl_write_refused [OF wx w0 False] ssl_write_effect(4) [OF w'] e2(2,3) False by simp
        with True have "\<not> ssl_cooperates e" by auto
        then show ?thesis
          using ssl_write_effect [OF w'] wr(1,2) e2 True sl x pcb
          by (auto simp: transmits_def intro!: exI [of _ "[]"] intro: bio_frame_trans quiet_trans)
      next
        case False
        then have "transmits p (c1, e2) (send_loop p x)" using transmits_step [OF w'] IH sl by simp
        then show ?thesis using transmits_retry [OF wr(1,2) e2(1) _ e2(4)] e2(2) x by simp
      qed
    qed
  qed
qed


lemma send_raw_effect:
  assumes "send_raw data (c, e) = (c', e')"
  shows "send_frame c c'" and "outbox e' = outbox e @ [(cl_pcb c, cstr data)]"
    and "env_rng e' = env_rng e" and "ssl_script e' = ssl_script e" and "tcp_script e' = tcp_script e"
    and "prefix (trace e) (trace e')"
proof -
  let ?e0 = "emit (Ev_Send (cl_pcb c) (cstr data)) e"
  have "send_frame c c' \<and> quiet ?e0 e'"
  proof (cases "cl_tls_established c")
    case True
    obtain c1 e1 where sl: "send_loop (cstr data) (c, ?e0) = (c1, e1)" by force
    have t: "bio_frame c c1" "quiet ?e0 e1"
      using send_loop_transmits [of "cstr data" "(c, ?e0)"] sl by (auto simp: transmits_def)
    have "quiet e1 (if cl_pcb c1 \<noteq> None then tcp_output (cl_pcb c1) e1 else e1)"
      using quiet_tcp(2) by simp
    with t True assms sl show ?thesis
      using send_frame_bio quiet_trans by (auto simp: send_raw_def Let_def)
  next
    case False
    with assms show ?thesis
      using send_frame_bio [OF bio_frame_refl] quiet_tcp(1,2) quiet_trans
      by (auto simp: send_raw_def Let_def) blast
  qed
  then show "send_frame c c'" and "outbox e' = outbox e @ [(cl_pcb c, cstr data)]"
    and "env_rng e' = env_rng e" and "ssl_script e' = ssl_script e" and "tcp_script e' = tcp_script e"
    and "prefix (trace e) (trace e')"
    by (auto simp: quiet_def outbox_emit) (auto simp: emit_def prefix_def)
qed



subsection \<open>The receive buffer as text\<close>

definition rx_text :: "xmpp_client_ctx_t \<Rightarrow> string" where
  "rx_text c = take (cl_rx_pos c) (cl_rx_buffer c)"

lemma rx_append_text:
  "client_ok c \<Longrightarrow> cl_rx_pos c + length d < RX_BUF_SIZE - 1 \<Longrightarrow> rx_text (rx_append d c) = rx_text c @ d"
  by (auto simp: rx_text_def rx_append_def Let_def client_ok_def buf_def memcpy_at_eq poke_def)

lemma rx_consume_ok: "client_ok c \<Longrightarrow> n \<le> cl_rx_pos c \<Longrightarrow> client_ok (rx_consume n c)"
  by (auto simp: rx_consume_def Let_def client_ok_def buf_length nth_poke intro!: buf_poke_NUL)

lemma rx_consume_text:
  "client_ok c \<Longrightarrow> n \<le> cl_rx_pos c \<Longrightarrow> rx_text (rx_consume n c) = drop n (rx_text c)"
  by (auto simp: rx_text_def rx_consume_def Let_def client_ok_def buf_def memmove_eq poke_def drop_take)

lemma rx_cstr_bound: "client_ok c \<Longrightarrow> 0 < cl_rx_pos c \<Longrightarrow> length (cstr (cl_rx_buffer c)) \<le> cl_rx_pos c"
proof -
  assume "client_ok c" "0 < cl_rx_pos c"
  then have "cl_rx_buffer c = take (cl_rx_pos c) (cl_rx_buffer c) @ NUL # drop (Suc (cl_rx_pos c)) (cl_rx_buffer c)"
    using id_take_nth_drop [of "cl_rx_pos c" "cl_rx_buffer c"] by (auto simp: client_ok_def buf_def)
  then have "cstr (cl_rx_buffer c) = cstr (take (cl_rx_pos c) (cl_rx_buffer c))"
    by (metis cstr_append_NUL)
  then show ?thesis using length_cstr_le [of "take (cl_rx_pos c) (cl_rx_buffer c)"] by simp
qed

lemma rx_strchr_bound:
  "client_ok c \<Longrightarrow> 0 < cl_rx_pos c \<Longrightarrow> strchr (cl_rx_buffer c) CHR ''>'' = Some gt \<Longrightarrow> Suc gt \<le> cl_rx_pos c"
  using rx_cstr_bound by (fastforce simp: strchr_Some)

lemma send_raw_frame: "send_frame (fst x) (fst (send_raw data x))"
  using send_raw_effect(1) by (metis prod.collapse)

lemma send_raw_outbox [simp]: "outbox (snd (send_raw data x)) = outbox (snd x) @ [(cl_pcb (fst x), cstr data)]"
  using send_raw_effect(2) by (metis prod.collapse)

lemma send_raw_rng [simp]: "env_rng (snd (send_raw data x)) = env_rng (snd x)"
  using send_raw_effect(3) by (metis prod.collapse)

lemma send_raw_ok: "client_ok (fst x) \<Longrightarrow> client_ok (fst (send_raw data x))"
  using send_frame_ok send_raw_frame by blast

lemmas send_raw_sel [simp] = send_frame_sel [OF send_raw_frame]

text \<open>The replies of stream management leave the receive buffer and the state alone.\<close>

definition sm_reply_frame :: "xmpp_client_ctx_t \<Rightarrow> xmpp_client_ctx_t \<Rightarrow> bool" where
  "sm_reply_frame c c' \<longleftrightarrow> (client_ok c \<longrightarrow> client_ok c') \<and> cl_rx_pos c' = cl_rx_pos c \<and>
     cl_state c' = cl_state c \<and> cl_rx_buffer c' = cl_rx_buffer c \<and> cl_pcb c' = cl_pcb c"

lemma sm_reply_frame_send: "sm_reply_frame (fst x) (fst (send_raw data x))"
  by (simp add: sm_reply_frame_def send_raw_ok)

lemma sm_send_ack_frame: "sm_reply_frame (fst x) (fst (xmpp_sm_send_ack x))"
  unfolding xmpp_sm_send_ack_def by (rule sm_reply_frame_send)

lemma sm_send_enabled_frame: "sm_reply_frame (fst x) (fst (xmpp_sm_send_enabled x))"
proof -
  let ?c = "(fst x)\<lparr>cl_sm_enabled := True, cl_sm_inbound_h := 0, cl_sm_outbound_count := 0\<rparr>"
  have "client_ok (fst x) \<Longrightarrow> client_ok ?c" by (simp add: client_ok_def)
  then show ?thesis
    using sm_reply_frame_send [of "(?c, _)"]
    by (simp add: xmpp_sm_send_enabled_def sm_reply_frame_def Let_def case_prod_beta)
qed

lemma sm_consume:
  assumes "client_ok c" and "0 < cl_rx_pos c" and "strchr (cl_rx_buffer c) CHR ''>'' = Some gt"
    and "sm_reply_frame c c'"
  shows "client_ok (rx_consume (gt + 1) c') \<and> cl_state (rx_consume (gt + 1) c') = cl_state c \<and>
    cl_rx_pos (rx_consume (gt + 1) c') < cl_rx_pos c \<and>
    rx_text (rx_consume (gt + 1) c') = drop (gt + 1) (rx_text c)"
proof -
  have le: "Suc gt \<le> cl_rx_pos c" by (rule rx_strchr_bound [OF assms(1-3)])
  have ok: "client_ok c'" and eq: "cl_rx_pos c' = cl_rx_pos c" "rx_text c' = rx_text c"
    using assms(1,4) by (auto simp: sm_reply_frame_def rx_text_def)
  show ?thesis
    using rx_consume_ok [OF ok, of "gt + 1"] rx_consume_text [OF ok, of "gt + 1"] le eq assms(4)
    by (auto simp: sm_reply_frame_def rx_consume_def Let_def)
qed

lemma sm_handle_element_effect:
  assumes "client_ok (fst x)" and "0 < cl_rx_pos (fst x)" and "xmpp_sm_handle_element x = (b, y)"
  shows "client_ok (fst y)" and "cl_state (fst y) = cl_state (fst x)"
    and "b \<Longrightarrow> cl_rx_pos (fst y) < cl_rx_pos (fst x)" and "\<not> b \<Longrightarrow> y = x"
proof -
  note frames = sm_send_enabled_frame [of x] sm_send_ack_frame [of x]
  have refl: "sm_reply_frame (fst x) (fst x)" by (simp add: sm_reply_frame_def)
  have "(b \<longrightarrow> (\<exists>gt c'. strchr (cl_rx_buffer (fst x)) CHR ''>'' = Some gt \<and>
      sm_reply_frame (fst x) c' \<and> fst y = rx_consume (gt + 1) c')) \<and> (\<not> b \<longrightarrow> y = x)"
    using assms(3) frames refl
    by (auto simp: xmpp_sm_handle_element_def sm_handle_enable_def sm_handle_request_def
        sm_handle_answer_def Let_def case_prod_beta split: if_splits option.splits)
  then show "client_ok (fst y)" and "cl_state (fst y) = cl_state (fst x)"
    and "b \<Longrightarrow> cl_rx_pos (fst y) < cl_rx_pos (fst x)" and "\<not> b \<Longrightarrow> y = x"
    using sm_consume [OF assms(1,2)] assms(1) by (cases b; auto)+
qed

subsection \<open>Sending in the world\<close>

definition send_to :: "nat \<Rightarrow> cbuf \<Rightarrow> world \<Rightarrow> world" where
  "send_to i data w = on_client i (send_raw data) w"

lemma on_client_sel [simp]:
  "rooms (on_client i f w) = rooms w"
  "roster_store (on_client i f w) = roster_store w"
  "roster_version (on_client i f w) = roster_version w"
  "private_store (on_client i f w) = private_store w"
  "offline_store (on_client i f w) = offline_store w"
  "pending_subs (on_client i f w) = pending_subs w"
  "stanza_pool (on_client i f w) = stanza_pool w"
  "client_idx (on_client i f w) = client_idx w"
  "disk_dev (on_client i f w) = disk_dev w"
  "length (client_registry (on_client i f w)) = length (client_registry w)"
  by (simp_all add: on_client_def case_prod_beta Let_def)

lemma send_to_sel [simp]:
  "rooms (send_to i d w) = rooms w"
  "roster_store (send_to i d w) = roster_store w"
  "roster_version (send_to i d w) = roster_version w"
  "private_store (send_to i d w) = private_store w"
  "offline_store (send_to i d w) = offline_store w"
  "pending_subs (send_to i d w) = pending_subs w"
  "stanza_pool (send_to i d w) = stanza_pool w"
  "client_idx (send_to i d w) = client_idx w"
  "disk_dev (send_to i d w) = disk_dev w"
  "length (client_registry (send_to i d w)) = length (client_registry w)"
  by (simp_all add: send_to_def)

lemma send_to_client:
  "send_frame (client w j) (client (send_to i d w) j)"
  using send_raw_frame [of "(client w i, env w)" d]
  by (cases "j = i"; cases "i < length (client_registry w)")
     (simp_all add: send_to_def on_client_def case_prod_beta Let_def list_update_beyond)

lemmas send_to_client_sel [simp] = send_frame_sel [OF send_to_client]

lemma send_to_outbox [simp]:
  "outbox (env (send_to i d w)) = outbox (env w) @ [(cl_pcb (client w i), cstr d)]"
  by (simp add: send_to_def on_client_def case_prod_beta Let_def)

lemma send_to_rng [simp]: "env_rng (env (send_to i d w)) = env_rng (env w)"
  by (simp add: send_to_def on_client_def case_prod_beta Let_def)

lemma world_ok_send_to: "world_ok w \<Longrightarrow> world_ok (send_to i d w)"
  unfolding send_to_def by (rule world_ok_on_client) (simp_all add: send_raw_ok)

end
