(* ===== verification/Persist.thy ===== *)
theory Persist
  imports Xmpp_Types
begin

text \<open>
  The persistent stores of \<^verbatim>\<open>src/src/xmpp/xmpp_persist.c\<close>: the byte images of the structures, the
  CRC-32 over all stores, the five save functions, loading with its checks, and the clean start
  that replaces a disk which does not check.  The device is the sector store of \<open>Disk\<close>.
\<close>

subsection \<open>Byte images\<close>

text \<open>32-bit integers are stored in little-endian order.\<close>

definition le32 :: "int \<Rightarrow> cbuf" where
  "le32 n =
     (let u = nat (n mod 2 ^ 32)
      in [char_of u, char_of (u div 256), char_of (u div 65536), char_of (u div 16777216)])"

definition ule32 :: "cbuf \<Rightarrow> nat" where
  "ule32 b = of_char (b ! 0) + 256 * of_char (b ! 1) + 65536 * of_char (b ! 2) + 16777216 * of_char (b ! 3)"

definition sle32 :: "cbuf \<Rightarrow> int" where
  "sle32 b = (let u = ule32 b in if u \<ge> 2147483648 then int u - 4294967296 else int u)"

text \<open>The field of \<open>n\<close> bytes at an offset, and an array of \<open>k\<close> structures of \<open>n\<close> bytes.\<close>

definition field :: "nat \<Rightarrow> nat \<Rightarrow> cbuf \<Rightarrow> cbuf" where
  "field off n b = take n (drop off b)"

definition chunks :: "nat \<Rightarrow> nat \<Rightarrow> cbuf \<Rightarrow> cbuf list" where
  "chunks n k b = map (\<lambda>i. field (n * i) n b) [0..<k]"

definition enc_private :: "private_store_entry_t \<Rightarrow> cbuf" where
  "enc_private p = pe_username p @ pe_ns p @ pe_xml p @ le32 (pe_active p)"

definition dec_private :: "cbuf \<Rightarrow> private_store_entry_t" where
  "dec_private b = \<lparr>pe_username = field 0 32 b, pe_ns = field 32 128 b, pe_xml = field 160 900 b,
     pe_active = sle32 (field 1060 4 b)\<rparr>"

definition enc_roster :: "roster_entry_t \<Rightarrow> cbuf" where
  "enc_roster r = re_username r @ re_jid r @ re_item_xml r @ le32 (re_active r)"

definition dec_roster :: "cbuf \<Rightarrow> roster_entry_t" where
  "dec_roster b = \<lparr>re_username = field 0 32 b, re_jid = field 32 64 b, re_item_xml = field 96 256 b,
     re_active = sle32 (field 352 4 b)\<rparr>"

definition enc_offline :: "offline_msg_t \<Rightarrow> cbuf" where
  "enc_offline m = om_from m @ om_to_bare m @ om_to_user m @ om_id m @ om_payload m @ le32 (om_active m)"

definition dec_offline :: "cbuf \<Rightarrow> offline_msg_t" where
  "dec_offline b = \<lparr>om_from = field 0 64 b, om_to_bare = field 64 64 b, om_to_user = field 128 32 b,
     om_id = field 160 64 b, om_payload = field 224 1024 b, om_active = sle32 (field 1248 4 b)\<rparr>"

definition enc_pending :: "pending_sub_t \<Rightarrow> cbuf" where
  "enc_pending p = ps_type p @ ps_from p @ ps_to_user p @ le32 (ps_active p)"

definition dec_pending :: "cbuf \<Rightarrow> pending_sub_t" where
  "dec_pending b = \<lparr>ps_type = field 0 16 b, ps_from = field 16 64 b, ps_to_user = field 80 32 b,
     ps_active = sle32 (field 112 4 b)\<rparr>"

text \<open>A room is copied field by field into a zeroed \<open>persist_room_entry_t\<close>, without its
  participants and with the banned addresses that are in use.\<close>

definition enc_banned :: "room_t \<Rightarrow> cbuf list" where
  "enc_banned r = map (\<lambda>bi. if int bi < rm_banned_count r then strncpy (zbuf 64) (rm_banned_jids r ! bi) 63
                           else zbuf 64) [0..<MAX_BANNED_PER_ROOM]"

definition enc_room :: "room_t \<Rightarrow> cbuf" where
  "enc_room r =
     strncpy (zbuf 32) (rm_name r) 31 @ strncpy (zbuf 64) (rm_creator_jid r) 63 @
     le32 (rm_semi_anon r) @ le32 (rm_locked r) @ le32 (rm_active r) @ le32 (rm_persistent r) @
     le32 (rm_moderated r) @ le32 (rm_members_only r) @ le32 (rm_banned_count r) @
     concat (enc_banned r) @ strncpy (zbuf 256) (rm_subject r) 255"

definition dec_room :: "cbuf \<Rightarrow> room_t" where
  "dec_room b =
     (let bc = sle32 (field 120 4 b);
          count = (if bc > int MAX_BANNED_PER_ROOM then int MAX_BANNED_PER_ROOM else bc)
      in zero_room\<lparr>
        rm_name := strncpy (zbuf 32) (field 0 32 b) 31,
        rm_creator_jid := strncpy (zbuf 64) (field 32 64 b) 63,
        rm_subject := strncpy (zbuf 256) (field 636 256 b) 255,
        rm_semi_anon := sle32 (field 96 4 b), rm_locked := sle32 (field 100 4 b),
        rm_active := sle32 (field 104 4 b), rm_persistent := sle32 (field 108 4 b),
        rm_moderated := sle32 (field 112 4 b), rm_members_only := sle32 (field 116 4 b),
        rm_banned_count := count,
        rm_banned_jids := map (\<lambda>bi. if int bi < count then strncpy (zbuf 64) (field (124 + 64 * bi) 64 b) 63
                                   else zbuf 64) [0..<MAX_BANNED_PER_ROOM]\<rparr>)"

definition private_image :: "world \<Rightarrow> cbuf" where
  "private_image w = concat (map enc_private (private_store w))"

definition roster_image :: "world \<Rightarrow> cbuf" where
  "roster_image w = concat (map enc_roster (roster_store w))"

definition rooms_image :: "world \<Rightarrow> cbuf" where
  "rooms_image w = concat (map enc_room (rooms w))"

definition offline_image :: "world \<Rightarrow> cbuf" where
  "offline_image w = concat (map enc_offline (offline_store w))"

definition pending_image :: "world \<Rightarrow> cbuf" where
  "pending_image w = concat (map enc_pending (pending_subs w))"

lemmas image_defs = private_image_def roster_image_def rooms_image_def offline_image_def pending_image_def

subsection \<open>Checksum\<close>

definition crc_step :: "u32 \<Rightarrow> u32" where
  "crc_step crc = (let mask = - (crc AND 1) in drop_bit 1 crc XOR (0xEDB88320 AND mask))"

definition crc_byte :: "char \<Rightarrow> u32 \<Rightarrow> u32" where
  "crc_byte c crc = (crc_step ^^ 8) (crc XOR of_char c)"

definition crc_bytes :: "cbuf \<Rightarrow> u32 \<Rightarrow> u32" where
  "crc_bytes bs crc = fold crc_byte bs crc"

definition compute_full_crc :: "world \<Rightarrow> u32" where
  "compute_full_crc w =
     (let crc0 = 0xFFFFFFFF;
          crc1 = crc_bytes (private_image w) crc0;
          crc2 = crc_bytes (roster_image w) crc1;
          crc3 = crc_bytes (rooms_image w) crc2;
          crc4 = crc_bytes (offline_image w) crc3;
          crc5 = crc_bytes (pending_image w) crc4
      in NOT crc5)"

subsection \<open>Layout\<close>

abbreviation (input) PERSIST_MAGIC :: nat where "PERSIST_MAGIC \<equiv> 0xA6E71C3D"
abbreviation (input) PERSIST_VERSION :: nat where "PERSIST_VERSION \<equiv> 5"
abbreviation (input) LBA_HEADER :: nat where "LBA_HEADER \<equiv> 0"
abbreviation (input) LBA_PRIVATE_START :: nat where "LBA_PRIVATE_START \<equiv> 1"
abbreviation (input) LBA_PRIVATE_SECTORS :: nat where "LBA_PRIVATE_SECTORS \<equiv> 42"
abbreviation (input) LBA_ROSTER_START :: nat where "LBA_ROSTER_START \<equiv> 43"
abbreviation (input) LBA_ROSTER_SECTORS :: nat where "LBA_ROSTER_SECTORS \<equiv> 56"
abbreviation (input) LBA_ROOMS_START :: nat where "LBA_ROOMS_START \<equiv> 99"
abbreviation (input) LBA_ROOMS_SECTORS :: nat where "LBA_ROOMS_SECTORS \<equiv> 8"
abbreviation (input) LBA_OFFLINE_START :: nat where "LBA_OFFLINE_START \<equiv> 107"
abbreviation (input) LBA_OFFLINE_SECTORS :: nat where "LBA_OFFLINE_SECTORS \<equiv> 79"
abbreviation (input) LBA_PENDING_SUBS_START :: nat where "LBA_PENDING_SUBS_START \<equiv> 186"
abbreviation (input) LBA_PENDING_SUBS_SECTORS :: nat where "LBA_PENDING_SUBS_SECTORS \<equiv> 8"

definition header_image :: "u32 \<Rightarrow> cbuf" where
  "header_image crc = le32 (int PERSIST_MAGIC) @ le32 (int PERSIST_VERSION) @ le32 (uint crc) @ le32 0 @ zbuf 496"

text \<open>A zeroed buffer of whole sectors with the image copied to its start.\<close>

definition region_buf :: "nat \<Rightarrow> cbuf \<Rightarrow> cbuf" where
  "region_buf sectors img = memcpy (zbuf (SECTOR * sectors)) img (length img)"

subsection \<open>Saving\<close>

definition write_header :: "world \<Rightarrow> world" where
  "write_header w =
     w\<lparr>disk_dev := snd (disk_write_sectors LBA_HEADER 1 (header_image (compute_full_crc w)) (disk_dev w))\<rparr>"

definition save_region :: "nat \<Rightarrow> nat \<Rightarrow> cbuf \<Rightarrow> world \<Rightarrow> world" where
  "save_region start sectors img w =
     (let (ok, d) = disk_write_sectors start sectors (region_buf sectors img) (disk_dev w)
      in if \<not> ok then w\<lparr>disk_dev := d\<rparr> else write_header (w\<lparr>disk_dev := d\<rparr>))"

definition xmpp_persist_save_private :: "world \<Rightarrow> world" where
  "xmpp_persist_save_private w = save_region LBA_PRIVATE_START LBA_PRIVATE_SECTORS (private_image w) w"

definition xmpp_persist_save_roster :: "world \<Rightarrow> world" where
  "xmpp_persist_save_roster w = save_region LBA_ROSTER_START LBA_ROSTER_SECTORS (roster_image w) w"

definition xmpp_persist_save_rooms :: "world \<Rightarrow> world" where
  "xmpp_persist_save_rooms w = save_region LBA_ROOMS_START LBA_ROOMS_SECTORS (rooms_image w) w"

definition xmpp_persist_save_offline :: "world \<Rightarrow> world" where
  "xmpp_persist_save_offline w = save_region LBA_OFFLINE_START LBA_OFFLINE_SECTORS (offline_image w) w"

definition xmpp_persist_save_pending_subs :: "world \<Rightarrow> world" where
  "xmpp_persist_save_pending_subs w =
     save_region LBA_PENDING_SUBS_START LBA_PENDING_SUBS_SECTORS (pending_image w) w"

lemmas save_defs = xmpp_persist_save_private_def xmpp_persist_save_roster_def
  xmpp_persist_save_rooms_def xmpp_persist_save_offline_def xmpp_persist_save_pending_subs_def

subsection \<open>Loading\<close>

definition clear_stores :: "world \<Rightarrow> world" where
  "clear_stores w =
     w\<lparr>private_store := replicate PRIVATE_STORAGE_SLOTS zero_private,
       roster_store := replicate MAX_ROSTER_ENTRIES zero_roster,
       rooms := replicate MAX_ROOMS zero_room,
       offline_store := replicate MAX_OFFLINE_MSGS zero_offline,
       pending_subs := replicate MAX_PENDING_SUBS zero_pending\<rparr>"

definition write_zeros :: "nat \<Rightarrow> nat \<Rightarrow> world \<Rightarrow> world" where
  "write_zeros start sectors w =
     w\<lparr>disk_dev := snd (disk_write_sectors start sectors (zbuf (SECTOR * sectors)) (disk_dev w))\<rparr>"

definition fresh_start :: "world \<Rightarrow> world" where
  "fresh_start w =
     (let w0 = clear_stores w;
          w1 = write_zeros LBA_PRIVATE_START LBA_PRIVATE_SECTORS w0;
          w2 = write_zeros LBA_ROSTER_START LBA_ROSTER_SECTORS w1;
          w3 = write_zeros LBA_ROOMS_START LBA_ROOMS_SECTORS w2;
          w4 = write_zeros LBA_OFFLINE_START LBA_OFFLINE_SECTORS w3;
          w5 = write_zeros LBA_PENDING_SUBS_START LBA_PENDING_SUBS_SECTORS w4
      in write_header w5)"

definition read_region :: "nat \<Rightarrow> nat \<Rightarrow> world \<Rightarrow> cbuf option \<times> world" where
  "read_region start sectors w =
     (let (r, d) = disk_read_sectors start sectors (disk_dev w) in (r, w\<lparr>disk_dev := d\<rparr>))"

definition load_stores :: "cbuf \<Rightarrow> cbuf \<Rightarrow> cbuf \<Rightarrow> cbuf \<Rightarrow> cbuf \<Rightarrow> world \<Rightarrow> world" where
  "load_stores private_buf roster_buf rooms_buf offline_buf pending_subs_buf w =
     w\<lparr>private_store := map dec_private (chunks 1064 PRIVATE_STORAGE_SLOTS private_buf),
       roster_store := map dec_roster (chunks 356 MAX_ROSTER_ENTRIES roster_buf),
       rooms := map dec_room (chunks 892 MAX_ROOMS rooms_buf),
       offline_store := map dec_offline (chunks 1252 MAX_OFFLINE_MSGS offline_buf),
       pending_subs := map dec_pending (chunks 116 MAX_PENDING_SUBS pending_subs_buf)\<rparr>"

definition try_load :: "world \<Rightarrow> bool \<times> world" where
  "try_load w =
     (case read_region LBA_HEADER 1 w of
        (None, w1) \<Rightarrow> (False, w1)
      | (Some hdr, w1) \<Rightarrow>
          if ule32 (field 0 4 hdr) \<noteq> PERSIST_MAGIC then (False, w1)
          else if ule32 (field 4 4 hdr) \<noteq> PERSIST_VERSION then (False, w1)
          else (case read_region LBA_PRIVATE_START LBA_PRIVATE_SECTORS w1 of
            (None, w2) \<Rightarrow> (False, w2)
          | (Some pb, w2) \<Rightarrow> (case read_region LBA_ROSTER_START LBA_ROSTER_SECTORS w2 of
              (None, w3) \<Rightarrow> (False, w3)
            | (Some rb, w3) \<Rightarrow> (case read_region LBA_ROOMS_START LBA_ROOMS_SECTORS w3 of
                (None, w4) \<Rightarrow> (False, w4)
              | (Some mb, w4) \<Rightarrow> (case read_region LBA_OFFLINE_START LBA_OFFLINE_SECTORS w4 of
                  (None, w5) \<Rightarrow> (False, w5)
                | (Some ob, w5) \<Rightarrow> (case read_region LBA_PENDING_SUBS_START LBA_PENDING_SUBS_SECTORS w5 of
                    (None, w6) \<Rightarrow> (False, w6)
                  | (Some sb, w6) \<Rightarrow>
                      let w7 = load_stores pb rb mb ob sb w6
                      in (ule32 (field 8 4 hdr) = unat (compute_full_crc w7), w7)))))))"

definition xmpp_persist_load_all :: "world \<Rightarrow> world" where
  "xmpp_persist_load_all w = (case try_load w of (ok, w') \<Rightarrow> if ok then w' else fresh_start w')"

subsection \<open>The images determine the structures\<close>

lemma length_le32 [simp]: "length (le32 n) = 4"
  by (simp add: le32_def Let_def)

lemma ule32_le32: "ule32 (le32 n) = nat (n mod 2 ^ 32)"
proof -
  define u where "u = nat (n mod 4294967296)"
  define a b c where "a = u div 256" and "b = a div 256" and "c = b div 256"
  have "u < 4294967296" by (simp add: u_def nat_less_iff)
  then have "c < 256" by (simp add: a_def b_def c_def less_mult_imp_div_less)
  moreover have "u div 65536 = b" "u div 16777216 = c"
    by (simp_all add: a_def b_def c_def div_mult2_eq [symmetric])
  moreover have "u mod 256 + 256 * a = u" "a mod 256 + 256 * b = a" "b mod 256 + 256 * c = b"
    by (simp_all add: a_def b_def c_def)
  ultimately have "u mod 256 + 256 * (u div 256 mod 256) + 65536 * (u div 65536 mod 256) +
      16777216 * (u div 16777216 mod 256) = u" by (simp flip: a_def)
  moreover have "ule32 (le32 n) = u mod 256 + 256 * (u div 256 mod 256) +
      65536 * (u div 65536 mod 256) + 16777216 * (u div 16777216 mod 256)"
    by (simp add: ule32_def le32_def Let_def flip: u_def)
  ultimately show ?thesis by (simp add: u_def)
qed

definition int32 :: "int \<Rightarrow> bool" where
  "int32 n \<longleftrightarrow> - 2147483648 \<le> n \<and> n < 2147483648"

lemma sle32_le32: "int32 n \<Longrightarrow> sle32 (le32 n) = n"
proof -
  assume n: "int32 n"
  have "n mod 2 ^ 32 = (if n < 0 then n + 4294967296 else n)"
  proof (cases "n < 0")
    case True
    have "n mod 4294967296 = (n + 4294967296) mod 4294967296" by simp
    also have "\<dots> = n + 4294967296"
      by (rule mod_pos_pos_trivial) (use n True in \<open>simp_all add: int32_def\<close>)
    finally show ?thesis using True by simp
  next
    case False
    then show ?thesis using n by (simp add: int32_def)
  qed
  with n show ?thesis by (auto simp: sle32_def ule32_le32 Let_def int32_def)
qed

lemma field_append1 [simp]: "off + n \<le> length a \<Longrightarrow> field off n (a @ b) = field off n a"
  by (simp add: field_def)

lemma field_append2 [simp]: "length a \<le> off \<Longrightarrow> field off n (a @ b) = field (off - length a) n b"
  by (simp add: field_def)

lemma field_all [simp]: "length a = n \<Longrightarrow> field 0 n a = a"
  by (simp add: field_def)

lemma length_field [simp]: "off + n \<le> length b \<Longrightarrow> length (field off n b) = n"
  by (simp add: field_def)

lemma chunks_concat:
  assumes "\<And>x. x \<in> set xs \<Longrightarrow> length (f x) = n" and "length xs = k"
  shows "chunks n k (concat (map f xs) @ pad) = map f xs"
  using assms
proof (induction xs arbitrary: k)
  case (Cons x xs)
  then obtain j where k: "k = Suc j" "length xs = j" by auto
  have "chunks n k (concat (map f (x # xs)) @ pad) =
      field 0 n (f x @ concat (map f xs) @ pad) # map (\<lambda>i. field (n * Suc i) n (f x @ concat (map f xs) @ pad)) [0..<j]"
    unfolding chunks_def k(1) by (simp add: upt_conv_Cons map_Suc_upt [symmetric] comp_def del: upt_Suc map_Suc_upt)
  also have "\<dots> = f x # chunks n j (concat (map f xs) @ pad)"
    using Cons.prems by (simp add: chunks_def)
  finally show ?case using Cons k by simp
qed (simp add: chunks_def)

definition stored_ints :: "world \<Rightarrow> bool" where
  "stored_ints w \<longleftrightarrow>
     list_all (int32 \<circ> pe_active) (private_store w) \<and> list_all (int32 \<circ> re_active) (roster_store w) \<and>
     list_all (int32 \<circ> om_active) (offline_store w) \<and> list_all (int32 \<circ> ps_active) (pending_subs w) \<and>
     list_all (\<lambda>r. int32 (rm_semi_anon r) \<and> int32 (rm_locked r) \<and> int32 (rm_active r) \<and>
       int32 (rm_persistent r) \<and> int32 (rm_moderated r) \<and> int32 (rm_members_only r)) (rooms w)"

lemma length_enc:
  "private_ok p \<Longrightarrow> length (enc_private p) = 1064" "roster_ok r \<Longrightarrow> length (enc_roster r) = 356"
  "offline_ok m \<Longrightarrow> length (enc_offline m) = 1252" "pending_ok s \<Longrightarrow> length (enc_pending s) = 116"
  by (simp_all add: enc_private_def enc_roster_def enc_offline_def enc_pending_def
      private_ok_def roster_ok_def offline_ok_def pending_ok_def buf_def)

lemma dec_enc:
  "private_ok p \<Longrightarrow> int32 (pe_active p) \<Longrightarrow> dec_private (enc_private p) = p"
  "roster_ok r \<Longrightarrow> int32 (re_active r) \<Longrightarrow> dec_roster (enc_roster r) = r"
  "offline_ok m \<Longrightarrow> int32 (om_active m) \<Longrightarrow> dec_offline (enc_offline m) = m"
  "pending_ok s \<Longrightarrow> int32 (ps_active s) \<Longrightarrow> dec_pending (enc_pending s) = s"
  by (simp_all add: enc_private_def enc_roster_def enc_offline_def enc_pending_def
      dec_private_def dec_roster_def dec_offline_def dec_pending_def
      private_ok_def roster_ok_def offline_ok_def pending_ok_def buf_def sle32_le32)

lemma length_concat_uniform:
  "(\<And>x. x \<in> set xs \<Longrightarrow> length x = n) \<Longrightarrow> length (concat xs) = n * length xs"
  by (induction xs) auto

lemma length_enc_banned: "length (concat (enc_banned r)) = 512"
proof -
  have "length x = 64" if "x \<in> set (enc_banned r)" for x
    using that by (auto simp: enc_banned_def buf_simps)
  then have "length (concat (enc_banned r)) = 64 * length (enc_banned r)"
    by (rule length_concat_uniform)
  then show ?thesis by (simp add: enc_banned_def)
qed

lemma length_enc_room: "length (enc_room r) = 892"
  by (simp add: enc_room_def length_enc_banned buf_simps)

text \<open>What survives of a room: the participants are dropped, strings are cut to their fields
  and padded with zeros, banned addresses beyond the count are zeroed.\<close>

definition saved_room :: "room_t \<Rightarrow> room_t" where
  "saved_room r = r\<lparr>rm_users := replicate MAX_USERS_PER_ROOM zero_participant,
     rm_name := strncpy (zbuf 32) (rm_name r) 31, rm_creator_jid := strncpy (zbuf 64) (rm_creator_jid r) 63,
     rm_subject := strncpy (zbuf 256) (rm_subject r) 255, rm_banned_jids := enc_banned r\<rparr>"

lemma strncpy_zbuf_idem: "strncpy (zbuf m) (strncpy (zbuf m) s n) n = strncpy (zbuf m) s n"
  unfolding strncpy_eq [of "zbuf m" "strncpy (zbuf m) s n"] cstr_strncpy_zbuf
  by (simp add: strncpy_eq min_def)

lemma field_concat:
  assumes "\<And>x. x \<in> set xs \<Longrightarrow> length x = n" and "i < length xs"
  shows "field (n * i) n (concat xs @ pad) = xs ! i"
proof -
  have "chunks n (length xs) (concat (map id xs) @ pad) = map id xs"
    by (rule chunks_concat) (use assms in auto)
  then have "map (\<lambda>i. field (n * i) n (concat xs @ pad)) [0..<length xs] ! i = xs ! i"
    by (simp add: chunks_def)
  then show ?thesis using assms(2) by simp
qed

lemma enc_room_banned:
  assumes "bi < 8"
  shows "field (124 + 64 * bi) 64 (enc_room r) = enc_banned r ! bi"
proof -
  have "field (64 * bi) 64 (concat (enc_banned r) @ strncpy (zbuf 256) (rm_subject r) 255) = enc_banned r ! bi"
    by (rule field_concat) (use assms in \<open>auto simp: enc_banned_def buf_simps\<close>)
  then show ?thesis by (simp add: enc_room_def buf_simps)
qed

lemma dec_enc_room:
  assumes "room_ok r" and "int32 (rm_semi_anon r)" "int32 (rm_locked r)" "int32 (rm_active r)"
    "int32 (rm_persistent r)" "int32 (rm_moderated r)" "int32 (rm_members_only r)"
  shows "dec_room (enc_room r) = saved_room r"
proof -
  have bc: "0 \<le> rm_banned_count r" "rm_banned_count r \<le> 8" using assms(1) by (auto simp: room_ok_def)
  then have int: "int32 (rm_banned_count r)" by (simp add: int32_def)
  have banned: "map (\<lambda>bi. if int bi < rm_banned_count r
      then strncpy (zbuf 64) (field (124 + 64 * bi) 64 (enc_room r)) 63 else zbuf 64) [0..<8] = enc_banned r"
    unfolding enc_banned_def
    by (rule map_cong) (auto simp: enc_room_banned enc_banned_def strncpy_zbuf_idem)
  have fields: "field 0 32 (enc_room r) = strncpy (zbuf 32) (rm_name r) 31"
    "field 32 64 (enc_room r) = strncpy (zbuf 64) (rm_creator_jid r) 63"
    "field 636 256 (enc_room r) = strncpy (zbuf 256) (rm_subject r) 255"
    "field 96 4 (enc_room r) = le32 (rm_semi_anon r)" "field 100 4 (enc_room r) = le32 (rm_locked r)"
    "field 104 4 (enc_room r) = le32 (rm_active r)" "field 108 4 (enc_room r) = le32 (rm_persistent r)"
    "field 112 4 (enc_room r) = le32 (rm_moderated r)" "field 116 4 (enc_room r) = le32 (rm_members_only r)"
    "field 120 4 (enc_room r) = le32 (rm_banned_count r)"
    by (simp_all add: enc_room_def buf_simps length_enc_banned)
  show ?thesis
    using assms(2-) bc
    by (simp add: dec_room_def saved_room_def Let_def fields sle32_le32 int banned strncpy_zbuf_idem zero_room_def)
qed

lemma enc_saved_room: "room_ok r \<Longrightarrow> enc_room (saved_room r) = enc_room r"
proof -
  have "enc_banned (saved_room r) = enc_banned r"
    unfolding enc_banned_def [of "saved_room r"]
    by (subst enc_banned_def, rule map_cong) (auto simp: saved_room_def enc_banned_def strncpy_zbuf_idem)
  then show ?thesis by (simp add: enc_room_def) (simp add: saved_room_def strncpy_zbuf_idem)
qed

subsection \<open>The checksum detects a damaged byte\<close>

lemma crc_step_cases:
  "crc_step c = (if bit c 0 then drop_bit 1 c XOR 0xEDB88320 else drop_bit 1 c)"
  by (simp add: crc_step_def Let_def and_one_eq mod2_eq_if bit_0)

lemma crc_step_top: "bit (crc_step c) 31 = bit c 0"
proof -
  have "\<not> bit (drop_bit 1 c) 31" using bit_imp_le_length [of c 32] by (auto simp: bit_drop_bit_eq)
  moreover have "bit (0xEDB88320 :: u32) 31" by (simp add: bit_numeral_rec)
  ultimately show ?thesis by (simp add: crc_step_cases bit_xor_iff)
qed

lemma inj_crc_step: "inj crc_step"
proof (rule injI)
  fix x y :: u32
  assume eq: "crc_step x = crc_step y"
  then have low: "bit x 0 = bit y 0" using crc_step_top by metis
  have "drop_bit 1 x = drop_bit 1 y"
  proof (cases "bit x 0")
    case True
    with eq low have "(drop_bit 1 x XOR 0xEDB88320) XOR 0xEDB88320 = (drop_bit 1 y XOR 0xEDB88320) XOR 0xEDB88320"
      by (simp add: crc_step_cases)
    then show ?thesis by (simp add: xor.assoc)
  next
    case False
    with eq low show ?thesis by (simp add: crc_step_cases)
  qed
  then have "bit x (Suc n) = bit y (Suc n)" for n
    by (metis bit_drop_bit_eq comp_apply plus_1_eq_Suc)
  with low show "x = y" by (intro bit_eqI) (metis not0_implies_Suc)
qed

lemma xor_cancel: "a XOR b = a XOR c \<longleftrightarrow> b = (c :: u32)"
  by (metis xor.left_commute xor.right_neutral xor_self_eq)

lemma inj_crc_step8: "(crc_step ^^ 8) x = (crc_step ^^ 8) y \<longleftrightarrow> x = y"
  using inj_fn [OF inj_crc_step, of 8] by (rule inj_eq)

lemma inj_crc_byte: "inj (crc_byte c)"
  by (rule injI) (simp add: crc_byte_def inj_crc_step8 xor.commute [of _ "of_char c"] xor_cancel)

lemma of_char_word_inj: "(of_char c :: u32) = of_char d \<longleftrightarrow> c = d"
proof
  assume "(of_char c :: u32) = of_char d"
  then have "unat (of_char c :: u32) = unat (of_char d :: u32)" by simp
  moreover have "unat (of_char x :: u32) = of_char x" for x
    by (cases x) (simp add: of_char_def)
  ultimately show "c = d" by simp
qed simp

lemma crc_byte_differs: "c \<noteq> d \<Longrightarrow> crc_byte c crc \<noteq> crc_byte d crc"
  by (simp add: crc_byte_def inj_crc_step8 xor_cancel of_char_word_inj)

lemma inj_crc_bytes: "inj (crc_bytes bs)"
  unfolding crc_bytes_def
proof (induction bs)
  case Nil
  then show ?case by (simp add: inj_on_def)
next
  case (Cons b bs)
  from inj_compose [OF this inj_crc_byte [of b]] show ?case by (simp add: comp_def)
qed

lemma crc_bytes_append: "crc_bytes (a @ b) crc = crc_bytes b (crc_bytes a crc)"
  by (simp add: crc_bytes_def)

lemma crc_one_byte: "c \<noteq> d \<Longrightarrow> crc_bytes (p @ c # s) crc \<noteq> crc_bytes (p @ d # s) crc"
  using crc_byte_differs [of c d "crc_bytes p crc"]
  by (simp add: crc_bytes_def inj_eq [OF inj_crc_bytes, unfolded crc_bytes_def])

text \<open>The check value of the standard CRC-32.\<close>

lemma crc_check_value: "NOT (crc_bytes ''123456789'' 0xFFFFFFFF) = 0xCBF43926"
proof -
  have eight: "(f ^^ 8) x = f (f (f (f (f (f (f (f x)))))))" for f :: "u32 \<Rightarrow> u32" and x
    by (simp add: eval_nat_numeral)
  show ?thesis by (simp add: crc_bytes_def crc_byte_def eight crc_step_def Let_def)
qed

subsection \<open>Memory and disk in step\<close>

text \<open>The regions of the disk with the images that belong there.\<close>

definition regions :: "world \<Rightarrow> (nat \<times> nat \<times> cbuf) list" where
  "regions w =
     [(LBA_PRIVATE_START, LBA_PRIVATE_SECTORS, private_image w),
      (LBA_ROSTER_START, LBA_ROSTER_SECTORS, roster_image w),
      (LBA_ROOMS_START, LBA_ROOMS_SECTORS, rooms_image w),
      (LBA_OFFLINE_START, LBA_OFFLINE_SECTORS, offline_image w),
      (LBA_PENDING_SUBS_START, LBA_PENDING_SUBS_SECTORS, pending_image w)]"

definition region_synced :: "(nat \<Rightarrow> cbuf) \<Rightarrow> nat \<times> nat \<times> cbuf \<Rightarrow> bool" where
  "region_synced m r = (case r of (start, sectors, img) \<Rightarrow> read_range m start sectors = region_buf sectors img)"

definition synced :: "world \<Rightarrow> bool" where
  "synced w \<longleftrightarrow> list_all (region_synced (medium (disk_dev w))) (regions w) \<and>
     read_range (medium (disk_dev w)) LBA_HEADER 1 = header_image (compute_full_crc w)"

lemma length_images:
  assumes "world_ok w"
  shows "length (private_image w) = 21280" "length (roster_image w) = 28480"
    "length (rooms_image w) = 3568" "length (offline_image w) = 40064" "length (pending_image w) = 3712"
proof -
  have uniform: "length (concat (map f xs)) = n * k" if "array_ok k P xs" "\<And>x. P x \<Longrightarrow> length (f x) = n"
    for f :: "'a \<Rightarrow> cbuf" and xs n k P
    using that length_concat_uniform [of "map f xs" n] by (auto simp: array_ok_def list_all_iff)
  show "length (private_image w) = 21280"
    using uniform [of 20 private_ok "private_store w" enc_private 1064] assms
    by (simp add: world_ok_def private_image_def length_enc)
  show "length (roster_image w) = 28480"
    using uniform [of 80 roster_ok "roster_store w" enc_roster 356] assms
    by (simp add: world_ok_def roster_image_def length_enc)
  show "length (rooms_image w) = 3568"
    using uniform [of 4 room_ok "rooms w" enc_room 892] assms
    by (simp add: world_ok_def rooms_image_def length_enc_room)
  show "length (offline_image w) = 40064"
    using uniform [of 32 offline_ok "offline_store w" enc_offline 1252] assms
    by (simp add: world_ok_def offline_image_def length_enc)
  show "length (pending_image w) = 3712"
    using uniform [of 32 pending_ok "pending_subs w" enc_pending 116] assms
    by (simp add: world_ok_def pending_image_def length_enc)
qed

lemma region_buf_eq:
  "length img \<le> SECTOR * n \<Longrightarrow> region_buf n img = img @ replicate (SECTOR * n - length img) NUL"
  by (simp add: region_buf_def memcpy_eq zbuf_def)

lemma length_region_buf: "length img \<le> SECTOR * n \<Longrightarrow> length (region_buf n img) = SECTOR * n"
  by (simp add: region_buf_eq)

lemma regions_fit: "world_ok w \<Longrightarrow> list_all (\<lambda>(start, n, img). length img \<le> SECTOR * n) (regions w)"
  by (simp add: regions_def length_images)

lemma regions_disjoint:
  assumes "(s, n, i) \<in> set (regions w)" and "(s', n', i') \<in> set (regions w)" and "s \<noteq> s'"
  shows "s + n \<le> s' \<or> s' + n' \<le> s"
  using assms by (auto simp: regions_def)

lemma regions_above_header: "(s, n, i) \<in> set (regions w) \<Longrightarrow> 1 \<le> s"
  by (auto simp: regions_def)

text \<open>The images and the checksum do not depend on the device.\<close>

lemma images_disk [simp]:
  "regions (w\<lparr>disk_dev := d\<rparr>) = regions w" "compute_full_crc (w\<lparr>disk_dev := d\<rparr>) = compute_full_crc w"
  by (simp_all add: regions_def image_defs compute_full_crc_def)

definition device_ready :: "disk \<Rightarrow> nat \<Rightarrow> bool" where
  "device_ready d n \<longleftrightarrow> g_backend d \<noteq> DISK_NONE \<and> (\<forall>k < n. io_script d (io_calls d + k) = IoOk)"

lemma device_ready_Suc:
  assumes "device_ready d (Suc n)"
  shows "io_script d (io_calls d) = IoOk" "g_backend d \<noteq> DISK_NONE"
    "\<And>k. k < n \<Longrightarrow> io_script d (Suc (io_calls d + k)) = IoOk"
  using assms unfolding device_ready_def by (auto dest: spec [of _ 0] spec [of _ "Suc _"])

lemma device_write:
  assumes "device_ready d (Suc n)"
  shows "fst (disk_write_sectors lba cnt b d)" "device_ready (snd (disk_write_sectors lba cnt b d)) n"
  using device_ready_Suc [OF assms]
  by (auto simp: device_ready_def disk_io_defs Let_def split: disk_backend_t.splits)

lemma device_read:
  assumes "device_ready d (Suc n)"
  shows "fst (disk_read_sectors lba cnt d) = Some (read_range (medium d) lba cnt)"
    "device_ready (snd (disk_read_sectors lba cnt d)) n"
    "medium (snd (disk_read_sectors lba cnt d)) = medium d"
  using device_ready_Suc [OF assms]
  by (auto simp: device_ready_def disk_io_defs Let_def split: disk_backend_t.splits)

lemma length_header_image [simp]: "length (header_image crc) = SECTOR"
  by (simp add: header_image_def)

definition synced_except :: "nat \<Rightarrow> world \<Rightarrow> bool" where
  "synced_except start w \<longleftrightarrow> list_all (\<lambda>r. fst r \<noteq> start \<longrightarrow> region_synced (medium (disk_dev w)) r) (regions w)"

lemma region_unique:
  "(s, n, i) \<in> set (regions w) \<Longrightarrow> (s, n', i') \<in> set (regions w) \<Longrightarrow> n' = n \<and> i' = i"
  by (auto simp: regions_def)

lemma save_region_sync:
  assumes "world_ok w" and "(start, n, img) \<in> set (regions w)" and "synced_except start w"
    and "device_ready (disk_dev w) 2"
  shows "synced (save_region start n img w)"
proof -
  define d1 where "d1 = snd (disk_write_sectors start n (region_buf n img) (disk_dev w))"
  define hdr where "hdr = header_image (compute_full_crc w)"
  define d2 where "d2 = snd (disk_write_sectors LBA_HEADER 1 hdr d1)"
  have r1: "device_ready (disk_dev w) (Suc 1)" using assms(4) by (simp add: numeral_2_eq_2)
  note w1 = device_write [OF r1, of start n "region_buf n img", folded d1_def]
  have dw: "disk_write_sectors start n (region_buf n img) (disk_dev w) = (True, d1)"
    using w1(1) by (simp add: d1_def prod_eq_iff)
  have "device_ready d1 (Suc 0)" using w1(2) by simp
  from device_write(1) [OF this, of LBA_HEADER 1 hdr]
  have hw: "disk_write_sectors LBA_HEADER 1 hdr d1 = (True, d2)" by (simp add: d2_def prod_eq_iff)
  have save: "save_region start n img w = w\<lparr>disk_dev := d2\<rparr>"
    by (simp add: save_region_def dw write_header_def flip: hdr_def) (simp add: d2_def)
  have len: "length (region_buf n img) = SECTOR * n"
    using regions_fit [OF assms(1)] assms(2) by (intro length_region_buf) (auto simp: list_all_iff)
  have "region_synced (medium d2) (s, m, i)" if r: "(s, m, i) \<in> set (regions w)" for s m i
  proof -
    have "read_range (medium d2) s m = read_range (medium d1) s m"
      using regions_above_header [OF r] dsk.read_other_after_write [OF hw, of s m] by simp
    also have "\<dots> = region_buf m i"
    proof (cases "s = start")
      case True
      with region_unique [OF assms(2)] r have "m = n" "i = img" by auto
      then show ?thesis using True dsk.wr_content [OF dw] read_write_range [OF len] by simp
    next
      case False
      then show ?thesis
        using regions_disjoint [OF r assms(2)] dsk.read_other_after_write [OF dw, of s m] assms(3) r
        by (auto simp: synced_except_def list_all_iff region_synced_def)
    qed
    finally show ?thesis by (simp add: region_synced_def)
  qed
  moreover have "read_range (medium d2) LBA_HEADER 1 = hdr"
    using dsk.wr_content [OF hw] read_write_range [of hdr 1] by (simp add: hdr_def)
  ultimately show ?thesis by (auto simp: synced_def save hdr_def list_all_iff)
qed

subsection \<open>Loading restores what was saved\<close>

lemma map_dec_enc:
  "array_ok k P xs \<Longrightarrow> list_all Q xs \<Longrightarrow> (\<And>x. P x \<Longrightarrow> Q x \<Longrightarrow> dec (enc x) = f x) \<Longrightarrow>
     (\<And>x. P x \<Longrightarrow> length (enc x) = n) \<Longrightarrow>
     map dec (chunks n k (concat (map enc xs) @ pad)) = map f xs"
  using chunks_concat [of xs enc n k pad] by (auto simp: array_ok_def list_all_iff)

lemma load_stores_synced:
  assumes "world_ok w" and "stored_ints w"
  shows "load_stores (region_buf LBA_PRIVATE_SECTORS (private_image w)) (region_buf LBA_ROSTER_SECTORS (roster_image w))
      (region_buf LBA_ROOMS_SECTORS (rooms_image w)) (region_buf LBA_OFFLINE_SECTORS (offline_image w))
      (region_buf LBA_PENDING_SUBS_SECTORS (pending_image w)) v =
    v\<lparr>private_store := private_store w, roster_store := roster_store w,
      rooms := map saved_room (rooms w), offline_store := offline_store w, pending_subs := pending_subs w\<rparr>"
proof -
  note ok = assms(1) [unfolded world_ok_def] and ints = assms(2) [unfolded stored_ints_def]
  note len = length_images [OF assms(1)]
  have buf_private: "region_buf 42 (private_image w) = private_image w @ replicate 224 NUL"
    and buf_roster: "region_buf 56 (roster_image w) = roster_image w @ replicate 192 NUL"
    and buf_rooms: "region_buf 8 (rooms_image w) = rooms_image w @ replicate 528 NUL"
    and buf_offline: "region_buf 79 (offline_image w) = offline_image w @ replicate 384 NUL"
    and buf_pending: "region_buf 8 (pending_image w) = pending_image w @ replicate 384 NUL"
    by (simp_all add: region_buf_eq len)
  have "map dec_private (chunks 1064 20 (region_buf 42 (private_image w))) = map id (private_store w)"
    unfolding buf_private unfolding private_image_def
    by (rule map_dec_enc [where P = private_ok and Q = "int32 \<circ> pe_active"])
      (use ok ints in \<open>auto simp: dec_enc length_enc\<close>)
  moreover have "map dec_roster (chunks 356 80 (region_buf 56 (roster_image w))) = map id (roster_store w)"
    unfolding buf_roster unfolding roster_image_def
    by (rule map_dec_enc [where P = roster_ok and Q = "int32 \<circ> re_active"])
      (use ok ints in \<open>auto simp: dec_enc length_enc\<close>)
  moreover have "map dec_offline (chunks 1252 32 (region_buf 79 (offline_image w))) = map id (offline_store w)"
    unfolding buf_offline unfolding offline_image_def
    by (rule map_dec_enc [where P = offline_ok and Q = "int32 \<circ> om_active"])
      (use ok ints in \<open>auto simp: dec_enc length_enc\<close>)
  moreover have "map dec_pending (chunks 116 32 (region_buf 8 (pending_image w))) = map id (pending_subs w)"
    unfolding buf_pending unfolding pending_image_def
    by (rule map_dec_enc [where P = pending_ok and Q = "int32 \<circ> ps_active"])
      (use ok ints in \<open>auto simp: dec_enc length_enc\<close>)
  moreover have "map dec_room (chunks 892 4 (region_buf 8 (rooms_image w))) = map saved_room (rooms w)"
    unfolding buf_rooms unfolding rooms_image_def
    by (rule map_dec_enc [where P = room_ok and Q = "\<lambda>r. int32 (rm_semi_anon r) \<and> int32 (rm_locked r) \<and>
          int32 (rm_active r) \<and> int32 (rm_persistent r) \<and> int32 (rm_moderated r) \<and> int32 (rm_members_only r)"])
      (use ok ints in \<open>auto simp: dec_enc_room length_enc_room\<close>)
  ultimately show ?thesis by (simp add: load_stores_def)
qed

lemma read_region_eq:
  assumes "device_ready (disk_dev v) (Suc n)"
  shows "read_region s k v = (Some (read_range (medium (disk_dev v)) s k),
    v\<lparr>disk_dev := snd (disk_read_sectors s k (disk_dev v))\<rparr>)"
  using device_read(1) [OF assms, of s k] by (simp add: read_region_def case_prod_beta Let_def)

text \<open>A boot from a readable disk that carries the magic number and version: the regions are
  decoded, and the result depends on the stored checksum only.\<close>

lemma try_load_regions:
  assumes "world_ok w" and "stored_ints w" and "device_ready (disk_dev v) 6"
    and "list_all (region_synced (medium (disk_dev v))) (regions w)"
    and "read_range (medium (disk_dev v)) LBA_HEADER 1 = header_image crc"
  shows "\<exists>d. try_load v = (crc = compute_full_crc w,
     v\<lparr>disk_dev := d, private_store := private_store w, roster_store := roster_store w,
       rooms := map saved_room (rooms w), offline_store := offline_store w, pending_subs := pending_subs w\<rparr>)"
proof -
  let ?m = "medium (disk_dev v)"
  have crc: "nat (uint crc mod 4294967296) = unat crc"
  proof -
    have "uint crc mod 4294967296 = uint crc" using uint_bounded [of crc] by simp
    then show ?thesis by simp
  qed
  have hdr: "ule32 (field 0 4 (header_image crc)) = PERSIST_MAGIC"
    "ule32 (field 4 4 (header_image crc)) = PERSIST_VERSION"
    "ule32 (field 8 4 (header_image crc)) = unat crc"
    by (simp_all add: header_image_def ule32_le32 crc)
  have regs: "read_range ?m 1 42 = region_buf 42 (private_image w)"
    "read_range ?m 43 56 = region_buf 56 (roster_image w)"
    "read_range ?m 99 8 = region_buf 8 (rooms_image w)"
    "read_range ?m 107 79 = region_buf 79 (offline_image w)"
    "read_range ?m 186 8 = region_buf 8 (pending_image w)"
    using assms(4) by (simp_all add: regions_def region_synced_def)
  define d1 where "d1 = snd (disk_read_sectors 0 1 (disk_dev v))"
  define d2 where "d2 = snd (disk_read_sectors 1 42 d1)"
  define d3 where "d3 = snd (disk_read_sectors 43 56 d2)"
  define d4 where "d4 = snd (disk_read_sectors 99 8 d3)"
  define d5 where "d5 = snd (disk_read_sectors 107 79 d4)"
  define d6 where "d6 = snd (disk_read_sectors 186 8 d5)"
  have r0: "device_ready (disk_dev v) (Suc 5)" using assms(3) by simp
  note r1 = device_read(2,3) [OF r0, of 0 1, folded d1_def]
  have r1': "device_ready d1 (Suc 4)" using r1(1) by simp
  note r2 = device_read(2,3) [OF r1', of 1 42, folded d2_def]
  have r2': "device_ready d2 (Suc 3)" using r2(1) by simp
  note r3 = device_read(2,3) [OF r2', of 43 56, folded d3_def]
  have r3': "device_ready d3 (Suc 2)" using r3(1) by simp
  note r4 = device_read(2,3) [OF r3', of 99 8, folded d4_def]
  have r4': "device_ready d4 (Suc 1)" using r4(1) by (simp add: numeral_2_eq_2)
  note r5 = device_read(2,3) [OF r4', of 107 79, folded d5_def]
  have r5': "device_ready d5 (Suc 0)" using r5(1) by simp
  have reads: "read_region 0 1 v = (Some (header_image crc), v\<lparr>disk_dev := d1\<rparr>)"
    "read_region 1 42 (v\<lparr>disk_dev := d1\<rparr>) = (Some (region_buf 42 (private_image w)), v\<lparr>disk_dev := d2\<rparr>)"
    "read_region 43 56 (v\<lparr>disk_dev := d2\<rparr>) = (Some (region_buf 56 (roster_image w)), v\<lparr>disk_dev := d3\<rparr>)"
    "read_region 99 8 (v\<lparr>disk_dev := d3\<rparr>) = (Some (region_buf 8 (rooms_image w)), v\<lparr>disk_dev := d4\<rparr>)"
    "read_region 107 79 (v\<lparr>disk_dev := d4\<rparr>) = (Some (region_buf 79 (offline_image w)), v\<lparr>disk_dev := d5\<rparr>)"
    "read_region 186 8 (v\<lparr>disk_dev := d5\<rparr>) = (Some (region_buf 8 (pending_image w)), v\<lparr>disk_dev := d6\<rparr>)"
    using read_region_eq [OF r0, of 0 1] read_region_eq [of "v\<lparr>disk_dev := d1\<rparr>" 4 1 42]
      read_region_eq [of "v\<lparr>disk_dev := d2\<rparr>" 3 43 56] read_region_eq [of "v\<lparr>disk_dev := d3\<rparr>" 2 99 8]
      read_region_eq [of "v\<lparr>disk_dev := d4\<rparr>" 1 107 79] read_region_eq [of "v\<lparr>disk_dev := d5\<rparr>" 0 186 8]
      r1' r2' r3' r4' r5' r1(2) r2(2) r3(2) r4(2) r5(2) assms(5) regs
    by (simp_all del: One_nat_def flip: d1_def d2_def d3_def d4_def d5_def d6_def)
  define w7 where "w7 = v\<lparr>disk_dev := d6, private_store := private_store w, roster_store := roster_store w,
    rooms := map saved_room (rooms w), offline_store := offline_store w, pending_subs := pending_subs w\<rparr>"
  have "map enc_room (rooms w7) = map enc_room (rooms w)"
    using assms(1) by (auto simp: w7_def world_ok_def array_ok_def list_all_iff enc_saved_room)
  then have crc7: "compute_full_crc w7 = compute_full_crc w"
    by (simp add: compute_full_crc_def image_defs) (simp add: w7_def)
  have "try_load v = (unat crc = unat (compute_full_crc w7), w7)"
    unfolding try_load_def
    by (simp add: reads hdr Let_def load_stores_synced [OF assms(1,2)] w7_def del: One_nat_def)
  then have "try_load v = (crc = compute_full_crc w, w7)" using crc7 by (simp add: word_unat_eq_iff)
  then show ?thesis unfolding w7_def by blast
qed

lemma disk_only_frames:
  "private_store (write_header w) = private_store w" "roster_store (write_header w) = roster_store w"
  "rooms (write_header w) = rooms w" "offline_store (write_header w) = offline_store w"
  "pending_subs (write_header w) = pending_subs w"
  "private_store (write_zeros s n w) = private_store w" "roster_store (write_zeros s n w) = roster_store w"
  "rooms (write_zeros s n w) = rooms w" "offline_store (write_zeros s n w) = offline_store w"
  "pending_subs (write_zeros s n w) = pending_subs w"
  by (simp_all add: write_header_def write_zeros_def)

text \<open>The stores of a fresh installation.\<close>

definition stores_empty :: "world \<Rightarrow> bool" where
  "stores_empty w \<longleftrightarrow> private_store w = replicate PRIVATE_STORAGE_SLOTS zero_private \<and>
     roster_store w = replicate MAX_ROSTER_ENTRIES zero_roster \<and> rooms w = replicate MAX_ROOMS zero_room \<and>
     offline_store w = replicate MAX_OFFLINE_MSGS zero_offline \<and>
     pending_subs w = replicate MAX_PENDING_SUBS zero_pending"

lemma fresh_start_empty: "stores_empty (fresh_start w)"
  by (simp add: stores_empty_def fresh_start_def Let_def disk_only_frames clear_stores_def)

definition full_image :: "world \<Rightarrow> cbuf" where
  "full_image w = private_image w @ roster_image w @ rooms_image w @ offline_image w @ pending_image w"

lemma compute_full_crc_eq: "compute_full_crc w = NOT (crc_bytes (full_image w) 0xFFFFFFFF)"
  by (simp add: compute_full_crc_def full_image_def crc_bytes_append Let_def)

subsection \<open>A formatted disk, for examples\<close>

definition empty_world :: "disk \<Rightarrow> world" where
  "empty_world d = boot_world d idle_env"

definition formatted_medium :: "nat \<Rightarrow> cbuf" where
  "formatted_medium k = (if k = 0 then header_image (compute_full_crc (empty_world no_disk)) else zbuf SECTOR)"

definition formatted_disk :: "(nat \<Rightarrow> io_result) \<Rightarrow> disk" where
  "formatted_disk script = \<lparr>g_backend = DISK_AHCI, medium = formatted_medium, io_script = script, io_calls = 0\<rparr>"

lemma le32_0: "le32 0 = replicate 4 NUL"
proof -
  have "replicate 4 NUL = [NUL, NUL, NUL, NUL]" by (simp add: numeral_eq_Suc)
  then show ?thesis by (simp add: le32_def char_of_def)
qed

lemma strncpy_zero: "strncpy (zbuf m) (zbuf k) n = replicate (max n m) NUL"
  by (auto simp: strncpy_eq zbuf_def simp flip: replicate_add)

lemma concat_replicate_zbuf: "concat (replicate k (zbuf n)) = zbuf (k * n)"
  by (induction k) (simp_all add: zbuf_def replicate_add)

lemma enc_zero:
  "enc_private zero_private = zbuf 1064" "enc_roster zero_roster = zbuf 356"
  "enc_offline zero_offline = zbuf 1252" "enc_pending zero_pending = zbuf 116" "enc_room zero_room = zbuf 892"
proof -
  show "enc_private zero_private = zbuf 1064" "enc_roster zero_roster = zbuf 356"
    "enc_offline zero_offline = zbuf 1252" "enc_pending zero_pending = zbuf 116"
    by (simp_all add: enc_private_def enc_roster_def enc_offline_def enc_pending_def zero_defs zbuf_def le32_0
        flip: replicate_add)
  have "enc_banned zero_room = replicate 8 (zbuf 64)"
    by (simp add: enc_banned_def zero_room_def map_replicate_const)
  then have "concat (enc_banned zero_room) = zbuf 512"
    by (simp add: concat_replicate_zbuf)
  then show "enc_room zero_room = zbuf 892"
    by (simp add: enc_room_def zero_room_def strncpy_zero le32_0 flip: replicate_add)
       (simp add: zbuf_def flip: replicate_add)
qed

lemma empty_images:
  "private_image (empty_world d) = zbuf 21280" "roster_image (empty_world d) = zbuf 28480"
  "rooms_image (empty_world d) = zbuf 3568" "offline_image (empty_world d) = zbuf 40064"
  "pending_image (empty_world d) = zbuf 3712"
  by (simp_all add: image_defs empty_world_def boot_world_def enc_zero concat_replicate_zbuf)

lemma region_buf_zbuf: "k \<le> SECTOR * n \<Longrightarrow> region_buf n (zbuf k) = zbuf (SECTOR * n)"
  by (simp add: region_buf_eq zbuf_def flip: replicate_add)

lemma formatted_regions: "1 \<le> s \<Longrightarrow> read_range formatted_medium s n = zbuf (SECTOR * n)"
proof -
  assume "1 \<le> s"
  then have "map formatted_medium [s..<s + n] = replicate n (zbuf SECTOR)"
    by (intro nth_equalityI) (auto simp: formatted_medium_def)
  then show ?thesis by (simp add: read_range_def concat_replicate_zbuf mult.commute)
qed

lemma empty_crc: "compute_full_crc (empty_world d) = compute_full_crc (empty_world no_disk)"
  by (simp add: compute_full_crc_def empty_images)

lemma empty_world_synced: "synced (empty_world (formatted_disk script))"
proof -
  have "medium (disk_dev (empty_world (formatted_disk script))) = formatted_medium"
    by (simp add: empty_world_def boot_world_def formatted_disk_def)
  moreover have "read_range formatted_medium 0 1 = header_image (compute_full_crc (empty_world no_disk))"
    by (simp add: read_range_def formatted_medium_def)
  ultimately show ?thesis
    by (simp add: synced_def regions_def region_synced_def formatted_regions empty_images region_buf_zbuf
        empty_crc [of "formatted_disk script"])
qed

lemma empty_world_ok: "world_ok (empty_world d)" and empty_world_ints: "stored_ints (empty_world d)"
  by (simp_all add: empty_world_def boot_world_ok)
     (simp add: stored_ints_def boot_world_def int32_def zero_defs list_all_length)

lemma empty_world_ready: "(\<And>k. script k = IoOk) \<Longrightarrow> device_ready (disk_dev (empty_world (formatted_disk script))) n"
  by (simp add: device_ready_def empty_world_def boot_world_def formatted_disk_def)

text \<open>The same with one entry of the private store in use, on a disk whose header was not
  rewritten.\<close>

definition marked_world :: "disk \<Rightarrow> world" where
  "marked_world d = (empty_world d)\<lparr>private_store := zero_private\<lparr>pe_active := 1\<rparr> # replicate 19 zero_private\<rparr>"

lemma marked_private_image: "private_image (marked_world d) = zbuf 1060 @ CHR 0x01 # zbuf 20219"
proof -
  have "le32 1 = CHR 0x01 # zbuf 3" by (simp add: le32_def char_of_def zbuf_def numeral_3_eq_3 bit_0)
  then have "enc_private (zero_private\<lparr>pe_active := 1\<rparr>) = zbuf 1060 @ CHR 0x01 # zbuf 3"
    by (simp add: enc_private_def zero_private_def) (simp add: zbuf_def flip: replicate_add append_assoc)
  then show ?thesis
    by (simp add: private_image_def marked_world_def enc_zero concat_replicate_zbuf)
       (simp add: zbuf_def flip: replicate_add)
qed

lemma marked_other_images:
  "roster_image (marked_world d) = zbuf 28480" "rooms_image (marked_world d) = zbuf 3568"
  "offline_image (marked_world d) = zbuf 40064" "pending_image (marked_world d) = zbuf 3712"
  using empty_images [of d] by (simp_all add: image_defs marked_world_def)

lemma marked_full_image:
  "full_image (empty_world d) = zbuf 1060 @ NUL # zbuf 96043"
  "full_image (marked_world d) = zbuf 1060 @ CHR 0x01 # zbuf 96043"
proof -
  have "zbuf 97104 = zbuf 1060 @ NUL # zbuf 96043"
    by (simp add: zbuf_def flip: replicate_Suc replicate_add)
  then show "full_image (empty_world d) = zbuf 1060 @ NUL # zbuf 96043"
    by (simp add: full_image_def empty_images) (simp add: zbuf_def flip: replicate_add)
  show "full_image (marked_world d) = zbuf 1060 @ CHR 0x01 # zbuf 96043"
    by (simp add: full_image_def marked_private_image marked_other_images)
       (simp add: zbuf_def flip: replicate_add)
qed

lemma marked_world_ok: "world_ok (marked_world d)" and marked_world_ints: "stored_ints (marked_world d)"
proof -
  have "private_ok (zero_private\<lparr>pe_active := 1\<rparr>)" by (simp add: private_ok_def zero_private_def)
  then show "world_ok (marked_world d)"
    using empty_world_ok [of d] by (simp add: world_ok_def marked_world_def array_ok_def list_all_length nth_Cons')
  show "stored_ints (marked_world d)"
    using empty_world_ints [of d]
    by (simp add: stored_ints_def marked_world_def int32_def zero_private_def list_all_iff)
qed

subsection \<open>Properties\<close>

text \<open>C25: Saving brings the disk in step with memory.  If every other region already agrees with
  memory and the device performs the two writes, then after each of the five save functions all
  regions and the header checksum agree with memory, so no save disturbs another store.\<close>

theorem persist_save_sync:
  assumes "world_ok w" and "device_ready (disk_dev w) 2"
  shows "(synced_except LBA_PRIVATE_START w \<longrightarrow> synced (xmpp_persist_save_private w)) \<and>
    (synced_except LBA_ROSTER_START w \<longrightarrow> synced (xmpp_persist_save_roster w)) \<and>
    (synced_except LBA_ROOMS_START w \<longrightarrow> synced (xmpp_persist_save_rooms w)) \<and>
    (synced_except LBA_OFFLINE_START w \<longrightarrow> synced (xmpp_persist_save_offline w)) \<and>
    (synced_except LBA_PENDING_SUBS_START w \<longrightarrow> synced (xmpp_persist_save_pending_subs w))"
  unfolding save_defs using assms
  by (intro conjI impI save_region_sync) (simp_all add: regions_def)

theorem persist_save_sync_witness:
  "synced (xmpp_persist_save_private (empty_world (formatted_disk (\<lambda>_. IoOk))))"
proof -
  let ?w = "empty_world (formatted_disk (\<lambda>_. IoOk))"
  have "synced_except LBA_PRIVATE_START ?w"
    using empty_world_synced [of "\<lambda>_. IoOk"] by (auto simp: synced_def synced_except_def list_all_iff)
  then show ?thesis
    using persist_save_sync [OF empty_world_ok empty_world_ready [of "\<lambda>_. IoOk"]] by simp
qed

text \<open>C24: What was saved is what the next boot loads.  From a disk that agrees with the stores of
  \<open>w\<close>, \<open>xmpp_persist_load_all\<close> accepts the checksum and restores the private, roster, offline and
  pending stores byte for byte, and every room without its participants.\<close>

theorem persist_load_restores:
  assumes "world_ok w" and "stored_ints w" and "synced w" and "medium (disk_dev v) = medium (disk_dev w)"
    and "device_ready (disk_dev v) 6"
  shows "private_store (xmpp_persist_load_all v) = private_store w \<and>
    roster_store (xmpp_persist_load_all v) = roster_store w \<and>
    offline_store (xmpp_persist_load_all v) = offline_store w \<and>
    pending_subs (xmpp_persist_load_all v) = pending_subs w \<and>
    rooms (xmpp_persist_load_all v) = map saved_room (rooms w)"
proof -
  obtain d where "try_load v = (True, v\<lparr>disk_dev := d, private_store := private_store w,
      roster_store := roster_store w, rooms := map saved_room (rooms w),
      offline_store := offline_store w, pending_subs := pending_subs w\<rparr>)"
    using try_load_regions [OF assms(1,2,5), of "compute_full_crc w"] assms(3,4)
    by (auto simp: synced_def)
  then show ?thesis by (simp add: xmpp_persist_load_all_def)
qed

theorem persist_load_restores_witness:
  "rooms (xmpp_persist_load_all (empty_world (formatted_disk (\<lambda>_. IoOk)))) = map saved_room (replicate 4 zero_room)"
proof -
  let ?w = "empty_world (formatted_disk (\<lambda>_. IoOk))"
  have "rooms ?w = replicate 4 zero_room" by (simp add: empty_world_def boot_world_def)
  with persist_load_restores [OF empty_world_ok empty_world_ints empty_world_synced refl empty_world_ready,
      of "\<lambda>_. IoOk"]
  show ?thesis by simp
qed



text \<open>C40: One failed header write costs every store.  If \<open>xmpp_persist_save_private\<close> writes its
  region but the header write fails, and the new contents have another checksum, then the next
  boot finds every region intact and nevertheless starts with all five stores empty.\<close>

theorem persist_torn_save_loses_all:
  assumes "world_ok (u\<lparr>private_store := ps\<rparr>)" and "stored_ints (u\<lparr>private_store := ps\<rparr>)" and "synced u"
    and "g_backend (disk_dev u) \<noteq> DISK_NONE" and "io_script (disk_dev u) (io_calls (disk_dev u)) = IoOk"
    and "io_script (disk_dev u) (Suc (io_calls (disk_dev u))) = IoFail 0"
    and "compute_full_crc (u\<lparr>private_store := ps\<rparr>) \<noteq> compute_full_crc u"
    and "medium (disk_dev v) = medium (disk_dev (xmpp_persist_save_private (u\<lparr>private_store := ps\<rparr>)))"
    and "device_ready (disk_dev v) 6"
  shows "stores_empty (xmpp_persist_load_all v)"
proof -
  let ?w = "u\<lparr>private_store := ps\<rparr>"
  let ?b = "region_buf 42 (private_image ?w)"
  have m: "medium (disk_dev v) = write_range (medium (disk_dev u)) 1 42 ?b"
    using assms(4-6,8)
    by (auto simp: save_defs save_region_def write_header_def disk_io_defs Let_def write_range_def
        split: disk_backend_t.splits)
  have len: "length ?b = SECTOR * 42"
    using length_images(1) [OF assms(1)] by (intro length_region_buf) simp
  have "regions ?w = (1, 42, private_image ?w) # tl (regions u)"
    by (simp add: regions_def image_defs)
  moreover have "list_all (region_synced (medium (disk_dev v))) (tl (regions u))"
    using assms(3) m by (simp add: synced_def regions_def region_synced_def read_write_range_other)
  moreover have "region_synced (medium (disk_dev v)) (1, 42, private_image ?w)"
    using read_write_range [OF len] m by (simp add: region_synced_def)
  ultimately have "list_all (region_synced (medium (disk_dev v))) (regions ?w)" by simp
  moreover have "read_range (medium (disk_dev v)) LBA_HEADER 1 = header_image (compute_full_crc u)"
    using assms(3) m read_write_range_other [of 0 1 1 42] by (simp add: synced_def)
  ultimately show ?thesis
    using try_load_regions [OF assms(1,2,9)] assms(7)
    by (fastforce simp: xmpp_persist_load_all_def fresh_start_empty)
qed

theorem persist_torn_save_loses_all_witness:
  "stores_empty (xmpp_persist_load_all (empty_world ((formatted_disk (\<lambda>_. IoOk))
     \<lparr>medium := medium (disk_dev (xmpp_persist_save_private
        (marked_world (formatted_disk (\<lambda>k. if k = 1 then IoFail 0 else IoOk)))))\<rparr>)))"
proof (rule persist_torn_save_loses_all [where u = "empty_world (formatted_disk (\<lambda>k. if k = 1 then IoFail 0 else IoOk))"
      and ps = "zero_private\<lparr>pe_active := 1\<rparr> # replicate 19 zero_private"])
  let ?d = "formatted_disk (\<lambda>k. if k = 1 then IoFail 0 else IoOk)"
  show "compute_full_crc ((empty_world ?d)\<lparr>private_store := zero_private\<lparr>pe_active := 1\<rparr> # replicate 19 zero_private\<rparr>) \<noteq>
      compute_full_crc (empty_world ?d)"
    using crc_one_byte [of "CHR 0x01" NUL "zbuf 1060" "zbuf 96043"] marked_full_image [of ?d]
    by (simp add: compute_full_crc_eq flip: marked_world_def)
qed (simp_all add: empty_world_synced marked_world_ok marked_world_ints flip: marked_world_def,
     simp_all add: empty_world_def boot_world_def formatted_disk_def device_ready_def)

subsection \<open>Saving changes the disk only\<close>

lemma save_region_sel:
  "client_registry (save_region s n img w) = client_registry w"
  "rooms (save_region s n img w) = rooms w"
  "roster_store (save_region s n img w) = roster_store w"
  "roster_version (save_region s n img w) = roster_version w"
  "private_store (save_region s n img w) = private_store w"
  "offline_store (save_region s n img w) = offline_store w"
  "pending_subs (save_region s n img w) = pending_subs w"
  "stanza_pool (save_region s n img w) = stanza_pool w"
  "client_idx (save_region s n img w) = client_idx w"
  "env (save_region s n img w) = env w"
  by (simp_all add: save_region_def write_header_def split: prod.split)

lemma save_private_sel [simp]:
  "client_registry (xmpp_persist_save_private w) = client_registry w"
  "rooms (xmpp_persist_save_private w) = rooms w"
  "roster_store (xmpp_persist_save_private w) = roster_store w"
  "roster_version (xmpp_persist_save_private w) = roster_version w"
  "private_store (xmpp_persist_save_private w) = private_store w"
  "offline_store (xmpp_persist_save_private w) = offline_store w"
  "pending_subs (xmpp_persist_save_private w) = pending_subs w"
  "stanza_pool (xmpp_persist_save_private w) = stanza_pool w"
  "client_idx (xmpp_persist_save_private w) = client_idx w"
  "env (xmpp_persist_save_private w) = env w"
  by (simp_all add: save_defs save_region_sel)

lemma save_roster_sel [simp]:
  "client_registry (xmpp_persist_save_roster w) = client_registry w"
  "rooms (xmpp_persist_save_roster w) = rooms w"
  "roster_store (xmpp_persist_save_roster w) = roster_store w"
  "roster_version (xmpp_persist_save_roster w) = roster_version w"
  "private_store (xmpp_persist_save_roster w) = private_store w"
  "offline_store (xmpp_persist_save_roster w) = offline_store w"
  "pending_subs (xmpp_persist_save_roster w) = pending_subs w"
  "stanza_pool (xmpp_persist_save_roster w) = stanza_pool w"
  "client_idx (xmpp_persist_save_roster w) = client_idx w"
  "env (xmpp_persist_save_roster w) = env w"
  by (simp_all add: save_defs save_region_sel)

lemma save_rooms_sel [simp]:
  "client_registry (xmpp_persist_save_rooms w) = client_registry w"
  "rooms (xmpp_persist_save_rooms w) = rooms w"
  "roster_store (xmpp_persist_save_rooms w) = roster_store w"
  "roster_version (xmpp_persist_save_rooms w) = roster_version w"
  "private_store (xmpp_persist_save_rooms w) = private_store w"
  "offline_store (xmpp_persist_save_rooms w) = offline_store w"
  "pending_subs (xmpp_persist_save_rooms w) = pending_subs w"
  "stanza_pool (xmpp_persist_save_rooms w) = stanza_pool w"
  "client_idx (xmpp_persist_save_rooms w) = client_idx w"
  "env (xmpp_persist_save_rooms w) = env w"
  by (simp_all add: save_defs save_region_sel)

lemma save_offline_sel [simp]:
  "client_registry (xmpp_persist_save_offline w) = client_registry w"
  "rooms (xmpp_persist_save_offline w) = rooms w"
  "roster_store (xmpp_persist_save_offline w) = roster_store w"
  "roster_version (xmpp_persist_save_offline w) = roster_version w"
  "private_store (xmpp_persist_save_offline w) = private_store w"
  "offline_store (xmpp_persist_save_offline w) = offline_store w"
  "pending_subs (xmpp_persist_save_offline w) = pending_subs w"
  "stanza_pool (xmpp_persist_save_offline w) = stanza_pool w"
  "client_idx (xmpp_persist_save_offline w) = client_idx w"
  "env (xmpp_persist_save_offline w) = env w"
  by (simp_all add: save_defs save_region_sel)

lemma save_pending_subs_sel [simp]:
  "client_registry (xmpp_persist_save_pending_subs w) = client_registry w"
  "rooms (xmpp_persist_save_pending_subs w) = rooms w"
  "roster_store (xmpp_persist_save_pending_subs w) = roster_store w"
  "roster_version (xmpp_persist_save_pending_subs w) = roster_version w"
  "private_store (xmpp_persist_save_pending_subs w) = private_store w"
  "offline_store (xmpp_persist_save_pending_subs w) = offline_store w"
  "pending_subs (xmpp_persist_save_pending_subs w) = pending_subs w"
  "stanza_pool (xmpp_persist_save_pending_subs w) = stanza_pool w"
  "client_idx (xmpp_persist_save_pending_subs w) = client_idx w"
  "env (xmpp_persist_save_pending_subs w) = env w"
  by (simp_all add: save_defs save_region_sel)

lemma world_ok_save [simp]:
  "world_ok (xmpp_persist_save_private w) = world_ok w" "world_ok (xmpp_persist_save_roster w) = world_ok w"
  "world_ok (xmpp_persist_save_rooms w) = world_ok w" "world_ok (xmpp_persist_save_offline w) = world_ok w"
  "world_ok (xmpp_persist_save_pending_subs w) = world_ok w"
  by (simp_all add: world_ok_def)

end
