(* ===== verification/Store.thy ===== *)
theory Store
  imports Sm Persist
begin

text \<open>
  The offline message store and the roster store of \<^verbatim>\<open>src/src/xmpp/xmpp_store.c\<close>.  Local buffers of
  the functions are lists of their declared size; what stands behind the terminator of a local
  buffer is never read and is zero in the model.
\<close>

subsection \<open>Offline messages\<close>

definition local_user :: "cbuf \<Rightarrow> cbuf" where
  "local_user to_bare =
     (case strchr to_bare CHR ''@'' of
        Some at \<Rightarrow> strncpy (zbuf 32) to_bare (if at \<ge> 32 then 31 else at)
      | None \<Rightarrow> strncpy (zbuf 32) to_bare 31)"

definition fill_offline :: "cbuf \<Rightarrow> cbuf \<Rightarrow> cbuf \<Rightarrow> cbuf \<Rightarrow> offline_msg_t \<Rightarrow> offline_msg_t" where
  "fill_offline to_bare from_jid msg_id payload m =
     m\<lparr>om_from := strncpy_term (om_from m) from_jid 63,
       om_to_bare := strncpy_term (om_to_bare m) to_bare 63,
       om_to_user := strncpy_term (om_to_user m) (local_user to_bare) 31,
       om_id := strncpy_term (om_id m) msg_id 63,
       om_payload := strncpy_term (om_payload m) payload 1023, om_active := 1\<rparr>"

definition offline_msg_enqueue :: "cbuf \<Rightarrow> cbuf \<Rightarrow> cbuf \<Rightarrow> cbuf \<Rightarrow> world \<Rightarrow> int \<times> world" where
  "offline_msg_enqueue to_bare from_jid msg_id payload w =
     (case first_index MAX_OFFLINE_MSGS (\<lambda>i. om_active (offline_store w ! i) = 0) of
        Some i \<Rightarrow>
          (0, xmpp_persist_save_offline
             (w\<lparr>offline_store := (offline_store w)[i := fill_offline to_bare from_jid msg_id payload (offline_store w ! i)]\<rparr>))
      | None \<Rightarrow> (-1, w))"

definition offline_id_fmt :: string where
  "offline_id_fmt = ''<message from='%s' to='%s' type='chat' id='%s'>%s<delay xmlns='urn:xmpp:delay' from='angelic.local' stamp='2024-01-01T00:00:00Z'>Offline Storage</delay></message>''"

definition offline_fmt :: string where
  "offline_fmt = ''<message from='%s' to='%s' type='chat'>%s<delay xmlns='urn:xmpp:delay' from='angelic.local' stamp='2024-01-01T00:00:00Z'>Offline Storage</delay></message>''"

text \<open>The stanza sent for a stored message.\<close>

definition offline_text :: "offline_msg_t \<Rightarrow> xmpp_client_ctx_t \<Rightarrow> string" where
  "offline_text m c =
     (if deref (om_id m) \<noteq> NUL
      then snprintf 1400 offline_id_fmt [VStr (om_from m), VStr (cl_full_jid c), VStr (om_id m), VStr (om_payload m)]
      else snprintf 1400 offline_fmt [VStr (om_from m), VStr (cl_full_jid c), VStr (om_payload m)])"

definition offline_drain_slot :: "nat \<Rightarrow> nat \<Rightarrow> world \<Rightarrow> world" where
  "offline_drain_slot ctx i w =
     (let m = offline_store w ! i; c = client w ctx in
      if om_active m = 0 then w
      else if strcmp (om_to_user m) (cl_username c) \<noteq> 0 then w
      else
        let out = offline_text m c; written = int (length out);
            w1 = (if written > 0 \<and> written < 1400 then send_to ctx out w else w)
        in w1\<lparr>offline_store := (offline_store w1)[i := (offline_store w1 ! i)\<lparr>om_active := 0\<rparr>]\<rparr>)"

definition offline_msg_drain :: "nat \<Rightarrow> world \<Rightarrow> world" where
  "offline_msg_drain ctx w =
     xmpp_persist_save_offline (for_range MAX_OFFLINE_MSGS (offline_drain_slot ctx) w)"

definition offline_msg_is_full :: "cbuf \<Rightarrow> world \<Rightarrow> bool" where
  "offline_msg_is_full to_user w =
     (for_range MAX_OFFLINE_MSGS
        (\<lambda>i count. if om_active (offline_store w ! i) \<noteq> 0 \<and> strcmp (om_to_user (offline_store w ! i)) to_user = 0
                   then count + 1 else count) 0 \<ge> MAX_OFFLINE_MSGS div 2)"

subsection \<open>The roster\<close>

definition roster_extract_jid :: "cbuf \<Rightarrow> cbuf \<Rightarrow> nat \<Rightarrow> cbuf option" where
  "roster_extract_jid item_xml jid_out jid_max =
     (case strstr item_xml ''jid='' of
        None \<Rightarrow> None
      | Some k \<Rightarrow>
          let p = drop (k + 4) item_xml; q = deref p in
          if q \<noteq> APOS \<and> q \<noteq> DQUOTE then None
          else (case strchr (tl p) q of
            None \<Rightarrow> None
          | Some e \<Rightarrow>
              let len = (if e \<ge> jid_max then jid_max - 1 else e)
              in Some (strncpy_term jid_out (tl p) len)))"

definition is_remove :: "cbuf \<Rightarrow> bool" where
  "is_remove item_xml \<longleftrightarrow>
     strstr item_xml (''subscription='remove'' @ [APOS]) \<noteq> None \<or>
     strstr item_xml (''subscription='' @ [DQUOTE] @ ''remove'' @ [DQUOTE]) \<noteq> None"

definition fill_roster :: "cbuf \<Rightarrow> cbuf \<Rightarrow> cbuf \<Rightarrow> roster_entry_t \<Rightarrow> roster_entry_t" where
  "fill_roster username contact_jid item_xml r =
     (let n = strlen item_xml; xml_len = (if n \<ge> ROSTER_ITEM_MAX_LEN then ROSTER_ITEM_MAX_LEN - 1 else n)
      in r\<lparr>re_username := strncpy_term (re_username r) username 31,
           re_jid := strncpy_term (re_jid r) contact_jid 63,
           re_item_xml := strncpy_term (re_item_xml r) item_xml xml_len, re_active := 1\<rparr>)"

definition roster_find :: "cbuf \<Rightarrow> cbuf \<Rightarrow> roster_entry_t list \<Rightarrow> nat option" where
  "roster_find username contact_jid store =
     first_index MAX_ROSTER_ENTRIES (\<lambda>i. re_active (store ! i) \<noteq> 0 \<and>
       strncmp (re_username (store ! i)) username 32 = 0 \<and> strncmp (re_jid (store ! i)) contact_jid 64 = 0)"

definition roster_upsert :: "cbuf \<Rightarrow> cbuf \<Rightarrow> roster_entry_t list \<Rightarrow> int \<times> roster_entry_t list" where
  "roster_upsert username item_xml store =
     (case roster_extract_jid item_xml (zbuf 64) 64 of
        None \<Rightarrow> (-1, store)
      | Some contact_jid \<Rightarrow>
          let slot = roster_find username contact_jid store in
          if is_remove item_xml then
            (case slot of
               Some i \<Rightarrow> (0, store[i := (store ! i)\<lparr>re_active := 0\<rparr>])
             | None \<Rightarrow> (0, store))
          else
            (case (case slot of Some i \<Rightarrow> Some i
                   | None \<Rightarrow> first_index MAX_ROSTER_ENTRIES (\<lambda>i. re_active (store ! i) = 0)) of
               None \<Rightarrow> (-1, store)
             | Some i \<Rightarrow> (0, store[i := fill_roster username contact_jid item_xml (store ! i)])))"

definition roster_store_upsert_item :: "cbuf \<Rightarrow> cbuf \<Rightarrow> world \<Rightarrow> int \<times> world" where
  "roster_store_upsert_item username item_xml w =
     (let (r, s) = roster_upsert username item_xml (roster_store w) in (r, w\<lparr>roster_store := s\<rparr>))"

text \<open>One \<open><item .../>\<close> element of a roster set: cut to the buffer, and closed when the client sent
  a start tag only.\<close>

definition roster_item_buf :: "cbuf \<Rightarrow> nat \<Rightarrow> cbuf" where
  "roster_item_buf p e =
     (let len = (if e + 1 \<ge> ROSTER_ITEM_MAX_LEN then ROSTER_ITEM_MAX_LEN - 1 else e + 1);
          b = strncpy_term (zbuf ROSTER_ITEM_MAX_LEN) p len
      in if len \<ge> 2 \<and> b ! (len - 2) \<noteq> CHR ''/'' \<and> len < ROSTER_ITEM_MAX_LEN - 1
         then poke (poke (poke b (len - 1) CHR ''/'') len CHR ''>'') (len + 1) NUL
         else b)"

lemma strchr_nonempty: "strchr (drop k p) CHR ''>'' = Some e \<Longrightarrow> 0 < length p"
  by (cases p) auto

function roster_set_loop :: "cbuf \<Rightarrow> cbuf \<Rightarrow> world \<Rightarrow> world" where
  "roster_set_loop username payload w =
     (case strstr payload ''<item '' of
        None \<Rightarrow> w
      | Some k \<Rightarrow>
          (case strchr (drop k payload) CHR ''>'' of
             None \<Rightarrow> w
           | Some e \<Rightarrow>
               let p = drop k payload;
                   w' = snd (roster_store_upsert_item username (roster_item_buf p e) w)
               in roster_set_loop username (drop (e + 1) p) w'))"
  by pat_completeness auto
termination
  by (relation "measure (\<lambda>(u, p, w). length p)") (auto dest: strchr_nonempty)

declare roster_set_loop.simps [simp del]

definition roster_store_set_from_payload :: "cbuf \<Rightarrow> cbuf \<Rightarrow> world \<Rightarrow> world" where
  "roster_store_set_from_payload username payload w = roster_set_loop username payload w"

fun roster_items_loop :: "cbuf \<Rightarrow> nat \<Rightarrow> roster_entry_t list \<Rightarrow> nat \<times> string \<Rightarrow> nat \<times> string" where
  "roster_items_loop username buf_len [] (count, out) = (count, out)"
| "roster_items_loop username buf_len (r # rs) (count, out) =
     (if re_active r = 0 then roster_items_loop username buf_len rs (count, out)
      else if strncmp (re_username r) username 32 \<noteq> 0 then roster_items_loop username buf_len rs (count, out)
      else if length out + strlen (re_item_xml r) \<ge> buf_len - 1 then (count, out)
      else roster_items_loop username buf_len rs (count + 1, out @ cstr (re_item_xml r)))"

text \<open>The number of items and the text left in the buffer.\<close>

definition roster_store_get_items :: "cbuf \<Rightarrow> nat \<Rightarrow> world \<Rightarrow> nat \<times> string" where
  "roster_store_get_items username buf_len w = roster_items_loop username buf_len (roster_store w) (0, [])"

subsection \<open>Memory safety\<close>

lemma fill_offline_ok: "offline_ok m \<Longrightarrow> offline_ok (fill_offline t f i p m)"
  by (simp add: offline_ok_def fill_offline_def buf_strncpy_term buf_length)

lemma world_ok_offline_update:
  "world_ok w \<Longrightarrow> (i < 32 \<Longrightarrow> offline_ok m) \<Longrightarrow> world_ok (w\<lparr>offline_store := (offline_store w)[i := m]\<rparr>)"
  by (auto simp: world_ok_def)

lemma world_ok_offline_nth: "world_ok w \<Longrightarrow> i < 32 \<Longrightarrow> offline_ok (offline_store w ! i)"
  by (auto simp: world_ok_def dest: array_ok_nth)

lemma offline_msg_enqueue_ok: "world_ok w \<Longrightarrow> world_ok (snd (offline_msg_enqueue t f i p w))"
  by (auto simp: offline_msg_enqueue_def first_index_Some split: option.split
      intro!: world_ok_offline_update fill_offline_ok world_ok_offline_nth)

lemma offline_drain_slot_ok: "world_ok w \<Longrightarrow> world_ok (offline_drain_slot ctx i w)"
  using world_ok_offline_nth [of w i]
  by (auto simp: offline_drain_slot_def Let_def offline_ok_def
      intro!: world_ok_offline_update [OF world_ok_send_to, simplified] world_ok_offline_update)

lemma offline_msg_drain_ok: "world_ok w \<Longrightarrow> world_ok (offline_msg_drain ctx w)"
  unfolding offline_msg_drain_def world_ok_save
  by (rule for_range_invariant [where P = world_ok]) (simp_all add: offline_drain_slot_ok)

lemma fill_roster_ok: "roster_ok r \<Longrightarrow> roster_ok (fill_roster u j x r)"
  by (simp add: roster_ok_def fill_roster_def Let_def buf_strncpy_term buf_length)

lemma roster_upsert_ok:
  assumes "array_ok 80 roster_ok s"
  shows "array_ok 80 roster_ok (snd (roster_upsert u x s))"
proof -
  have upd: "array_ok 80 roster_ok (s[i := f (s ! i)])" if "\<And>r. roster_ok r \<Longrightarrow> roster_ok (f r)" for i f
    using assms that by (auto dest: array_ok_nth)
  have "roster_ok r \<Longrightarrow> roster_ok (r\<lparr>re_active := 0\<rparr>)" for r by (simp add: roster_ok_def)
  note inactive = upd [of "\<lambda>r. r\<lparr>re_active := 0\<rparr>", OF this]
  show ?thesis
    using assms upd [OF fill_roster_ok] inactive
    by (auto simp: roster_upsert_def Let_def split: option.split)
qed

lemma roster_store_upsert_item_ok: "world_ok w \<Longrightarrow> world_ok (snd (roster_store_upsert_item u x w))"
  by (auto simp: roster_store_upsert_item_def case_prod_beta Let_def world_ok_def roster_upsert_ok)

lemma roster_set_loop_ok: "world_ok w \<Longrightarrow> world_ok (roster_set_loop u p w)"
proof (induction u p w rule: roster_set_loop.induct)
  case (1 u p w)
  then show ?case
    using roster_store_upsert_item_ok [of w u]
    by (subst roster_set_loop.simps) (auto simp: Let_def split: option.split)
qed

lemma roster_store_upsert_item_frame:
  "snd (roster_store_upsert_item u x w) = w\<lparr>roster_store := roster_store (snd (roster_store_upsert_item u x w))\<rparr>"
  by (simp add: roster_store_upsert_item_def case_prod_beta Let_def)

lemma roster_set_loop_frame: "\<exists>s. roster_set_loop u p w = w\<lparr>roster_store := s\<rparr>"
proof (induction u p w rule: roster_set_loop.induct)
  case (1 u p w)
  have frame: "\<exists>s. w\<lparr>roster_store := r\<rparr>\<lparr>roster_store := s'\<rparr> = w\<lparr>roster_store := s\<rparr>" for r s' by auto
  have self: "\<exists>s. w = w\<lparr>roster_store := s\<rparr>" by (rule exI [of _ "roster_store w"]) simp
  have "\<exists>s. snd (roster_store_upsert_item u x w)\<lparr>roster_store := s'\<rparr> = w\<lparr>roster_store := s\<rparr>" for x s'
    by (subst roster_store_upsert_item_frame) (rule frame)
  then show ?case
    using 1 self by (subst roster_set_loop.simps) (fastforce simp: Let_def split: option.split)
qed

lemma roster_set_loop_sel [simp]:
  "client_registry (roster_set_loop u p w) = client_registry w" "env (roster_set_loop u p w) = env w"
  "rooms (roster_set_loop u p w) = rooms w" "private_store (roster_set_loop u p w) = private_store w"
  "offline_store (roster_set_loop u p w) = offline_store w" "pending_subs (roster_set_loop u p w) = pending_subs w"
  using roster_set_loop_frame [of u p w] by auto

subsection \<open>Mailboxes\<close>

text \<open>An array of slots that a login drains to the client: a slot that is addressed to the client is
  sent and cleared, any other slot is left alone.\<close>

locale mailbox =
  fixes slots :: "world \<Rightarrow> 'm list" and step :: "nat \<Rightarrow> nat \<Rightarrow> world \<Rightarrow> world"
    and mine :: "xmpp_client_ctx_t \<Rightarrow> 'm \<Rightarrow> bool" and text_of :: "'m \<Rightarrow> xmpp_client_ctx_t \<Rightarrow> string" and clear :: "'m \<Rightarrow> 'm"
  assumes frame: "send_frame c c' \<Longrightarrow> mine c' m = mine c m \<and> text_of m c' = text_of m c"
    and step_mine: "i < length (slots w) \<Longrightarrow> mine (client w ctx) (slots w ! i) \<Longrightarrow>
      slots (step ctx i w) = (slots w)[i := clear (slots w ! i)] \<and>
      outbox (env (step ctx i w)) = outbox (env w) @ [(cl_pcb (client w ctx), cstr (text_of (slots w ! i) (client w ctx)))] \<and>
      send_frame (client w ctx) (client (step ctx i w) ctx)"
    and step_other: "i < length (slots w) \<Longrightarrow> \<not> mine (client w ctx) (slots w ! i) \<Longrightarrow> step ctx i w = w"
begin

lemma drain_step:
  fixes w :: world and ctx :: nat
  defines "c \<equiv> client w ctx" and "f \<equiv> \<lambda>m. if mine (client w ctx) m then clear m else m"
  assumes k: "k < length (slots w)"
    and st: "slots s = map f (take k (slots w)) @ drop k (slots w)"
    and out: "outbox (env s) = outbox (env w) @ map (\<lambda>m. (cl_pcb c, cstr (text_of m c))) (filter (mine c) (take k (slots w)))"
    and fr: "send_frame c (client s ctx)"
  shows "slots (step ctx k s) = map f (take (Suc k) (slots w)) @ drop (Suc k) (slots w) \<and>
    outbox (env (step ctx k s)) = outbox (env w) @ map (\<lambda>m. (cl_pcb c, cstr (text_of m c))) (filter (mine c) (take (Suc k) (slots w))) \<and>
    send_frame c (client (step ctx k s) ctx)"
proof -
  have nth: "slots s ! k = slots w ! k" and len: "k < length (slots s)" using st k by (simp_all add: nth_append)
  have take: "take (Suc k) (slots w) = take k (slots w) @ [slots w ! k]" using k by (simp add: take_Suc_conv_app_nth)
  have drop: "drop k (slots w) = slots w ! k # drop (Suc k) (slots w)" using k by (simp add: Cons_nth_drop_Suc)
  note same = frame [OF fr] and pcb = send_frame_sel(1) [OF fr]
  show ?thesis
  proof (cases "mine c (slots w ! k)")
    case True
    then have "mine (client s ctx) (slots s ! k)" by (simp add: nth same)
    note step = step_mine [OF len this, unfolded nth]
    have "(slots s)[k := clear (slots w ! k)] = map f (take k (slots w)) @ clear (slots w ! k) # drop (Suc k) (slots w)"
      using k by (simp add: st drop list_update_append)
    with step True send_frame_trans [OF fr] show ?thesis
      by (simp add: out same pcb take f_def c_def [symmetric])
  next
    case False
    then have "step ctx k s = s" by (intro step_other len) (simp add: nth same)
    with False st fr show ?thesis by (simp add: out take drop f_def c_def)
  qed
qed

lemma drain_all:
  fixes w :: world and ctx :: nat
  defines "c \<equiv> client w ctx"
  assumes "length (slots w) = n"
  shows "slots (for_range n (step ctx) w) = map (\<lambda>m. if mine c m then clear m else m) (slots w) \<and>
    outbox (env (for_range n (step ctx) w)) =
      outbox (env w) @ map (\<lambda>m. (cl_pcb c, cstr (text_of m c))) (filter (mine c) (slots w)) \<and>
    send_frame c (client (for_range n (step ctx) w) ctx)"
proof -
  let ?P = "\<lambda>k s. slots s = map (\<lambda>m. if mine c m then clear m else m) (take k (slots w)) @ drop k (slots w) \<and>
    outbox (env s) = outbox (env w) @ map (\<lambda>m. (cl_pcb c, cstr (text_of m c))) (filter (mine c) (take k (slots w))) \<and>
    send_frame c (client s ctx)"
  have "?P n (for_range n (step ctx) w)"
  proof (rule for_range_indexed_invariant [where P = ?P])
    fix k s assume "k < n" "?P k s"
    then show "?P (Suc k) (step ctx k s)" using drain_step [of k w s ctx] assms(2) by (simp add: c_def)
  qed (simp add: c_def)
  then show ?thesis using assms(2) by simp
qed

end

subsection \<open>Delivery of offline messages\<close>

definition stored_for :: "xmpp_client_ctx_t \<Rightarrow> offline_msg_t \<Rightarrow> bool" where
  "stored_for c m \<longleftrightarrow> om_active m \<noteq> 0 \<and> cstr (om_to_user m) = cstr (cl_username c)"

lemma snprintf_nonempty: "1 < sz \<Longrightarrow> c \<noteq> NUL \<Longrightarrow> c \<noteq> CHR ''%'' \<Longrightarrow> snprintf sz (c # fmt) args \<noteq> []"
  by (simp add: snprintf_def vsnprintf_loop.simps)

lemma offline_text_length: "0 < length (offline_text m c)" "length (offline_text m c) < 1400"
proof -
  have "snprintf 1400 (CHR ''<'' # f) as \<noteq> [] \<and> length (snprintf 1400 (CHR ''<'' # f) as) < 1400" for f as
    using snprintf_nonempty [of 1400 "CHR ''<''" f as] snprintf_length [of 1400 "CHR ''<'' # f" as]
    by (simp add: less_Suc_eq_le [of _ 1399, simplified])
  then show "0 < length (offline_text m c)" "length (offline_text m c) < 1400"
    by (simp_all add: offline_text_def offline_fmt_def offline_id_fmt_def)
qed

lemma cstr_local_user: "cstr (local_user t) = take 31 (takeWhile (\<lambda>c. c \<noteq> CHR ''@'') (cstr t))"
proof (cases "strchr t CHR ''@''")
  case None
  then have "takeWhile (\<lambda>c. c \<noteq> CHR ''@'') (cstr t) = cstr t" by (auto simp: strchr_None takeWhile_eq_all_conv)
  then show ?thesis by (subst \<open>takeWhile _ _ = _\<close>) (simp add: local_user_def cstr_strncpy_zbuf None)
next
  case (Some k)
  then have k: "k < length (cstr t)" "cstr t ! k = CHR ''@''" "\<forall>i<k. cstr t ! i \<noteq> CHR ''@''"
    by (simp_all add: strchr_Some)
  then have "takeWhile (\<lambda>c. c \<noteq> CHR ''@'') (cstr t) = take k (cstr t)"
    by (intro takeWhile_eq_take_P_nth) auto
  with Some show ?thesis by (cases "k = 31") (simp_all add: local_user_def cstr_strncpy_zbuf min_def)
qed

lemma send_frame_full_jid: "send_frame c c' \<Longrightarrow> offline_text m c' = offline_text m c \<and> stored_for c' m = stored_for c m"
  by (simp add: offline_text_def stored_for_def send_frame_sel)

interpretation offline: mailbox offline_store offline_drain_slot stored_for offline_text "\<lambda>m. m\<lparr>om_active := 0\<rparr>"
proof (unfold_locales, goal_cases)
  case (2 i w ctx)
  then show ?case
    using offline_text_length [of "offline_store w ! i" "client w ctx"] send_to_client [of w ctx ctx]
    by (simp add: offline_drain_slot_def Let_def stored_for_def strcmp_eq_0)
next
  case (3 i w ctx)
  then show ?case by (auto simp: offline_drain_slot_def Let_def stored_for_def strcmp_eq_0)
qed (simp add: send_frame_full_jid)

lemma offline_drain_effect:
  fixes ctx :: nat
  assumes "world_ok w"
  defines "c \<equiv> client w ctx"
  shows "outbox (env (offline_msg_drain ctx w)) =
           outbox (env w) @ map (\<lambda>m. (cl_pcb c, cstr (offline_text m c))) (filter (stored_for c) (offline_store w)) \<and>
         offline_store (offline_msg_drain ctx w) =
           map (\<lambda>m. if stored_for c m then m\<lparr>om_active := 0\<rparr> else m) (offline_store w)"
proof -
  have len: "length (offline_store w) = 32" using assms(1) by (auto simp: world_ok_def dest: array_ok_length)
  show ?thesis using offline.drain_all [OF len, of ctx] by (simp add: offline_msg_drain_def c_def)
qed

text \<open>C34: logging in delivers exactly the stored messages of the user.  Draining the offline store
  for a client sends it, in slot order and once each, every active message stored under its user
  name, as a chat message with the sender, the payload and a delay mark; it frees exactly those
  slots and keeps the messages of every other user.\<close>

theorem offline_drain_exact:
  fixes ctx :: nat
  assumes "world_ok w"
  defines "c \<equiv> client w ctx"
  shows "outbox (env (offline_msg_drain ctx w)) =
           outbox (env w) @ map (\<lambda>m. (cl_pcb c, cstr (offline_text m c))) (filter (stored_for c) (offline_store w)) \<and>
         offline_store (offline_msg_drain ctx w) =
           map (\<lambda>m. if stored_for c m then m\<lparr>om_active := 0\<rparr> else m) (offline_store w)"
  unfolding c_def by (rule offline_drain_effect [OF assms(1)])

text \<open>Worlds for examples: the given users are connected in session state.\<close>

definition user_client :: "string \<Rightarrow> nat \<Rightarrow> xmpp_client_ctx_t" where
  "user_client u p = zero_client\<lparr>cl_username := strncpy_term (zbuf 32) u 31,
     cl_full_jid := strncpy_term (zbuf 64) (u @ ''@angelic.local/x'') 63, cl_pcb := Some p,
     cl_state := STATE_SESSION, cl_authenticated := True, cl_tls_established := True\<rparr>"

definition users_world :: "(string \<times> nat) list \<Rightarrow> world" where
  "users_world us = (empty_world no_disk)\<lparr>client_registry :=
     take 20 (map (\<lambda>(u, p). user_client u p) us @ replicate 20 zero_client)\<rparr>"

lemma user_client_ok [simp]: "client_ok (user_client u p)"
  using zero_ok(2) by (simp add: client_ok_def user_client_def buf_strncpy_term)

lemma users_world_ok: "world_ok (users_world us)"
proof -
  have "array_ok 20 client_ok (take 20 (map (\<lambda>(u, p). user_client u p) us @ replicate 20 zero_client))"
    by (rule array_okI) (auto simp: nth_append case_prod_beta)
  then show ?thesis using empty_world_ok [of no_disk] by (simp add: users_world_def world_ok_def)
qed

definition mail_world :: world where
  "mail_world = (users_world [(''bob'', 7)])\<lparr>offline_store :=
     fill_offline ''bob@angelic.local'' ''al@angelic.local/y'' ''m1'' ''<body>hi</body>'' zero_offline # replicate 31 zero_offline\<rparr>"

lemma mail_world_ok: "world_ok mail_world"
proof -
  have "array_ok 32 offline_ok (fill_offline t f i p zero_offline # replicate 31 zero_offline)" for t f i p
    by (rule array_okI) (auto simp: nth_Cons' fill_offline_ok)
  then show ?thesis using users_world_ok by (simp add: mail_world_def world_ok_def)
qed

theorem offline_drain_exact_witness:
  "length (outbox (env (offline_msg_drain 0 mail_world))) = 1"
proof -
  have "stored_for (client mail_world 0) (offline_store mail_world ! 0)"
    by (simp add: stored_for_def mail_world_def users_world_def user_client_def fill_offline_def cstr_local_user
        cstr_simps)
  moreover have "outbox (env mail_world) = []"
    by (simp add: mail_world_def users_world_def empty_world_def boot_world_def idle_env_def outbox_def)
  moreover have "filter (stored_for c) (replicate n zero_offline) = []" for c n
    by (simp add: stored_for_def zero_offline_def)
  ultimately show ?thesis
    using conjunct1 [OF offline_drain_exact [OF mail_world_ok, of 0]] by (simp add: mail_world_def)
qed


subsection \<open>The roster as a map\<close>

text \<open>The abstract roster maps a user and a contact to the stored item element.\<close>

definition roster_key :: "roster_entry_t \<Rightarrow> string \<times> string" where
  "roster_key r = (cstr (re_username r), cstr (re_jid r))"

abbreviation roster_active :: "roster_entry_t \<Rightarrow> bool" where
  "roster_active r \<equiv> re_active r \<noteq> 0"

definition roster_map :: "world \<Rightarrow> string \<times> string \<Rightarrow> string option" where
  "roster_map w = slot_map roster_active roster_key (cstr \<circ> re_item_xml) (roster_store w)"

definition roster_distinct :: "world \<Rightarrow> bool" where
  "roster_distinct w \<longleftrightarrow> distinct (slot_keys roster_active roster_key (roster_store w))"

text \<open>An argument of an upsert: user name, contact and item.\<close>

fun roster_matches :: "cbuf \<times> cbuf \<times> cbuf \<Rightarrow> roster_entry_t \<Rightarrow> bool" where
  "roster_matches (u, j, x) r \<longleftrightarrow> re_active r \<noteq> 0 \<and> strncmp (re_username r) u 32 = 0 \<and> strncmp (re_jid r) j 64 = 0"

interpretation roster: slot_table 80 roster_ok roster_active roster_key "cstr \<circ> re_item_xml"
  "\<lambda>(u, j, x). length (cstr u) < 32 \<and> length (cstr j) < 64" "\<lambda>(u, j, x). (cstr u, cstr j)"
  "\<lambda>(u, j, x). take 255 (cstr x)" roster_matches "\<lambda>(u, j, x). fill_roster u j x"
proof (unfold_locales, goal_cases)
  case (1 b r)
  then show ?case
    by (cases b) (auto simp: roster_ok_def roster_key_def strncmp_eq_0 dest!: buf_length_cstr)
next
  case (2 b r)
  obtain u j x where b: "b = (u, j, x)" by (cases b)
  have "re_active (fill_roster u j x r) \<noteq> 0" "roster_key (fill_roster u j x r) = (take 31 (cstr u), take 63 (cstr j))"
    "cstr (re_item_xml (fill_roster u j x r)) = take 255 (cstr x)"
    by (simp_all add: fill_roster_def Let_def roster_key_def cstr_simps)
  with 2 show ?case by (auto simp: b fill_roster_ok)
qed

lemma roster_upsert_slot:
  "roster_extract_jid x (zbuf 64) 64 = Some j \<Longrightarrow> \<not> is_remove x \<Longrightarrow>
   roster_upsert u x s = (case slot_upsert 80 (roster_matches (u, j, x)) roster_active (fill_roster u j x) s of
     Some s' \<Rightarrow> (0, s') | None \<Rightarrow> (-1, s))"
  by (auto simp: roster_upsert_def roster_find_def slot_upsert_def Let_def split: option.split)

lemma roster_extract_jid_short: "roster_extract_jid x d 64 = Some j \<Longrightarrow> length (cstr j) < 64"
  by (auto simp: roster_extract_jid_def Let_def cstr_simps min_def split: option.splits if_splits)

lemma roster_upsert_remove:
  assumes "array_ok 80 roster_ok s" "distinct (slot_keys roster_active roster_key s)" "length (cstr u) < 32"
    and j: "roster_extract_jid x (zbuf 64) 64 = Some j" and "is_remove x"
  shows "\<exists>s'. roster_upsert u x s = (0, s') \<and>
    slot_map roster_active roster_key v s' = (slot_map roster_active roster_key v s)((cstr u, cstr j) := None) \<and>
    distinct (slot_keys roster_active roster_key s')"
proof -
  let ?k = "(cstr u, cstr j)"
  have find: "roster_find u j s = first_index 80 (\<lambda>i. roster_active (s ! i) \<and> roster_key (s ! i) = ?k)"
    using roster.find_key [OF assms(1), of "(u, j, x)"] roster_extract_jid_short [OF j] assms(3)
    by (simp add: roster_find_def)
  have len: "length s = 80" using assms(1) by (rule array_ok_length)
  show ?thesis
  proof (cases "roster_find u j s")
    case None
    then have "?k \<notin> set (slot_keys roster_active roster_key s)"
      using slot_missing [of s roster_active roster_key ?k] by (auto simp: find first_index_None len)
    then have "slot_map roster_active roster_key v s ?k = None"
      by (simp add: slot_map_dom [symmetric, of _ _ _ v] domIff)
    with None assms show ?thesis by (simp add: roster_upsert_def Let_def fun_upd_idem)
  next
    case (Some i)
    then have i: "i < length s" "roster_active (s ! i)" "roster_key (s ! i) = ?k"
      by (auto simp: find first_index_Some len)
    with slot_release [OF assms(2) i(1) _ i(2,3), of "(s ! i)\<lparr>re_active := 0\<rparr>" v] Some assms
    show ?thesis by (simp add: roster_upsert_def Let_def)
  qed
qed

text \<open>C29: the roster store is a map.  Upserting an item without a contact address fails and changes
  nothing; an item with \<open>subscription='remove'\<close> deletes the pair of user and contact; any other
  item is stored under that pair, whatever was stored there before, unless all 80 slots are in use
  and the pair is new, when the call reports failure and changes nothing.  No other pair is
  affected, and no pair is ever stored twice.\<close>

theorem roster_upsert_map:
  fixes x :: cbuf
  assumes "world_ok w" and "roster_distinct w" and "length (cstr u) < 32"
  defines "res \<equiv> roster_store_upsert_item u x w"
  shows "roster_distinct (snd res) \<and>
    (case roster_extract_jid x (zbuf 64) 64 of
       None \<Rightarrow> res = (-1, w)
     | Some j \<Rightarrow>
         if is_remove x then fst res = 0 \<and> roster_map (snd res) = (roster_map w)((cstr u, cstr j) := None)
         else if fst res = 0 then roster_map (snd res) = (roster_map w)((cstr u, cstr j) \<mapsto> take 255 (cstr x))
         else res = (-1, w) \<and> (cstr u, cstr j) \<notin> dom (roster_map w) \<and> list_all roster_active (roster_store w))"
proof -
  have ok: "array_ok 80 roster_ok (roster_store w)" using assms(1) by (simp add: world_ok_def)
  note d = assms(2) [unfolded roster_distinct_def]
  show ?thesis
  proof (cases "roster_extract_jid x (zbuf 64) 64")
    case None
    then show ?thesis
      using assms(2) by (simp add: res_def roster_store_upsert_item_def roster_upsert_def)
  next
    case (Some j)
    note sh = roster_extract_jid_short [OF Some]
    show ?thesis
    proof (cases "is_remove x")
      case True
      then show ?thesis
        using roster_upsert_remove [OF ok d assms(3) Some True, of "cstr \<circ> re_item_xml"] Some
        by (auto simp: res_def roster_store_upsert_item_def roster_map_def roster_distinct_def)
    next
      case False
      note up = roster_upsert_slot [OF Some False, of u "roster_store w"]
      show ?thesis
        using roster.upsert_stored [OF ok _ d, of "(u, j, x)"] roster.upsert_full [OF ok, of "(u, j, x)"] sh assms(2,3) False Some
        by (cases "slot_upsert 80 (roster_matches (u, j, x)) roster_active (fill_roster u j x) (roster_store w)")
          (auto simp: res_def roster_store_upsert_item_def up roster_map_def roster_distinct_def)
    qed
  qed
qed

theorem roster_upsert_map_witness:
  "roster_map (snd (roster_store_upsert_item ''al'' ''<item jid='b@c'/>'' (empty_world no_disk))) (''al'', ''b@c'') =
     Some ''<item jid='b@c'/>''"
proof -
  let ?w = "empty_world no_disk" and ?x = "''<item jid='b@c'/>''"
  have d: "roster_distinct ?w"
    by (simp add: roster_distinct_def slot_keys_def empty_world_def boot_world_def zero_roster_def)
  have j: "roster_extract_jid ?x (zbuf 64) 64 = Some (strncpy_term (zbuf 64) (drop 11 ?x) 3)"
    by (simp add: roster_extract_jid_def strstr_def Let_def eval_nat_numeral)
  have free: "\<not> list_all roster_active (roster_store ?w)"
    by (simp add: empty_world_def boot_world_def zero_roster_def list_all_length exI [of _ 0])
  have r: "\<not> is_remove ?x" by (simp add: is_remove_def strstr_def)
  show ?thesis
    using roster_upsert_map [OF empty_world_ok d, of "''al''" ?x] free r
    by (simp add: j cstr_simps split: if_splits)
qed
subsection \<open>Listing the roster\<close>

lemma roster_items_loop_bound:
  "length out < n \<Longrightarrow> length (snd (roster_items_loop u n rs (c, out))) < n"
  by (induction u n rs "(c, out)" arbitrary: c out rule: roster_items_loop.induct) (auto simp: strlen_eq)

definition roster_of :: "cbuf \<Rightarrow> roster_entry_t \<Rightarrow> bool" where
  "roster_of u r \<longleftrightarrow> roster_active r \<and> take 32 (cstr (re_username r)) = take 32 (cstr u)"

lemma roster_items_loop_all:
  "length out + (\<Sum>r\<leftarrow>filter (roster_of u) rs. length (cstr (re_item_xml r))) < n - 1 \<Longrightarrow>
   roster_items_loop u n rs (c, out) =
     (c + length (filter (roster_of u) rs), out @ concat (map (cstr \<circ> re_item_xml) (filter (roster_of u) rs)))"
proof (induction rs arbitrary: c out)
  case (Cons r rs)
  show ?case
    using Cons.prems Cons.IH [of out c] Cons.IH [of "out @ cstr (re_item_xml r)" "c + 1"]
    by (cases "roster_of u r") (auto simp: strlen_eq strncmp_eq_0 roster_of_def)
qed simp

text \<open>Listing the roster.  The text \<open>roster_store_get_items\<close> writes always fits the buffer with
  its terminator, whatever is stored; and when the items of the user fit, the text is exactly their
  concatenation in slot order and the result is their number.\<close>

lemma roster_get_items_complete:
  fixes u :: cbuf
  defines "items w \<equiv> filter (roster_of u) (roster_store w)"
  shows "(0 < n \<longrightarrow> length (snd (roster_store_get_items u n w)) < n) \<and>
    ((\<Sum>r\<leftarrow>items w. length (cstr (re_item_xml r))) < n - 1 \<longrightarrow>
       roster_store_get_items u n w = (length (items w), concat (map (cstr \<circ> re_item_xml) (items w))))"
  using roster_items_loop_bound [of "[]" n u "roster_store w" 0]
    roster_items_loop_all [of "[]" u "roster_store w" n 0]
  by (simp add: roster_store_get_items_def items_def)

lemma roster_get_items_example:
  "roster_store_get_items ''al'' 2 (empty_world no_disk) = (0, [])"
proof -
  have "filter (roster_of ''al'') (roster_store (empty_world no_disk)) = []"
    by (simp add: roster_of_def empty_world_def boot_world_def zero_roster_def)
  then show ?thesis using roster_get_items_complete [of 2 "''al''" "empty_world no_disk"] by simp
qed

end
