(* ===== verification/Subs.thy ===== *)
theory Subs
  imports Store
begin

text \<open>
  Pending subscription requests and the lookup of connected clients, from the head of
  \<^verbatim>\<open>src/src/xmpp/xmpp_handlers.c\<close>.
\<close>

subsection \<open>Operations\<close>

definition pending_is :: "cbuf \<Rightarrow> cbuf \<Rightarrow> cbuf \<Rightarrow> pending_sub_t \<Rightarrow> bool" where
  "pending_is ty from to_user p \<longleftrightarrow> ps_active p \<noteq> 0 \<and>
     strcmp (ps_type p) ty = 0 \<and> strcmp (ps_from p) from = 0 \<and> strcmp (ps_to_user p) to_user = 0"

definition fill_pending :: "cbuf \<Rightarrow> cbuf \<Rightarrow> cbuf \<Rightarrow> pending_sub_t \<Rightarrow> pending_sub_t" where
  "fill_pending ty from to_user p =
     p\<lparr>ps_type := strncpy_term (ps_type p) ty 15, ps_from := strncpy_term (ps_from p) from 63,
       ps_to_user := strncpy_term (ps_to_user p) to_user 31, ps_active := 1\<rparr>"

text \<open>The slot a new request goes to: a free one, else one of the same user, else the first.\<close>

definition pending_slot :: "cbuf \<Rightarrow> pending_sub_t list \<Rightarrow> nat" where
  "pending_slot to_user s =
     (case first_index MAX_PENDING_SUBS (\<lambda>i. ps_active (s ! i) = 0) of
        Some i \<Rightarrow> i
      | None \<Rightarrow> (case first_index MAX_PENDING_SUBS (\<lambda>i. strcmp (ps_to_user (s ! i)) to_user = 0) of
                   Some i \<Rightarrow> i
                 | None \<Rightarrow> 0))"

definition pending_sub_enqueue :: "cbuf \<Rightarrow> cbuf \<Rightarrow> cbuf \<Rightarrow> world \<Rightarrow> world" where
  "pending_sub_enqueue ty from to_user w =
     (case first_index MAX_PENDING_SUBS (\<lambda>i. pending_is ty from to_user (pending_subs w ! i)) of
        Some i \<Rightarrow> w
      | None \<Rightarrow>
          let slot = pending_slot to_user (pending_subs w)
          in xmpp_persist_save_pending_subs
               (w\<lparr>pending_subs := (pending_subs w)[slot := fill_pending ty from to_user (pending_subs w ! slot)]\<rparr>))"

definition pending_fmt :: string where
  "pending_fmt = ''<presence type='%s' from='%s' to='%s'/>''"

definition pending_text :: "pending_sub_t \<Rightarrow> xmpp_client_ctx_t \<Rightarrow> string" where
  "pending_text p c = snprintf 256 pending_fmt [VStr (ps_type p), VStr (ps_from p), VStr (cl_full_jid c)]"

definition pending_drain_slot :: "nat \<Rightarrow> nat \<Rightarrow> world \<Rightarrow> world" where
  "pending_drain_slot ctx i w =
     (let p = pending_subs w ! i in
      if ps_active p = 0 then w
      else if strcmp (ps_to_user p) (cl_username (client w ctx)) \<noteq> 0 then w
      else let w1 = send_to ctx (pending_text p (client w ctx)) w
           in w1\<lparr>pending_subs := (pending_subs w1)[i := (pending_subs w1 ! i)\<lparr>ps_active := 0\<rparr>]\<rparr>)"

definition pending_sub_drain :: "nat \<Rightarrow> world \<Rightarrow> world" where
  "pending_sub_drain ctx w =
     xmpp_persist_save_pending_subs (for_range MAX_PENDING_SUBS (pending_drain_slot ctx) w)"

text \<open>A connected client that has reached the session: the two \<open>continue\<close> tests of every loop over
  the registry.\<close>

definition in_session :: "xmpp_client_ctx_t \<Rightarrow> bool" where
  "in_session c \<longleftrightarrow> cl_pcb c \<noteq> None \<and> \<not> cl_state c < STATE_SESSION"

definition jid_matches :: "cbuf \<Rightarrow> cbuf \<Rightarrow> bool" where
  "jid_matches full bare_jid \<longleftrightarrow>
     (let bare_len = strlen bare_jid in
      strncmp full bare_jid bare_len = 0 \<and>
      (deref (drop bare_len full) = CHR ''/'' \<or> deref (drop bare_len full) = NUL))"

definition find_client_by_jid :: "cbuf \<Rightarrow> world \<Rightarrow> nat option" where
  "find_client_by_jid bare_jid w =
     first_index MAX_USERS (\<lambda>i. in_session (client w i) \<and> jid_matches (cl_full_jid (client w i)) bare_jid)"

subsection \<open>Memory safety\<close>

lemma fill_pending_ok: "pending_ok p \<Longrightarrow> pending_ok (fill_pending t f u p)"
  by (simp add: pending_ok_def fill_pending_def buf_strncpy_term buf_length)

lemma world_ok_pending_update:
  "world_ok w \<Longrightarrow> (i < 32 \<Longrightarrow> pending_ok p) \<Longrightarrow> world_ok (w\<lparr>pending_subs := (pending_subs w)[i := p]\<rparr>)"
  by (auto simp: world_ok_def)

lemma world_ok_pending_nth: "world_ok w \<Longrightarrow> i < 32 \<Longrightarrow> pending_ok (pending_subs w ! i)"
  by (auto simp: world_ok_def dest: array_ok_nth)

lemma pending_slot_less: "pending_slot u s < 32"
  by (auto simp: pending_slot_def first_index_Some split: option.split)

lemma pending_sub_enqueue_ok: "world_ok w \<Longrightarrow> world_ok (pending_sub_enqueue t f u w)"
  by (auto simp: pending_sub_enqueue_def Let_def split: option.split
      intro!: world_ok_pending_update fill_pending_ok world_ok_pending_nth)

lemma pending_drain_slot_ok: "world_ok w \<Longrightarrow> world_ok (pending_drain_slot ctx i w)"
  using world_ok_pending_nth [of w i]
  by (auto simp: pending_drain_slot_def Let_def pending_ok_def
      intro!: world_ok_pending_update [OF world_ok_send_to, simplified])

lemma pending_sub_drain_ok: "world_ok w \<Longrightarrow> world_ok (pending_sub_drain ctx w)"
  unfolding pending_sub_drain_def world_ok_save
  by (rule for_range_invariant [where P = world_ok]) (simp_all add: pending_drain_slot_ok)

subsection \<open>Behaviour\<close>

definition pending_for :: "xmpp_client_ctx_t \<Rightarrow> pending_sub_t \<Rightarrow> bool" where
  "pending_for c p \<longleftrightarrow> ps_active p \<noteq> 0 \<and> cstr (ps_to_user p) = cstr (cl_username c)"

interpretation pending: mailbox pending_subs pending_drain_slot pending_for pending_text "\<lambda>p. p\<lparr>ps_active := 0\<rparr>"
proof (unfold_locales, goal_cases)
  case (1 c c' m)
  then show ?case by (simp add: pending_for_def pending_text_def send_frame_sel)
next
  case (2 i w ctx)
  then show ?case
    using send_to_client [of w ctx ctx]
    by (simp add: pending_drain_slot_def Let_def pending_for_def strcmp_eq_0)
next
  case (3 i w ctx)
  then show ?case by (auto simp: pending_drain_slot_def Let_def pending_for_def strcmp_eq_0)
qed

lemma pending_drain_effect:
  fixes ctx :: nat
  assumes "world_ok w"
  defines "c \<equiv> client w ctx"
  shows "pending_subs (pending_sub_drain ctx w) = map (\<lambda>p. if pending_for c p then p\<lparr>ps_active := 0\<rparr> else p) (pending_subs w) \<and>
    outbox (env (pending_sub_drain ctx w)) =
      outbox (env w) @ map (\<lambda>p. (cl_pcb c, cstr (pending_text p c))) (filter (pending_for c) (pending_subs w)) \<and>
    send_frame c (client (pending_sub_drain ctx w) ctx)"
proof -
  have len: "length (pending_subs w) = 32" using assms(1) by (auto simp: world_ok_def dest: array_ok_length)
  show ?thesis using pending.drain_all [OF len, of ctx] by (simp add: pending_sub_drain_def c_def)
qed

lemma pending_is_iff:
  "pending_is t f u p \<longleftrightarrow> ps_active p \<noteq> 0 \<and> cstr (ps_type p) = cstr t \<and> cstr (ps_from p) = cstr f \<and> cstr (ps_to_user p) = cstr u"
  by (simp add: pending_is_def strcmp_eq_0)



lemma deref_eq_char: "c \<noteq> NUL \<Longrightarrow> deref s = c \<longleftrightarrow> prefix [c] (cstr s)"
  by (cases s) auto

lemma jid_matches_iff:
  "jid_matches full b \<longleftrightarrow> cstr full = cstr b \<or> prefix (cstr b @ ''/'') (cstr full)"
proof -
  have pre: "strncmp full b (strlen b) = 0 \<longleftrightarrow> prefix (cstr b) (cstr full)"
    by (auto simp: strncmp_eq_0 strlen_eq prefix_def) (metis append_take_drop_id)
  show ?thesis
  proof (cases "prefix (cstr b) (cstr full)")
    case True
    then obtain r where r: "cstr full = cstr b @ r" by (auto elim: prefixE)
    then have "cstr (drop (length (cstr b)) full) = r" by (simp add: cstr_drop)
    with True r show ?thesis
      by (auto simp: jid_matches_def Let_def pre [unfolded strlen_eq] strlen_eq deref_eq_NUL deref_eq_char)
  next
    case False
    then show ?thesis by (auto simp: jid_matches_def Let_def pre elim!: prefixE)
  qed
qed

lemma find_client_Some:
  "find_client_by_jid b w = Some i \<Longrightarrow> i < 20 \<and> in_session (client w i) \<and>
     (cstr (cl_full_jid (client w i)) = cstr b \<or> prefix (cstr b @ ''/'') (cstr (cl_full_jid (client w i))))"
  by (simp add: find_client_by_jid_def first_index_Some jid_matches_iff)

lemma find_client_None:
  "find_client_by_jid b w = None \<longleftrightarrow> (\<forall>i<20. in_session (client w i) \<longrightarrow>
     cstr (cl_full_jid (client w i)) \<noteq> cstr b \<and> \<not> prefix (cstr b @ ''/'') (cstr (cl_full_jid (client w i))))"
  by (auto simp: find_client_by_jid_def first_index_None jid_matches_iff)

end
