(* ===== verification/Iq.thy ===== *)
theory Iq
  imports Subs
begin

text \<open>
  The handlers of \<^verbatim>\<open>src/src/xmpp/xmpp_handlers.c\<close> that answer an information query without
  a store of their own: block list, version, last activity, ping, resource binding, session and
  service discovery.  A handler is a function of the index of the client, the stanza and the world.
\<close>

subsection \<open>Shared pieces\<close>

definition iq_result_fmt :: string where
  "iq_result_fmt = ''<iq type='result' id='%s' to='%s'/>''"

definition iq_result :: "nat \<Rightarrow> nat \<Rightarrow> xmpp_stanza_t \<Rightarrow> world \<Rightarrow> world" where
  "iq_result n ctx st w =
     send_to ctx (snprintf n iq_result_fmt [VStr (st_id st), VStr (cl_full_jid (client w ctx))]) w"

text \<open>A reply whose format names the id and the address of the client, and one that names the
  addressee of the request first.\<close>

definition reply_id_to :: "nat \<Rightarrow> string \<Rightarrow> nat \<Rightarrow> xmpp_stanza_t \<Rightarrow> world \<Rightarrow> world" where
  "reply_id_to n fmt ctx st w =
     send_to ctx (snprintf n fmt [VStr (st_id st), VStr (cl_full_jid (client w ctx))]) w"

definition reply_from_to :: "nat \<Rightarrow> string \<Rightarrow> va_arg list \<Rightarrow> nat \<Rightarrow> xmpp_stanza_t \<Rightarrow> world \<Rightarrow> world" where
  "reply_from_to n fmt extra ctx st w =
     send_to ctx (snprintf n fmt
       ([VStr (st_to st), VStr (cl_full_jid (client w ctx)), VStr (st_id st)] @ extra)) w"

definition room_by_name :: "cbuf \<Rightarrow> world \<Rightarrow> nat option" where
  "room_by_name name w =
     first_index MAX_ROOMS (\<lambda>i. rm_active (room w i) \<noteq> 0 \<and> strcmp (rm_name (room w i)) name = 0)"

text \<open>\<open>char b[64] = {0}; strncpy(b, jid, 63);\<close> with the resource cut off at the slash.\<close>

definition bare_buf :: "cbuf \<Rightarrow> cbuf" where
  "bare_buf jid =
     (let b = strncpy (zbuf 64) jid 63 in
      case strchr b CHR ''/'' of Some k \<Rightarrow> poke b k NUL | None \<Rightarrow> b)"

text \<open>The local part of an address, cut to a room name.\<close>

definition room_name_of :: "cbuf \<Rightarrow> nat \<Rightarrow> cbuf" where
  "room_name_of addr at = strncpy (zbuf 32) addr (if at \<ge> 32 then 31 else at)"

subsection \<open>Small queries\<close>

definition blocklist_fmt :: string where
  "blocklist_fmt = ''<iq type='result' id='%s' to='%s'><blocklist xmlns='urn:xmpp:blocking'/></iq>''"

definition handle_blocklist :: "nat \<Rightarrow> xmpp_stanza_t \<Rightarrow> world \<Rightarrow> world" where
  "handle_blocklist ctx st w =
     (if st_type st = XMPP_IQ_GET then reply_id_to 256 blocklist_fmt ctx st w else iq_result 256 ctx st w)"

definition version_fmt :: string where
  "version_fmt = ''<iq type='result' id='%s' from='angelic.local' to='%s'><query xmlns='jabber:iq:version'><name>AngelicKernel xmpp</name><version>1.0</version><os>bare metal uefi</os></query></iq>''"

definition handle_version :: "nat \<Rightarrow> xmpp_stanza_t \<Rightarrow> world \<Rightarrow> world" where
  "handle_version ctx st w = reply_id_to 1024 version_fmt ctx st w"

definition last_fmt :: string where
  "last_fmt = ''<iq type='result' id='%s' from='angelic.local' to='%s'><query xmlns='jabber:iq:last' seconds='0'/></iq>''"

definition handle_last :: "nat \<Rightarrow> xmpp_stanza_t \<Rightarrow> world \<Rightarrow> world" where
  "handle_last ctx st w = reply_id_to 256 last_fmt ctx st w"

definition handle_ping :: "nat \<Rightarrow> xmpp_stanza_t \<Rightarrow> world \<Rightarrow> world" where
  "handle_ping ctx st w = iq_result 256 ctx st w"

definition handle_general_success :: "nat \<Rightarrow> xmpp_stanza_t \<Rightarrow> world \<Rightarrow> world" where
  "handle_general_success ctx st w = iq_result 1024 ctx st w"

subsection \<open>Resource binding\<close>

definition bind_err_id_fmt :: string where
  "bind_err_id_fmt = ''<iq type='error' from='%s' to='%s' id='%s'><error type='cancel'><unexpected-request xmlns='urn:ietf:params:xml:ns:xmpp-stanzas'/></error></iq>''"

definition bind_err_fmt :: string where
  "bind_err_fmt = ''<iq type='error' from='%s' to='%s'><error type='cancel'><unexpected-request xmlns='urn:ietf:params:xml:ns:xmpp-stanzas'/></error></iq>''"

definition bind_error :: "nat \<Rightarrow> xmpp_stanza_t \<Rightarrow> world \<Rightarrow> world" where
  "bind_error ctx st w =
     (let from_jid = (if deref (st_to st) \<noteq> NUL then st_to st else XMPP_DOMAIN);
          to_jid = (if deref (cl_full_jid (client w ctx)) \<noteq> NUL then cl_full_jid (client w ctx) else ''unknown'')
      in send_to ctx
           (if deref (st_id st) \<noteq> NUL
            then snprintf 512 bind_err_id_fmt [VStr from_jid, VStr to_jid, VStr (st_id st)]
            else snprintf 512 bind_err_fmt [VStr from_jid, VStr to_jid]) w)"

definition conflict_err :: string where
  "conflict_err = ''<stream:error><conflict xmlns='urn:ietf:params:xml:ns:xmpp-stanzas'/></stream:error></stream:stream>''"

text \<open>Closing an older connection of the same user.\<close>

definition evict :: "cx \<Rightarrow> cx" where
  "evict x =
     (case x of (c, e) \<Rightarrow>
        let (c1, e1) =
              (if cl_tls_established c then
                 (let (r, (c', e')) = ssl_write conflict_err (c, e)
                  in (c', if cl_pcb c' \<noteq> None then tcp_output (cl_pcb c') e' else e'))
               else if cl_pcb c \<noteq> None then
                 (c, tcp_output (cl_pcb c) (snd (tcp_write (cl_pcb c) conflict_err e)))
               else (c, e));
            (c2, e2) = xmpp_tls_client_free (c1, e1)
        in (zero_client, tcp_close (cl_pcb c2) e2))"

definition bind_conflict :: "nat \<Rightarrow> nat \<Rightarrow> world \<Rightarrow> world" where
  "bind_conflict ctx i w =
     (if i = ctx then w
      else if cl_pcb (client w i) = None then w
      else if strcmp (cl_username (client w i)) (cl_username (client w ctx)) = 0 then on_client i evict w
      else w)"

definition bind_jid_fmt :: string where
  "bind_jid_fmt = ''%s@%s/unikernel-%d''"

definition bind_fmt :: string where
  "bind_fmt = ''<iq type='result' id='%s'><bind xmlns='urn:ietf:params:xml:ns:xmpp-bind'><jid>%s</jid></bind></iq>''"

definition handle_core_bind :: "nat \<Rightarrow> xmpp_stanza_t \<Rightarrow> world \<Rightarrow> world" where
  "handle_core_bind ctx st w =
     (if cl_state (client w ctx) \<noteq> STATE_BIND then bind_error ctx st w
      else
        let (r, g) = secure_random_u32 (env_rng (env w));
            resource_id = r mod 9999;
            w1 = w\<lparr>env := (env w)\<lparr>env_rng := g\<rparr>\<rparr>;
            w2 = upd_client ctx (\<lambda>c. c\<lparr>cl_full_jid :=
                   snprintf_buf (cl_full_jid c) 64 bind_jid_fmt
                     [VStr (cl_username c), VStr XMPP_DOMAIN, VInt (uint resource_id)]\<rparr>) w1;
            w3 = for_range MAX_USERS (bind_conflict ctx) w2;
            w4 = send_to ctx (snprintf 1024 bind_fmt [VStr (st_id st), VStr (cl_full_jid (client w3 ctx))]) w3
        in upd_client ctx (\<lambda>c. c\<lparr>cl_state := STATE_SESSION\<rparr>) w4)"

definition session_fmt :: string where
  "session_fmt = ''<iq type='result' id='%s'/>''"

definition handle_core_session :: "nat \<Rightarrow> xmpp_stanza_t \<Rightarrow> world \<Rightarrow> world" where
  "handle_core_session ctx st w =
     upd_client ctx (\<lambda>c. c\<lparr>cl_state := STATE_READY\<rparr>)
       (send_to ctx (snprintf 256 session_fmt [VStr (st_id st)]) w)"

subsection \<open>Service discovery\<close>

definition item_not_found_fmt :: string where
  "item_not_found_fmt = ''<iq type='error' from='%s' to='%s' id='%s'><error type='cancel'><item-not-found xmlns='urn:ietf:params:xml:ns:xmpp-stanzas'/></error></iq>''"

definition room_info_fmt :: string where
  "room_info_fmt = ''<iq type='result' from='%s' to='%s' id='%s'><query xmlns='http://jabber.org/protocol/disco#info'><identity category='conference' type='text' name='%s'/><feature var='http://jabber.org/protocol/muc'/>%s%s%s%s</query></iq>''"

definition service_info_fmt :: string where
  "service_info_fmt = ''<iq type='result' from='%s' to='%s' id='%s'><query xmlns='http://jabber.org/protocol/disco#info'><identity category='conference' type='text' name='chat service'/><feature var='http://jabber.org/protocol/muc'/></query></iq>''"

definition caps_forward_fmt :: string where
  "caps_forward_fmt = ''<iq type='get' from='%s' to='%s' id='%s'><query xmlns='http://jabber.org/protocol/disco#info' %s/></iq>''"

definition unavailable_fmt :: string where
  "unavailable_fmt = ''<iq type='error' from='%s' to='%s' id='%s'><error type='cancel' code='503'><service-unavailable xmlns='urn:ietf:params:xml:ns:xmpp-stanzas'/></error></iq>''"

definition account_info_fmt :: string where
  "account_info_fmt = ''<iq type='result' from='%s' to='%s' id='%s'><query xmlns='http://jabber.org/protocol/disco#info'><identity category='account' type='registered'/></query></iq>''"

definition server_info_fmt :: string where
  "server_info_fmt = ''<iq type='result' from='%s' to='%s' id='%s'><query xmlns='http://jabber.org/protocol/disco#info'><identity category='server' type='im' name='unikernel xmpp'/><feature var='http://jabber.org/protocol/muc'/><feature var='jabber:iq:register'/><feature var='msgoffline'/></query></iq>''"

definition room_features :: "room_t \<Rightarrow> va_arg list" where
  "room_features r =
     [VStr (if rm_semi_anon r \<noteq> 0 then ''<feature var='muc_semianonymous'/>'' else ''<feature var='muc_nonanonymous'/>''),
      VStr (if rm_persistent r \<noteq> 0 then ''<feature var='muc_persistent'/>'' else ''<feature var='muc_temporary'/>''),
      VStr (if rm_moderated r \<noteq> 0 then ''<feature var='muc_moderated'/>'' else ''<feature var='muc_unmoderated'/>''),
      VStr (if rm_members_only r \<noteq> 0 then ''<feature var='muc_membersonly'/>'' else ''<feature var='muc_open'/>'')]"

definition forward_caps :: "nat \<Rightarrow> xmpp_stanza_t \<Rightarrow> world \<Rightarrow> world" where
  "forward_caps ctx st w =
     (case first_index MAX_USERS (\<lambda>i. in_session (client w i) \<and>
             strcmp (bare_buf (st_to st)) (bare_buf (cl_full_jid (client w i))) = 0) of
        Some i \<Rightarrow>
          send_to i (snprintf 1024 caps_forward_fmt
            [VStr (cl_full_jid (client w ctx)), VStr (cl_full_jid (client w i)), VStr (st_id st),
             VStr (if deref (st_payload st) = CHR ''<'' then [] else st_payload st)]) w
      | None \<Rightarrow> reply_from_to 1024 unavailable_fmt [] ctx st w)"

definition handle_disco_info :: "nat \<Rightarrow> xmpp_stanza_t \<Rightarrow> world \<Rightarrow> world" where
  "handle_disco_info ctx st w =
     (let at = strchr (st_to st) CHR ''@'' in
      if at \<noteq> None \<and> strstr (st_to st) ''conference.angelic.local'' \<noteq> None then
        (let room_len = the at;
             room_name = (if room_len < 32 then strncpy (zbuf 32) (st_to st) room_len else zbuf 32)
         in case room_by_name room_name w of
              Some r \<Rightarrow> reply_from_to 1280 room_info_fmt (VStr room_name # room_features (room w r)) ctx st w
            | None \<Rightarrow> reply_from_to 1024 item_not_found_fmt [] ctx st w)
      else if strcmp (st_to st) ''conference.angelic.local'' = 0 then
        reply_from_to 1024 service_info_fmt [] ctx st w
      else if at \<noteq> None \<and> strstr (st_to st) ''conference'' = None then
        (if strstr (st_payload st) ''node='' \<noteq> None then forward_caps ctx st w
         else reply_from_to 1024 account_info_fmt [] ctx st w)
      else reply_from_to 1024 server_info_fmt [] ctx st w)"

definition occupant_item_fmt :: string where
  "occupant_item_fmt = ''<item jid='%s/%s' name='%s'/>''"

definition room_item_fmt :: string where
  "room_item_fmt = ''<item jid='%s@conference.angelic.local' name='%s'/>''"

definition items_fmt :: string where
  "items_fmt = ''<iq type='result' from='%s' to='%s' id='%s'><query xmlns='http://jabber.org/protocol/disco#items'>%s</query></iq>''"

definition services_fmt :: string where
  "services_fmt = ''<iq type='result' from='%s' to='%s' id='%s'><query xmlns='http://jabber.org/protocol/disco#items'><item jid='conference.angelic.local' name='chatroom service'/></query></iq>''"

text \<open>\<open>strcat\<close> into a \<open>char[1536]\<close> that is skipped when the text does not fit.\<close>

definition cat_fit :: "string \<Rightarrow> string \<Rightarrow> string" where
  "cat_fit items item = (if length items + length (cstr item) < 1536 - 1 then items @ cstr item else items)"

definition occupant_items :: "cbuf \<Rightarrow> room_t \<Rightarrow> string" where
  "occupant_items addr r =
     for_range MAX_USERS_PER_ROOM
       (\<lambda>ui items. if pt_active (rm_users r ! ui)
          then cat_fit items (snprintf 256 occupant_item_fmt
                 [VStr addr, VStr (pt_nick (rm_users r ! ui)), VStr (pt_nick (rm_users r ! ui))])
          else items) []"

definition room_items :: "world \<Rightarrow> string" where
  "room_items w =
     for_range MAX_ROOMS
       (\<lambda>i items. if rm_active (room w i) \<noteq> 0
          then cat_fit items (snprintf 256 room_item_fmt [VStr (rm_name (room w i)), VStr (rm_name (room w i))])
          else items) []"

definition handle_disco_items :: "nat \<Rightarrow> xmpp_stanza_t \<Rightarrow> world \<Rightarrow> world" where
  "handle_disco_items ctx st w =
     (if strstr (st_to st) ''conference.angelic.local'' \<noteq> None then
        (case strchr (st_to st) CHR ''@'' of
           Some (Suc k) \<Rightarrow>
             (case room_by_name (room_name_of (st_to st) (Suc k)) w of
                Some r \<Rightarrow> reply_from_to 2048 items_fmt [VStr (occupant_items (st_to st) (room w r))] ctx st w
              | None \<Rightarrow> reply_from_to 2048 item_not_found_fmt [] ctx st w)
         | _ \<Rightarrow> reply_from_to 2048 items_fmt [VStr (room_items w)] ctx st w)
      else
        send_to ctx (snprintf 2048 services_fmt
          [VStr (if strlen (st_to st) > 0 then st_to st else XMPP_DOMAIN),
           VStr (cl_full_jid (client w ctx)), VStr (st_id st)]) w)"

subsection \<open>Memory safety\<close>

named_theorems handler_ok

lemmas [handler_ok] = world_ok_send_to

lemma reply_ok [handler_ok]:
  "world_ok w \<Longrightarrow> world_ok (iq_result n ctx st w)"
  "world_ok w \<Longrightarrow> world_ok (reply_id_to n fmt ctx st w)"
  "world_ok w \<Longrightarrow> world_ok (reply_from_to n fmt extra ctx st w)"
  by (simp_all add: iq_result_def reply_id_to_def reply_from_to_def world_ok_send_to)

lemma client_ok_sel_update:
  "client_ok c \<Longrightarrow> client_ok (c\<lparr>cl_state := s\<rparr>)"
  "client_ok c \<Longrightarrow> client_ok (c\<lparr>cl_full_jid := snprintf_buf (cl_full_jid c) 64 fmt args\<rparr>)"
  by (simp_all add: client_ok_def buf_def buf_simps)

lemma world_ok_env [simp]: "world_ok (w\<lparr>env := e\<rparr>) \<longleftrightarrow> world_ok w"
  by (simp add: world_ok_def)

lemma evict_fst: "fst (evict x) = zero_client"
  by (simp add: evict_def Let_def case_prod_beta)

lemma bind_conflict_ok: "world_ok w \<Longrightarrow> world_ok (bind_conflict ctx i w)"
  by (simp add: bind_conflict_def world_ok_on_client evict_fst)

lemma bind_error_ok: "world_ok w \<Longrightarrow> world_ok (bind_error ctx st w)"
  by (simp add: bind_error_def Let_def world_ok_send_to)

lemma bind_conflicts_ok: "world_ok w \<Longrightarrow> world_ok (for_range n (bind_conflict ctx) w)"
  by (rule for_range_invariant [where P = world_ok]) (simp_all add: bind_conflict_ok)

lemma handle_core_bind_ok [handler_ok]: "world_ok w \<Longrightarrow> world_ok (handle_core_bind ctx st w)"
  unfolding handle_core_bind_def Let_def case_prod_beta
  by (auto intro!: bind_error_ok world_ok_upd_client world_ok_send_to bind_conflicts_ok client_ok_sel_update)

lemma iq_handlers_ok [handler_ok]:
  "world_ok w \<Longrightarrow> world_ok (handle_blocklist ctx st w)"
  "world_ok w \<Longrightarrow> world_ok (handle_version ctx st w)"
  "world_ok w \<Longrightarrow> world_ok (handle_last ctx st w)"
  "world_ok w \<Longrightarrow> world_ok (handle_ping ctx st w)"
  "world_ok w \<Longrightarrow> world_ok (handle_general_success ctx st w)"
  "world_ok w \<Longrightarrow> world_ok (handle_core_session ctx st w)"
  by (simp_all add: handle_blocklist_def handle_version_def handle_last_def handle_ping_def
      handle_general_success_def handle_core_session_def handler_ok world_ok_upd_client client_ok_sel_update)

lemma disco_handlers_ok [handler_ok]:
  "world_ok w \<Longrightarrow> world_ok (handle_disco_info ctx st w)"
  "world_ok w \<Longrightarrow> world_ok (handle_disco_items ctx st w)"
  by (auto simp: handle_disco_info_def handle_disco_items_def forward_caps_def Let_def handler_ok
      split: option.split nat.split)

subsection \<open>One session per user\<close>

lemma upd_client_sel [simp]:
  "rooms (upd_client i f w) = rooms w" "roster_store (upd_client i f w) = roster_store w"
  "private_store (upd_client i f w) = private_store w" "offline_store (upd_client i f w) = offline_store w"
  "pending_subs (upd_client i f w) = pending_subs w" "env (upd_client i f w) = env w"
  "disk_dev (upd_client i f w) = disk_dev w" "stanza_pool (upd_client i f w) = stanza_pool w"
  "roster_version (upd_client i f w) = roster_version w" "client_idx (upd_client i f w) = client_idx w"
  "length (client_registry (upd_client i f w)) = length (client_registry w)"
  by (simp_all add: upd_client_def)

lemma upd_client_same [simp]: "i < length (client_registry w) \<Longrightarrow> client (upd_client i f w) i = f (client w i)"
  by (simp add: upd_client_def)

lemma upd_client_other [simp]: "i \<noteq> j \<Longrightarrow> client (upd_client i f w) j = client w j"
  by (simp add: upd_client_def)

lemma on_client_other [simp]: "i \<noteq> j \<Longrightarrow> client (on_client i f w) j = client w j"
  by (simp add: on_client_def Let_def case_prod_beta)

lemma on_client_same: "i < length (client_registry w) \<Longrightarrow> client (on_client i f w) i = fst (f (client w i, env w))"
  by (simp add: on_client_def Let_def case_prod_beta)

lemma send_to_other [simp]: "i \<noteq> j \<Longrightarrow> client (send_to i d w) j = client w j"
  by (simp add: send_to_def)

text \<open>What the loop over the registry has done to the clients before \<open>k\<close>.\<close>

definition evicted :: "nat \<Rightarrow> world \<Rightarrow> nat \<Rightarrow> bool" where
  "evicted ctx w i \<longleftrightarrow> i \<noteq> ctx \<and> cl_pcb (client w i) \<noteq> None \<and>
     cstr (cl_username (client w i)) = cstr (cl_username (client w ctx))"

lemma bind_conflict_client:
  assumes "length (client_registry w) = 20"
  shows "client (for_range 20 (bind_conflict ctx) w) i =
    (if i < 20 \<and> evicted ctx w i then zero_client else client w i)"
proof -
  let ?P = "\<lambda>k s. length (client_registry s) = 20 \<and>
    (\<forall>i. client s i = (if i < k \<and> evicted ctx w i then zero_client else client w i))"
  have "?P 20 (for_range 20 (bind_conflict ctx) w)"
  proof (rule for_range_indexed_invariant [where P = ?P])
    fix k s assume k: "k < (20::nat)" and P: "?P k s"
    have c: "client s ctx = client w ctx" "client s k = client w k" using P by (simp_all add: evicted_def)
    show "?P (Suc k) (bind_conflict ctx k s)"
    proof (cases "evicted ctx w k")
      case True
      then have "bind_conflict ctx k s = on_client k evict s"
        by (auto simp: bind_conflict_def evicted_def c strcmp_eq_0)
      moreover have "client (on_client k evict s) i = (if i = k then zero_client else client s i)" for i
        using k P on_client_same [of k s evict] by (simp add: evict_fst)
      ultimately show ?thesis using P True by (auto simp: less_Suc_eq)
    next
      case False
      then have "bind_conflict ctx k s = s"
        by (auto simp: bind_conflict_def evicted_def c strcmp_eq_0)
      then show ?thesis using P False by (auto simp: less_Suc_eq)
    qed
  qed (use assms in auto)
  then show ?thesis by simp
qed

lemma render_eval:
  "render [] args = []"
  "render (c # s) args =
     (if c = NUL then [] else if c \<noteq> CHR ''%'' then c # render s args
      else (case length_modifier s of (l, z, f) \<Rightarrow>
        (case convert_full (deref f) l z args of (out, as) \<Rightarrow> out @ render (tl f) as)))"
  by (subst render.simps; simp)+

lemma dec_digits_length: "n < 10 ^ k \<Longrightarrow> 0 < k \<Longrightarrow> length (dec_digits n) \<le> k"
proof (induction n arbitrary: k rule: dec_digits.induct)
  case (1 n)
  show ?case
  proof (cases "n \<ge> 10")
    case True
    with 1 have "1 < k" by (cases "k = 1") auto
    moreover have "n div 10 < 10 ^ (k - 1)" using "1.prems" by (cases k) (auto simp: less_mult_imp_div_less mult.commute)
    ultimately show ?thesis using "1.IH" [OF True, of "k - 1"] True by (subst dec_digits.simps) simp
  next
    case False
    then show ?thesis using "1.prems" by (subst dec_digits.simps) simp
  qed
qed

lemma NUL_notin_dec_digits: "NUL \<notin> set (dec_digits n)"
proof (induction n rule: dec_digits.induct)
  case (1 n)
  have "(char_of (n mod 10 + 48) :: char) \<noteq> NUL"
    by (simp add: char_of_eq_iff take_bit_eq_mod)
  with 1 show ?case by (subst dec_digits.simps) auto
qed

lemma bind_jid:
  assumes "buf 32 u" and "k < 9999"
  shows "cstr (snprintf 64 bind_jid_fmt [VStr u, VStr XMPP_DOMAIN, VInt (int k)]) =
    cstr u @ ''@angelic.local/unikernel-'' @ dec_digits k"
proof -
  have "sint (word_of_int (int k) :: u32) = int k"
    using assms(2) by (subst sint_sbintrunc') (simp add: signed_take_bit_int_eq_self)
  then have "va_long False (VInt (int k)) = int k" by simp
  then have "render bind_jid_fmt [VStr u, VStr XMPP_DOMAIN, VInt (int k)] = cstr u @ ''@angelic.local/unikernel-'' @ dec_digits k"
    by (simp add: bind_jid_fmt_def render_eval length_modifier_def convert_full_def va_next_def dec_int_def)
  moreover have "ptr_free bind_jid_fmt" by (simp add: bind_jid_fmt_def ptr_free_eval length_modifier_def)
  moreover have "length (dec_digits k) \<le> 4" using assms(2) by (intro dec_digits_length) simp_all
  moreover have "length (cstr u) < 32" using assms(1) by (rule buf_length_cstr)
  ultimately show ?thesis
    by (simp add: snprintf_truncates cstr_NUL_free NUL_notin_dec_digits)
qed
text \<open>C14: binding a resource gives the user one session.  In state \<open>STATE_BIND\<close> the handler moves
  the client to \<open>STATE_SESSION\<close> under the address \<open>user@angelic.local/unikernel-n\<close>, which is never
  cut; every other connection of the same user is closed and its context cleared, and no client of
  another user is touched.  In any other state the client stays as it is.\<close>

theorem bind_single_session:
  fixes st :: xmpp_stanza_t
  assumes "world_ok w" and "ctx < 20"
  defines "w' \<equiv> handle_core_bind ctx st w"
  shows "if cl_state (client w ctx) = STATE_BIND
    then cl_state (client w' ctx) = STATE_SESSION \<and>
      (\<exists>n<9999. cstr (cl_full_jid (client w' ctx)) =
         cstr (cl_username (client w ctx)) @ ''@angelic.local/unikernel-'' @ dec_digits n) \<and>
      (\<forall>i<20. i \<noteq> ctx \<longrightarrow>
         client w' i = (if cl_pcb (client w i) \<noteq> None \<and> cstr (cl_username (client w i)) = cstr (cl_username (client w ctx))
                        then zero_client else client w i))
    else send_frame (client w ctx) (client w' ctx) \<and> (\<forall>i. i \<noteq> ctx \<longrightarrow> client w' i = client w i)"
proof (cases "cl_state (client w ctx) = STATE_BIND")
  case True
  define rid where "rid = fst (secure_random_u32 (env_rng (env w))) mod 9999"
  define j where "j = snprintf_buf (cl_full_jid (client w ctx)) 64 bind_jid_fmt
    [VStr (cl_username (client w ctx)), VStr XMPP_DOMAIN, VInt (uint rid)]"
  define w2 where "w2 = upd_client ctx (\<lambda>c. c\<lparr>cl_full_jid :=
      snprintf_buf (cl_full_jid c) 64 bind_jid_fmt [VStr (cl_username c), VStr XMPP_DOMAIN, VInt (uint rid)]\<rparr>)
    (w\<lparr>env := (env w)\<lparr>env_rng := snd (secure_random_u32 (env_rng (env w)))\<rparr>\<rparr>)"
  define w3 where "w3 = for_range 20 (bind_conflict ctx) w2"
  define msg where "msg = snprintf 1024 bind_fmt [VStr (st_id st), VStr (cl_full_jid (client w3 ctx))]"
  have w': "w' = upd_client ctx (\<lambda>c. c\<lparr>cl_state := STATE_SESSION\<rparr>) (send_to ctx msg w3)"
    using True by (simp add: w'_def handle_core_bind_def Let_def case_prod_beta w3_def w2_def rid_def msg_def)
  have len: "length (client_registry w2) = 20" "length (client_registry w) = 20"
    using world_ok_lengths(1) [OF assms(1)] by (simp_all add: w2_def)
  have c2: "client w2 i = (if i = ctx then (client w ctx)\<lparr>cl_full_jid := j\<rparr> else client w i)" for i
    using assms(2) len by (simp add: w2_def j_def upd_client_def)
  have ev: "evicted ctx w2 i \<longleftrightarrow> evicted ctx w i" for i by (simp add: evicted_def c2)
  have c3: "client w3 i = (if i < 20 \<and> evicted ctx w i then zero_client else client w2 i)" for i
    unfolding w3_def using bind_conflict_client [OF len(1)] by (simp add: ev)
  have "world_ok w2" using assms(1) by (auto simp: w2_def intro!: world_ok_upd_client client_ok_sel_update)
  note len3 = world_ok_lengths(1) [OF bind_conflicts_ok [OF this], of 20 ctx, folded w3_def]
  have self: "client w3 ctx = (client w ctx)\<lparr>cl_full_jid := j\<rparr>" by (simp add: c3 c2 evicted_def)
  have "unat rid < 9999" by (simp add: rid_def unat_mod_distrib)
  moreover have "uint rid = int (unat rid)" by simp
  ultimately have "\<exists>n<9999. cstr j = cstr (cl_username (client w ctx)) @ ''@angelic.local/unikernel-'' @ dec_digits n"
    using bind_jid [of "cl_username (client w ctx)" "unat rid"] world_ok_client [OF assms(1,2)]
    by (intro exI [of _ "unat rid"]) (simp add: j_def cstr_simps client_ok_def)
  with True len3 assms(2) self show ?thesis
    by (auto simp: w' c3 c2 evicted_def)
next
  case False
  then show ?thesis using send_to_client [of w ctx ctx] by (simp add: w'_def handle_core_bind_def bind_error_def Let_def)
qed

theorem bind_single_session_witness:
  "cl_state (client (handle_core_bind 0 zero_stanza (upd_client 0 (\<lambda>c. c\<lparr>cl_state := STATE_BIND\<rparr>) (users_world [(''bob'', 7)]))) 0) = STATE_SESSION"
proof -
  let ?w = "upd_client 0 (\<lambda>c. c\<lparr>cl_state := STATE_BIND\<rparr>) (users_world [(''bob'', 7)])"
  have ok: "world_ok ?w" by (intro world_ok_upd_client users_world_ok client_ok_sel_update)
  have "cl_state (client ?w 0) = STATE_BIND" by (simp add: upd_client_def users_world_def)
  then show ?thesis using bind_single_session [OF ok, of 0 zero_stanza] by simp
qed

subsection \<open>Listings are complete\<close>

definition room_item :: "room_t \<Rightarrow> string" where
  "room_item r = ''<item jid='' @ APOS # cstr (rm_name r) @ ''@conference.angelic.local'' @ APOS # '' name='' @
     APOS # cstr (rm_name r) @ APOS # ''/>''"

definition occupant_item :: "cbuf \<Rightarrow> participant_t \<Rightarrow> string" where
  "occupant_item addr u = ''<item jid='' @ APOS # cstr addr @ CHR ''/'' # cstr (pt_nick u) @ APOS # '' name='' @
     APOS # cstr (pt_nick u) @ APOS # ''/>''"

lemma room_item_text:
  "buf 32 (rm_name r) \<Longrightarrow> cstr (snprintf 256 room_item_fmt [VStr (rm_name r), VStr (rm_name r)]) = room_item r \<and>
     length (room_item r) \<le> 120"
  by (simp add: snprintf_truncates room_item_fmt_def ptr_free_eval render_eval length_modifier_def convert_full_def
      va_next_def room_item_def cstr_NUL_free) (drule buf_length_cstr, simp add: cstr_NUL_free)

lemma occupant_item_text:
  "buf 64 addr \<Longrightarrow> buf 32 (pt_nick u) \<Longrightarrow>
     cstr (snprintf 256 occupant_item_fmt [VStr addr, VStr (pt_nick u), VStr (pt_nick u)]) = occupant_item addr u \<and>
     length (occupant_item addr u) \<le> 180"
  by (simp add: snprintf_truncates occupant_item_fmt_def ptr_free_eval render_eval length_modifier_def convert_full_def
      va_next_def occupant_item_def cstr_NUL_free) (drule buf_length_cstr, drule buf_length_cstr, simp add: cstr_NUL_free)

lemma cat_fit_all:
  assumes "length xs = n" and "\<And>x. x \<in> set xs \<Longrightarrow> P x \<Longrightarrow> cstr (f x) = g x \<and> length (g x) \<le> b" and "n * b < 1535"
  shows "for_range n (\<lambda>i items. if P (xs ! i) then cat_fit items (f (xs ! i)) else items) [] = concat (map g (filter P xs))"
proof -
  let ?I = "\<lambda>k items. items = concat (map g (filter P (take k xs))) \<and> length items \<le> k * b"
  have "?I n (for_range n (\<lambda>i items. if P (xs ! i) then cat_fit items (f (xs ! i)) else items) [])"
  proof (rule for_range_indexed_invariant [where P = ?I])
    fix k items assume k: "k < n" and I: "?I k items"
    have "Suc k * b \<le> n * b" using k by (intro mult_le_mono1) simp
    then have "Suc k * b < 1535" using assms(3) by linarith
    then show "?I (Suc k) (if P (xs ! k) then cat_fit items (f (xs ! k)) else items)"
      using assms(2) [of "xs ! k"] k I assms(1) by (auto simp: cat_fit_def take_Suc_conv_app_nth)
  qed simp
  then show ?thesis using assms(1) by simp
qed

text \<open>C20: service discovery lists every room and every occupant.  The size tests of the two loops
  never drop an item: for every world the room list is the concatenation of one item per active
  room, and the occupant list of a room one item per active occupant, none of them cut.\<close>

theorem disco_items_complete:
  assumes "world_ok w"
  shows "room_items w = concat (map room_item (filter (\<lambda>r. rm_active r \<noteq> 0) (rooms w))) \<and>
    (\<forall>r<4. \<forall>addr. buf 64 addr \<longrightarrow>
       occupant_items addr (room w r) = concat (map (occupant_item addr) (filter pt_active (rm_users (room w r)))))"
proof (intro conjI allI impI)
  have "buf 32 (rm_name r)" if "r \<in> set (rooms w)" for r
    using that assms by (auto simp: in_set_conv_nth world_ok_lengths room_ok_def dest: world_ok_room)
  then show "room_items w = concat (map room_item (filter (\<lambda>r. rm_active r \<noteq> 0) (rooms w)))"
    unfolding room_items_def using world_ok_lengths [OF assms] room_item_text
    by (intro cat_fit_all [where b = 120]) simp_all
next
  fix r :: nat and addr :: cbuf assume "r < 4" and addr: "buf 64 addr"
  then have ok: "array_ok 8 participant_ok (rm_users (room w r))"
    using world_ok_room [OF assms] by (simp add: room_ok_def)
  then have "buf 32 (pt_nick u)" if "u \<in> set (rm_users (room w r))" for u
    using that by (auto simp: in_set_conv_nth array_ok_length participant_ok_def dest!: array_ok_nth)
  then show "occupant_items addr (room w r) = concat (map (occupant_item addr) (filter pt_active (rm_users (room w r))))"
    unfolding occupant_items_def using array_ok_length [OF ok] occupant_item_text [OF addr]
    by (intro cat_fit_all [where b = 180]) simp_all
qed

theorem disco_items_complete_witness: "room_items (empty_world no_disk) = []"
proof -
  have "filter (\<lambda>r. rm_active r \<noteq> 0) (rooms (empty_world no_disk)) = []"
    by (simp add: empty_world_def boot_world_def zero_room_def)
  then show ?thesis using disco_items_complete [OF empty_world_ok, of no_disk] by simp
qed

end
