(* ===== verification/Private.thy ===== *)
theory Private
  imports Iq
begin

text \<open>
  Private XML storage (XEP-0049) of \<^verbatim>\<open>src/src/xmpp/xmpp_handlers.c\<close>: the store, and the handler
  that reads the namespace of the stored element out of the payload.
\<close>

subsection \<open>The store\<close>

definition private_store_find :: "cbuf \<Rightarrow> cbuf \<Rightarrow> world \<Rightarrow> nat option" where
  "private_store_find username ns w =
     first_index PRIVATE_STORAGE_SLOTS (\<lambda>i. pe_active (private_store w ! i) \<noteq> 0 \<and>
       strncmp (pe_username (private_store w ! i)) username 32 = 0 \<and>
       strncmp (pe_ns (private_store w ! i)) ns 128 = 0)"

definition fill_private :: "cbuf \<Rightarrow> cbuf \<Rightarrow> cbuf \<Rightarrow> nat \<Rightarrow> private_store_entry_t \<Rightarrow> private_store_entry_t" where
  "fill_private username ns xml_data xml_len p =
     (let len = (if xml_len \<ge> 900 then 900 - 1 else xml_len)
      in p\<lparr>pe_username := strncpy_term (pe_username p) username 31, pe_ns := strncpy_term (pe_ns p) ns 127,
           pe_xml := poke (memcpy (pe_xml p) xml_data len) len NUL, pe_active := 1\<rparr>)"

definition private_store_upsert :: "cbuf \<Rightarrow> cbuf \<Rightarrow> cbuf \<Rightarrow> nat \<Rightarrow> world \<Rightarrow> int \<times> world" where
  "private_store_upsert username ns xml_data xml_len w =
     (case (case private_store_find username ns w of
              Some i \<Rightarrow> Some i
            | None \<Rightarrow> first_index PRIVATE_STORAGE_SLOTS (\<lambda>i. pe_active (private_store w ! i) = 0)) of
        None \<Rightarrow> (-1, w)
      | Some i \<Rightarrow> (0, w\<lparr>private_store := (private_store w)[i := fill_private username ns xml_data xml_len (private_store w ! i)]\<rparr>))"

subsection \<open>The payload\<close>

definition is_space :: "char \<Rightarrow> bool" where
  "is_space c \<longleftrightarrow> c = CHR '' '' \<or> c = CHR 0x09 \<or> c = CHR 0x0A \<or> c = CHR 0x0D"

text \<open>The name of the first child, or \<open>storage\<close>.\<close>

definition child_elem :: "cbuf \<Rightarrow> cbuf" where
  "child_elem after_query =
     (let dflt = ''storage'' @ zbuf 57; p = dropWhile is_space after_query in
      if deref p = CHR ''<'' then
        (let nlen = length (takeWhile (\<lambda>c. c \<noteq> NUL \<and> c \<noteq> CHR '' '' \<and> c \<noteq> CHR ''/'' \<and> c \<noteq> CHR ''>'') (tl p))
         in if nlen > 0 \<and> nlen < 63 then strncpy_term dflt (tl p) nlen else dflt)
      else dflt)"

definition inner_ns :: "cbuf \<Rightarrow> cbuf" where
  "inner_ns after_query =
     (case strstr after_query ''xmlns='' of
        None \<Rightarrow> zbuf 128
      | Some k \<Rightarrow>
          let a = drop (k + 6) after_query; quote = deref a in
          if quote = APOS \<or> quote = DQUOTE then
            (case strchr (tl a) quote of
               Some ns_len \<Rightarrow> if ns_len > 0 \<and> ns_len < 127 then strncpy_term (zbuf 128) (tl a) ns_len else zbuf 128
             | None \<Rightarrow> zbuf 128)
          else zbuf 128)"

text \<open>The namespace and the name of the child for a payload.\<close>

definition private_query :: "cbuf \<Rightarrow> cbuf \<times> cbuf" where
  "private_query payload =
     (case strchr payload CHR ''>'' of
        Some k \<Rightarrow> (inner_ns (drop (k + 1) payload), child_elem (drop (k + 1) payload))
      | None \<Rightarrow> (zbuf 128, ''storage'' @ zbuf 57))"

subsection \<open>The handler\<close>

definition not_acceptable_fmt :: string where
  "not_acceptable_fmt = ''<iq type='error' id='%s' to='%s'><query xmlns='jabber:iq:private'/><error code='406' type='modify'><not-acceptable xmlns='urn:ietf:params:xml:ns:xmpp-stanzas'/></error></iq>''"

definition constraint_fmt :: string where
  "constraint_fmt = ''<iq type='error' id='%s' to='%s'><error type='wait' code='500'><resource-constraint xmlns='urn:ietf:params:xml:ns:xmpp-stanzas'/></error></iq>''"

definition private_result_fmt :: string where
  "private_result_fmt = ''<iq type='result' id='%s' to='%s'><query xmlns='jabber:iq:private'>%s</query></iq>''"

text \<open>The element between the end of the opening tag and \<open></query>\<close>: its offset and its length.\<close>

definition private_element :: "cbuf \<Rightarrow> (nat \<times> nat) option" where
  "private_element payload =
     (case strchr payload CHR ''>'' of
        None \<Rightarrow> None
      | Some k \<Rightarrow>
          (case strstr payload ''</query>'' of
             None \<Rightarrow> None
           | Some e \<Rightarrow> if e > k + 1 then Some (k + 1, e - (k + 1)) else None))"

definition private_set :: "cbuf \<Rightarrow> nat \<Rightarrow> xmpp_stanza_t \<Rightarrow> world \<Rightarrow> world" where
  "private_set ns ctx st w =
     (case private_element (st_payload st) of
        Some (start, xml_len) \<Rightarrow>
          (let (r, w1) = private_store_upsert (cl_username (client w ctx)) ns (drop start (st_payload st)) xml_len w in
           if r \<noteq> 0 then reply_id_to 512 constraint_fmt ctx st w1
           else iq_result 256 ctx st (xmpp_persist_save_private w1))
      | None \<Rightarrow> iq_result 256 ctx st w)"

definition private_get :: "cbuf \<Rightarrow> cbuf \<Rightarrow> nat \<Rightarrow> xmpp_stanza_t \<Rightarrow> world \<Rightarrow> world" where
  "private_get ns child ctx st w =
     (let inner_xml =
            (case private_store_find (cl_username (client w ctx)) ns w of
               Some i \<Rightarrow> pe_xml (private_store w ! i)
             | None \<Rightarrow> snprintf 192 ''<%s xmlns='%s'/>'' [VStr child, VStr ns]);
          args = [VStr (st_id st), VStr (cl_full_jid (client w ctx)), VStr inner_xml];
          written = snprintf_ret 1300 private_result_fmt args
      in if written < 0 \<or> written \<ge> 1300 then reply_id_to 512 constraint_fmt ctx st w
         else send_to ctx (snprintf 1300 private_result_fmt args) w)"

definition handle_private_storage :: "nat \<Rightarrow> xmpp_stanza_t \<Rightarrow> world \<Rightarrow> world" where
  "handle_private_storage ctx st w =
     (let (ns, child) = private_query (st_payload st) in
      if deref ns = NUL then reply_id_to 512 not_acceptable_fmt ctx st w
      else if st_type st = XMPP_IQ_SET then private_set ns ctx st w
      else private_get ns child ctx st w)"

subsection \<open>Memory safety\<close>

lemma buf_memcpy_term: "n < m \<Longrightarrow> length d = m \<Longrightarrow> buf m (poke (memcpy d x n) n NUL)"
  by (intro buf_poke_NUL) (simp_all add: memcpy_eq)

lemma take_cstr: "n \<le> length (cstr x) \<Longrightarrow> take n x = take n (cstr x)"
  using take_append [of n "cstr x" "dropWhile (\<lambda>c. c \<noteq> NUL) x"] by (simp add: cstr_def)

lemma cstr_memcpy_term: "n \<le> length (cstr x) \<Longrightarrow> cstr (poke (memcpy d x n) n NUL) = take n (cstr x)"
  using length_cstr_le [of x] by (simp add: cstr_poke_NUL memcpy_eq take_cstr [of n x] cstr_append)

lemma fill_private_ok: "private_ok p \<Longrightarrow> private_ok (fill_private u n x l p)"
  by (simp add: private_ok_def fill_private_def Let_def buf_strncpy_term buf_length buf_memcpy_term)

lemma private_store_upsert_ok: "world_ok w \<Longrightarrow> world_ok (snd (private_store_upsert u n x l w))"
proof -
  assume w: "world_ok w"
  have "array_ok 20 private_ok ((private_store w)[i := fill_private u n x l (private_store w ! i)])" for i
    using w by (auto simp: world_ok_def intro!: fill_private_ok dest: array_ok_nth)
  then show ?thesis using w by (auto simp: private_store_upsert_def world_ok_def split: option.split)
qed

lemma handle_private_storage_ok [handler_ok]: "world_ok w \<Longrightarrow> world_ok (handle_private_storage ctx st w)"
  using private_store_upsert_ok [of w]
  by (auto simp: handle_private_storage_def private_set_def private_get_def Let_def case_prod_beta handler_ok world_ok_save
      split: option.split)

subsection \<open>Private storage as a map\<close>

abbreviation private_active :: "private_store_entry_t \<Rightarrow> bool" where
  "private_active p \<equiv> pe_active p \<noteq> 0"

definition private_key :: "private_store_entry_t \<Rightarrow> string \<times> string" where
  "private_key p = (cstr (pe_username p), cstr (pe_ns p))"

definition private_map :: "world \<Rightarrow> string \<times> string \<Rightarrow> string option" where
  "private_map w = slot_map private_active private_key (cstr \<circ> pe_xml) (private_store w)"

definition private_distinct :: "world \<Rightarrow> bool" where
  "private_distinct w \<longleftrightarrow> distinct (slot_keys private_active private_key (private_store w))"

fun private_matches :: "cbuf \<times> cbuf \<times> cbuf \<times> nat \<Rightarrow> private_store_entry_t \<Rightarrow> bool" where
  "private_matches (u, n, x, l) p \<longleftrightarrow>
     pe_active p \<noteq> 0 \<and> strncmp (pe_username p) u 32 = 0 \<and> strncmp (pe_ns p) n 128 = 0"

interpretation prv: slot_table 20 private_ok private_active private_key "cstr \<circ> pe_xml"
  "\<lambda>(u, n, x, l). length (cstr u) < 32 \<and> length (cstr n) < 128 \<and> l \<le> length (cstr x)" "\<lambda>(u, n, x, l). (cstr u, cstr n)"
  "\<lambda>(u, n, x, l). take 899 (take l (cstr x))" private_matches "\<lambda>(u, n, x, l). fill_private u n x l"
proof (unfold_locales, goal_cases)
  case (1 b r)
  then show ?case
    by (cases b) (auto simp: private_ok_def private_key_def strncmp_eq_0 dest!: buf_length_cstr)
next
  case (2 b r)
  obtain u n x l where b: "b = (u, n, x, l)" by (cases b)
  have "pe_active (fill_private u n x l r) \<noteq> 0" "private_key (fill_private u n x l r) = (take 31 (cstr u), take 127 (cstr n))"
    by (simp_all add: fill_private_def Let_def private_key_def cstr_simps)
  moreover have "cstr (pe_xml (fill_private u n x l r)) = take 899 (take l (cstr x))" if "l \<le> length (cstr x)"
    using that by (cases "l = 899") (simp_all add: fill_private_def Let_def cstr_memcpy_term min_def)
  ultimately show ?case using 2 by (auto simp: b fill_private_ok)
qed

lemma private_upsert_slot:
  "private_store_upsert u n x l w =
    (case slot_upsert 20 (private_matches (u, n, x, l)) private_active (fill_private u n x l) (private_store w) of
       Some s \<Rightarrow> (0, w\<lparr>private_store := s\<rparr>) | None \<Rightarrow> (-1, w))"
  by (simp add: private_store_upsert_def private_store_find_def slot_upsert_def split: option.split)

lemma private_upsert_effect:
  assumes "world_ok w" and "private_distinct w" and "length (cstr u) < 32" "length (cstr n) < 128" "l \<le> length (cstr x)"
    and "private_store_upsert u n x l w = (r, w')"
  shows "private_distinct w' \<and>
    (if r = 0 then private_map w' = (private_map w)((cstr u, cstr n) \<mapsto> take 899 (take l (cstr x)))
     else w' = w \<and> (cstr u, cstr n) \<notin> dom (private_map w) \<and> list_all private_active (private_store w))"
proof -
  have ok: "array_ok 20 private_ok (private_store w)" using assms(1) by (simp add: world_ok_def)
  note d = assms(2) [unfolded private_distinct_def]
  show ?thesis
    using assms(2-6) prv.upsert_stored [OF ok _ d, of "(u, n, x, l)"] prv.upsert_full [OF ok, of "(u, n, x, l)"]
    by (auto simp: private_upsert_slot private_map_def private_distinct_def split: option.splits)
qed

lemma private_find_map:
  assumes "world_ok w" and "private_distinct w" and "length (cstr u) < 32" "length (cstr n) < 128"
  shows "map_option (\<lambda>i. cstr (pe_xml (private_store w ! i))) (private_store_find u n w) = private_map w (cstr u, cstr n)"
proof -
  let ?k = "(cstr u, cstr n)" and ?s = "private_store w"
  have ok: "array_ok 20 private_ok ?s" using assms(1) by (simp add: world_ok_def)
  have len: "length ?s = 20" using ok by (rule array_ok_length)
  have find: "private_store_find u n w = first_index 20 (\<lambda>i. private_active (?s ! i) \<and> private_key (?s ! i) = ?k)"
    using prv.find_key [OF ok, of "(u, n, [], 0)"] assms(3,4) by (simp add: private_store_find_def)
  show ?thesis
  proof (cases "private_store_find u n w")
    case None
    then have "?k \<notin> set (slot_keys private_active private_key ?s)"
      using slot_missing [of ?s private_active private_key ?k] by (auto simp: find first_index_None len)
    with None show ?thesis by (simp add: private_map_def slot_map_dom [symmetric, of _ _ _ "cstr \<circ> pe_xml"] domIff)
  next
    case (Some i)
    then have "?s ! i \<in> set ?s" "private_active (?s ! i)" "private_key (?s ! i) = ?k"
      by (simp_all add: find first_index_Some len)
    with Some show ?thesis
      using slot_map_active [of "?s ! i" ?s private_active private_key "cstr \<circ> pe_xml"] assms(2)
      by (simp add: private_map_def private_distinct_def)
  qed
qed

subsection \<open>What was stored comes back\<close>

lemma private_get_effect:
  assumes "world_ok w" and "private_distinct w" and "ctx < 20" and "length (cstr ns) < 128"
    and "private_map w (cstr (cl_username (client w ctx)), cstr ns) = Some x"
  shows "outbox (env (private_get ns child ctx st w)) =
    outbox (env w) @ [(cl_pcb (client w ctx), cstr (snprintf 1300 private_result_fmt
      [VStr (st_id st), VStr (cl_full_jid (client w ctx)), VStr x]))]"
proof -
  have u: "length (cstr (cl_username (client w ctx))) < 32"
    using world_ok_client [OF assms(1,3)] by (auto simp: client_ok_def dest: buf_length_cstr)
  obtain i where i: "private_store_find (cl_username (client w ctx)) ns w = Some i" "cstr (pe_xml (private_store w ! i)) = x"
    using private_find_map [OF assms(1,2) u assms(4)] assms(5) by auto
  let ?args = "\<lambda>y. [VStr (st_id st), VStr (cl_full_jid (client w ctx)), VStr y]"
  have "snprintf 1300 private_result_fmt (?args (pe_xml (private_store w ! i))) = snprintf 1300 private_result_fmt (?args x)"
    using i(2) cstr_cstr [of "pe_xml (private_store w ! i)"] by (intro snprintf_equiv) (simp del: cstr_cstr)
  moreover have "\<not> (snprintf_ret 1300 private_result_fmt a < 0 \<or> 1300 \<le> snprintf_ret 1300 private_result_fmt a)" for a
    using snprintf_length [of 1300 private_result_fmt a] by (simp add: snprintf_ret_def)
  ultimately show ?thesis by (simp add: private_get_def Let_def i(1))
qed
lemma private_query_ns: "length (cstr (fst (private_query p))) < 128"
  by (auto simp: private_query_def inner_ns_def Let_def cstr_simps split: option.split)

lemma private_element_bound: "private_element p = Some (start, len) \<Longrightarrow> len \<le> length (cstr (drop start p))"
  by (auto simp: private_element_def strstr_Some strchr_Some cstr_drop split: option.splits if_splits dest!: prefix_length_le)


end
