(* ===== verification/Roster.thy ===== *)
theory Roster
  imports Private
begin

text \<open>
  The roster request and the initial presence of a client, from
  \<^verbatim>\<open>src/src/xmpp/xmpp_handlers.c\<close>.
\<close>

subsection \<open>Roster requests\<close>

definition roster_push_fmt :: string where
  "roster_push_fmt = ''<iq type='set' to='%s'><query xmlns='jabber:iq:roster'>%s</query></iq>''"

definition roster_ver_fmt :: string where
  "roster_ver_fmt = ''<iq type='result' id='%s' to='%s'><query xmlns='jabber:iq:roster' ver='%d'>%s</query></iq>''"

definition roster_fmt :: string where
  "roster_fmt = ''<iq type='result' id='%s' to='%s'><query xmlns='jabber:iq:roster'>%s</query></iq>''"

text \<open>The push of a roster change to another connection of the user.\<close>

definition roster_push :: "nat \<Rightarrow> xmpp_stanza_t \<Rightarrow> nat \<Rightarrow> world \<Rightarrow> world" where
  "roster_push ctx st i w =
     (if \<not> in_session (client w i) then w
      else if i = ctx then w
      else if strcmp (cl_username (client w i)) (cl_username (client w ctx)) \<noteq> 0 then w
      else send_to i (snprintf 1200 roster_push_fmt [VStr (cl_full_jid (client w i)), VStr (st_payload st)]) w)"

definition roster_set :: "nat \<Rightarrow> xmpp_stanza_t \<Rightarrow> world \<Rightarrow> world" where
  "roster_set ctx st w =
     (let w1 = xmpp_persist_save_roster
                 (roster_store_set_from_payload (cl_username (client w ctx)) (st_payload st) w);
          w2 = iq_result 1024 ctx st (w1\<lparr>roster_version := roster_version w1 + 1\<rparr>)
      in for_range MAX_USERS (roster_push ctx st) w2)"

definition roster_get :: "nat \<Rightarrow> xmpp_stanza_t \<Rightarrow> world \<Rightarrow> world" where
  "roster_get ctx st w =
     (let has_ver = (strstr (st_payload st) ''ver='' \<noteq> None \<or> strstr (st_payload st) ''ver '' \<noteq> None);
          items = snd (roster_store_get_items (cl_username (client w ctx)) 2048 w);
          id = VStr (st_id st); to = VStr (cl_full_jid (client w ctx))
      in send_to ctx
           (if has_ver then snprintf 2300 roster_ver_fmt [id, to, VInt (roster_version w), VStr items]
            else snprintf 2300 roster_fmt [id, to, VStr items]) w)"

definition handle_roster_request :: "nat \<Rightarrow> xmpp_stanza_t \<Rightarrow> world \<Rightarrow> world" where
  "handle_roster_request ctx st w =
     (if st_type st = XMPP_IQ_SET then roster_set ctx st w else roster_get ctx st w)"

subsection \<open>Initial presence\<close>

definition presence_lang_fmt :: string where
  "presence_lang_fmt = ''<presence from='%s' to='%s' xml:lang='en'>%s</presence>''"

definition presence_lang_empty_fmt :: string where
  "presence_lang_empty_fmt = ''<presence from='%s' to='%s' xml:lang='en'/>''"

definition presence_fmt :: string where
  "presence_fmt = ''<presence from='%s' to='%s'>%s</presence>''"

definition presence_empty_fmt :: string where
  "presence_empty_fmt = ''<presence from='%s' to='%s'/>''"

definition set_presence :: "xmpp_stanza_t \<Rightarrow> xmpp_client_ctx_t \<Rightarrow> xmpp_client_ctx_t" where
  "set_presence st c =
     c\<lparr>cl_presence_payload :=
         (if deref (st_payload st) \<noteq> NUL then strncpy_term (cl_presence_payload c) (st_payload st) 1023
          else poke (cl_presence_payload c) 0 NUL)\<rparr>"

definition announce_text :: "xmpp_client_ctx_t \<Rightarrow> xmpp_client_ctx_t \<Rightarrow> string" where
  "announce_text c peer =
     (if deref (cl_presence_payload c) \<noteq> NUL
      then snprintf 1024 presence_lang_fmt [VStr (cl_full_jid c), VStr (cl_full_jid peer), VStr (cl_presence_payload c)]
      else snprintf 1024 presence_lang_empty_fmt [VStr (cl_full_jid c), VStr (cl_full_jid peer)])"

definition probe_text :: "xmpp_client_ctx_t \<Rightarrow> xmpp_client_ctx_t \<Rightarrow> string" where
  "probe_text peer c =
     (if deref (cl_presence_payload peer) \<noteq> NUL
      then snprintf 1024 presence_fmt [VStr (cl_full_jid peer), VStr (cl_full_jid c), VStr (cl_presence_payload peer)]
      else snprintf 1024 presence_empty_fmt [VStr (cl_full_jid peer), VStr (cl_full_jid c)])"

text \<open>The first loop announces the client to every session, its own included; the second sends it
  the presence of every other session.\<close>

definition announce_to :: "nat \<Rightarrow> nat \<Rightarrow> world \<Rightarrow> world" where
  "announce_to ctx i w =
     (if in_session (client w i) then send_to i (announce_text (client w ctx) (client w i)) w else w)"

definition probe_from :: "nat \<Rightarrow> nat \<Rightarrow> world \<Rightarrow> world" where
  "probe_from ctx i w =
     (if in_session (client w i) \<and> i \<noteq> ctx then send_to ctx (probe_text (client w i) (client w ctx)) w else w)"

definition handle_initial_presence :: "nat \<Rightarrow> xmpp_stanza_t \<Rightarrow> world \<Rightarrow> world" where
  "handle_initial_presence ctx st w =
     (let w1 = upd_client ctx (set_presence st) w;
          w2 = for_range MAX_USERS (announce_to ctx) w1;
          w3 = for_range MAX_USERS (probe_from ctx) w2
      in offline_msg_drain ctx (pending_sub_drain ctx w3))"

subsection \<open>Memory safety\<close>

lemma roster_set_from_payload_ok: "world_ok w \<Longrightarrow> world_ok (roster_store_set_from_payload u p w)"
  by (simp add: roster_store_set_from_payload_def roster_set_loop_ok)

lemma world_ok_version [simp]: "world_ok (w\<lparr>roster_version := v\<rparr>) \<longleftrightarrow> world_ok w"
  by (simp add: world_ok_def)

lemma for_range_ok: "world_ok w \<Longrightarrow> (\<And>i w. world_ok w \<Longrightarrow> world_ok (f i w)) \<Longrightarrow> world_ok (for_range n f w)"
  by (rule for_range_invariant [where P = world_ok])

lemma handle_roster_request_ok [handler_ok]: "world_ok w \<Longrightarrow> world_ok (handle_roster_request ctx st w)"
  unfolding handle_roster_request_def roster_set_def roster_get_def Let_def
  by (auto intro!: for_range_ok handler_ok simp: roster_push_def world_ok_save roster_set_from_payload_ok)

lemma set_presence_ok: "client_ok c \<Longrightarrow> client_ok (set_presence st c)"
  by (simp add: set_presence_def client_ok_def buf_strncpy_term buf_poke_NUL buf_length)

lemma handle_initial_presence_ok [handler_ok]: "world_ok w \<Longrightarrow> world_ok (handle_initial_presence ctx st w)"
  unfolding handle_initial_presence_def Let_def
  by (auto intro!: offline_msg_drain_ok pending_sub_drain_ok for_range_ok world_ok_upd_client set_presence_ok handler_ok
      simp: announce_to_def probe_from_def)

subsection \<open>Broadcasts\<close>

text \<open>A world reached by sending only: the clients differ by what sending changes, and nothing else
  differs but the environment.\<close>

definition sent_only :: "world \<Rightarrow> world \<Rightarrow> bool" where
  "sent_only w s \<longleftrightarrow> rooms s = rooms w \<and> roster_store s = roster_store w \<and> private_store s = private_store w \<and>
     offline_store s = offline_store w \<and> pending_subs s = pending_subs w \<and> disk_dev s = disk_dev w \<and>
     roster_version s = roster_version w \<and> stanza_pool s = stanza_pool w \<and> client_idx s = client_idx w \<and>
     length (client_registry s) = length (client_registry w) \<and> (\<forall>j. send_frame (client w j) (client s j))"

lemma sent_only_refl [simp]: "sent_only w w"
  by (simp add: sent_only_def)

lemma sent_only_trans: "sent_only a b \<Longrightarrow> sent_only b c \<Longrightarrow> sent_only a c"
  unfolding sent_only_def by (metis send_frame_trans)

lemma sent_only_send: "sent_only w (send_to i d w)"
  by (simp add: sent_only_def send_to_client)

lemma sent_only_sel:
  assumes "sent_only w s"
  shows "rooms s = rooms w" "roster_store s = roster_store w" "private_store s = private_store w"
    "offline_store s = offline_store w" "pending_subs s = pending_subs w" "disk_dev s = disk_dev w"
    "roster_version s = roster_version w" "stanza_pool s = stanza_pool w" "client_idx s = client_idx w"
    "length (client_registry s) = length (client_registry w)" "send_frame (client w j) (client s j)"
  using assms by (auto simp: sent_only_def)

lemma sent_only_client:
  assumes "sent_only w s"
  shows "cl_pcb (client s j) = cl_pcb (client w j)" "cl_state (client s j) = cl_state (client w j)"
    "cl_full_jid (client s j) = cl_full_jid (client w j)" "cl_username (client s j) = cl_username (client w j)"
    "cl_presence_payload (client s j) = cl_presence_payload (client w j)" "in_session (client s j) = in_session (client w j)"
  using send_frame_sel [OF sent_only_sel(11) [OF assms, of j]] by (simp_all add: in_session_def)

lemma broadcast:
  assumes "\<And>i s. i < n \<Longrightarrow> sent_only w s \<Longrightarrow> f i s = (if P i then send_to (t i) (m i) s else s)"
  shows "sent_only w (for_range n f w) \<and>
    outbox (env (for_range n f w)) = outbox (env w) @ map (\<lambda>i. (cl_pcb (client w (t i)), cstr (m i))) (filter P [0..<n])"
proof -
  let ?I = "\<lambda>k s. sent_only w s \<and>
    outbox (env s) = outbox (env w) @ map (\<lambda>i. (cl_pcb (client w (t i)), cstr (m i))) (filter P [0..<k])"
  have "?I n (for_range n f w)"
  proof (rule for_range_indexed_invariant [where P = ?I])
    fix k s assume "k < n" "?I k s"
    then show "?I (Suc k) (f k s)"
      using assms [of k s] sent_only_trans [OF _ sent_only_send, of w s "t k" "m k"] by (simp add: sent_only_client [of w s])
  qed simp
  then show ?thesis .
qed

subsection \<open>What a login exchanges\<close>

lemma announce_broadcast:
  "sent_only w (for_range 20 (announce_to ctx) w) \<and>
   outbox (env (for_range 20 (announce_to ctx) w)) = outbox (env w) @
     map (\<lambda>i. (cl_pcb (client w i), cstr (announce_text (client w ctx) (client w i))))
       (filter (\<lambda>i. in_session (client w i)) [0..<20])"
  by (rule broadcast) (simp add: announce_to_def announce_text_def sent_only_client)

lemma probe_broadcast:
  "sent_only w (for_range 20 (probe_from ctx) w) \<and>
   outbox (env (for_range 20 (probe_from ctx) w)) = outbox (env w) @
     map (\<lambda>i. (cl_pcb (client w ctx), cstr (probe_text (client w i) (client w ctx))))
       (filter (\<lambda>i. in_session (client w i) \<and> i \<noteq> ctx) [0..<20])"
  by (rule broadcast) (simp add: probe_from_def probe_text_def sent_only_client)

lemma pending_drain_offline [simp]: "offline_store (pending_sub_drain ctx w) = offline_store w"
  unfolding pending_sub_drain_def save_pending_subs_sel
  by (rule for_range_frame [where g = offline_store]) (simp add: pending_drain_slot_def Let_def)

lemma presence_rounds:
  fixes st :: xmpp_stanza_t
  assumes "world_ok w" and "ctx < 20"
  defines "c \<equiv> set_presence st (client w ctx)"
    and "peer i \<equiv> if i = ctx then set_presence st (client w ctx) else client w i"
    and "w2 \<equiv> for_range 20 (announce_to ctx) (upd_client ctx (set_presence st) w)"
  defines "w3 \<equiv> for_range 20 (probe_from ctx) w2"
  shows "outbox (env w3) = outbox (env w) @
      map (\<lambda>i. (cl_pcb (client w i), cstr (announce_text c (peer i)))) (filter (\<lambda>i. in_session (client w i)) [0..<20]) @
      map (\<lambda>i. (cl_pcb c, cstr (probe_text (client w i) c))) (filter (\<lambda>i. in_session (client w i) \<and> i \<noteq> ctx) [0..<20])"
    and "send_frame c (client w3 ctx)" and "pending_subs w3 = pending_subs w" and "offline_store w3 = offline_store w"
    and "world_ok w3"
proof -
  let ?w1 = "upd_client ctx (set_presence st) w"
  have cl: "client ?w1 i = peer i" for i
    using world_ok_lengths(1) [OF assms(1)] assms(2) by (simp add: peer_def upd_client_def)
  have sess: "in_session (peer i) = in_session (client w i)" "cl_pcb (peer i) = cl_pcb (client w i)" "peer ctx = c" for i
    by (simp_all add: peer_def in_session_def set_presence_def c_def)
  note a = announce_broadcast [of ?w1 ctx, folded w2_def] and p = probe_broadcast [of w2 ctx, folded w3_def]
  note s2 = sent_only_client [OF conjunct1 [OF a]]
  show "world_ok w3" unfolding w3_def w2_def using assms(1)
    by (auto intro!: for_range_ok world_ok_upd_client set_presence_ok handler_ok simp: announce_to_def probe_from_def)
  show "send_frame c (client w3 ctx)"
    using send_frame_trans [OF sent_only_sel(11) [OF conjunct1 [OF a], of ctx] sent_only_sel(11) [OF conjunct1 [OF p], of ctx]]
    by (simp add: cl sess)
  show "pending_subs w3 = pending_subs w" "offline_store w3 = offline_store w"
    using sent_only_sel [OF conjunct1 [OF a]] sent_only_sel [OF conjunct1 [OF p]] by simp_all
  have texts: "announce_text (client ?w1 ctx) (client ?w1 i) = announce_text c (peer i)"
      "i \<noteq> ctx \<Longrightarrow> probe_text (client w2 i) (client w2 ctx) = probe_text (client w i) c" for i
    by (simp_all add: cl sess probe_text_def s2) (simp_all add: peer_def)
  have filters: "filter (\<lambda>i. in_session (client w2 i) \<and> i \<noteq> ctx) [0..<20] = filter (\<lambda>i. in_session (client w i) \<and> i \<noteq> ctx) [0..<20]"
    by (simp add: s2 cl sess)
  show "outbox (env w3) = outbox (env w) @
      map (\<lambda>i. (cl_pcb (client w i), cstr (announce_text c (peer i)))) (filter (\<lambda>i. in_session (client w i)) [0..<20]) @
      map (\<lambda>i. (cl_pcb c, cstr (probe_text (client w i) c))) (filter (\<lambda>i. in_session (client w i) \<and> i \<noteq> ctx) [0..<20])"
    using a p by (simp add: filters texts s2 cl sess)
qed

text \<open>C18: the initial presence.  The handler stores the presence of the client and then sends, in
  this order: the presence to every client in session, the presence of every other client in session
  to the client, the pending subscription requests addressed to the client, and the messages stored
  for the client while it was offline; and nothing else.\<close>

theorem initial_presence_exchange:
  fixes st :: xmpp_stanza_t
  assumes "world_ok w" and "ctx < 20"
  defines "c \<equiv> set_presence st (client w ctx)"
    and "peer i \<equiv> if i = ctx then set_presence st (client w ctx) else client w i"
  shows "outbox (env (handle_initial_presence ctx st w)) = outbox (env w) @
    map (\<lambda>i. (cl_pcb (client w i), cstr (announce_text c (peer i)))) (filter (\<lambda>i. in_session (client w i)) [0..<20]) @
    map (\<lambda>i. (cl_pcb c, cstr (probe_text (client w i) c))) (filter (\<lambda>i. in_session (client w i) \<and> i \<noteq> ctx) [0..<20]) @
    map (\<lambda>p. (cl_pcb c, cstr (pending_text p c))) (filter (pending_for c) (pending_subs w)) @
    map (\<lambda>m. (cl_pcb c, cstr (offline_text m c))) (filter (stored_for c) (offline_store w))"
proof -
  note r = presence_rounds [OF assms(1,2), of st]
  note pd = pending_drain_effect [OF r(5), of ctx]
    and od = offline_drain_effect [OF pending_sub_drain_ok [OF r(5), of ctx], of ctx]
  note fr = send_frame_trans [OF r(2) conjunct2 [OF conjunct2 [OF pd]]]
  have "pending_for (client w' ctx) = pending_for c" "stored_for (client w'' ctx) = stored_for c"
    if "send_frame c (client w' ctx)" "send_frame c (client w'' ctx)" for w' w''
    using pending.frame [OF that(1)] offline.frame [OF that(2)] by (auto simp: fun_eq_iff)
  note same = this [unfolded c_def, OF r(2) fr]
  show ?thesis
    using pd od r(1) pending.frame [OF r(2)] offline.frame [OF fr] send_frame_sel(1) [OF r(2)] send_frame_sel(1) [OF fr]
    by (simp add: handle_initial_presence_def Let_def c_def peer_def same r(3,4))
qed

theorem initial_presence_exchange_witness:
  "length (outbox (env (handle_initial_presence 0 zero_stanza (users_world [(''bob'', 7), (''al'', 8)])))) = 3"
proof -
  let ?w = "users_world [(''bob'', 7), (''al'', 8)]"
  have cl: "client ?w i = (if i = 0 then user_client ''bob'' 7 else if i = 1 then user_client ''al'' 8 else zero_client)"
    if "i < 20" for i
    using that by (auto simp: users_world_def nth_append nth_Cons split: nat.split)
  have s: "in_session (user_client u p)" "\<not> in_session zero_client" for u p
    by (simp_all add: in_session_def user_client_def state_order_defs)
  have f: "filter (\<lambda>i. in_session (client ?w i)) [0..<20] = [0, 1]" "filter (\<lambda>i. in_session (client ?w i) \<and> i \<noteq> 0) [0..<20] = [1]"
    by (simp_all add: upt_rec cl s)
  have "pending_subs ?w = replicate 32 zero_pending" "offline_store ?w = replicate 32 zero_offline" "outbox (env ?w) = []"
    by (simp_all add: users_world_def empty_world_def boot_world_def idle_env_def outbox_def)
  then show ?thesis
    using initial_presence_exchange [OF users_world_ok, of 0 zero_stanza "[(''bob'', 7), (''al'', 8)]"]
    by (simp add: f f(2) [simplified] pending_for_def stored_for_def zero_pending_def zero_offline_def)
qed

end
