(* ===== verification/Base64.thy ===== *)
theory Base64
  imports Libc
begin

text \<open>
  \<open>b64decode\<close> of \<^verbatim>\<open>src/src/xmpp/xmpp_handlers.c\<close> and its correctness against the encoding of
  RFC 4648.
\<close>

unbundle bit_operations_syntax

definition b64_chars :: string where
  "b64_chars = ''ABCDEFGHIJKLMNOPQRSTUVWXYZabcdefghijklmnopqrstuvwxyz0123456789+/''"

text \<open>The loop over the input: the accumulator, the number of bits it holds, the size of the
  destination and the bytes written so far.  \<open>None\<close> is the result \<open>-1\<close>.\<close>

fun b64_loop :: "cbuf \<Rightarrow> u32 \<Rightarrow> nat \<Rightarrow> nat \<Rightarrow> string \<Rightarrow> string option" where
  "b64_loop [] acc bits dst_len out = Some out"
| "b64_loop (c # src) acc bits dst_len out =
     (if c = NUL \<or> c = CHR ''='' then Some out
      else (case first_index 64 (\<lambda>i. b64_chars ! i = c) of
        None \<Rightarrow> None
      | Some v \<Rightarrow>
          let acc1 = push_bit 6 acc OR of_nat v; bits1 = bits + 6 in
          if bits1 \<ge> 8 then
            b64_loop src acc1 (bits1 - 8) dst_len
              (if length out < dst_len
               then out @ [char_of (unat (drop_bit (bits1 - 8) acc1 AND 0xFF))] else out)
          else b64_loop src acc1 bits1 dst_len out))"

definition b64decode :: "cbuf \<Rightarrow> nat \<Rightarrow> string option" where
  "b64decode src dst_len = b64_loop src 0 0 dst_len []"

subsection \<open>The encoding\<close>

abbreviation b64_char :: "nat \<Rightarrow> char" where
  "b64_char v \<equiv> b64_chars ! v"

abbreviation byte :: "char \<Rightarrow> nat" where
  "byte c \<equiv> of_char c"

fun b64encode :: "string \<Rightarrow> string" where
  "b64encode [] = []"
| "b64encode [a] = [b64_char (byte a div 4), b64_char (byte a mod 4 * 16), CHR ''='', CHR ''='']"
| "b64encode [a, b] =
     [b64_char (byte a div 4), b64_char (byte a mod 4 * 16 + byte b div 16), b64_char (byte b mod 16 * 4), CHR ''='']"
| "b64encode (a # b # c # rest) =
     [b64_char (byte a div 4), b64_char (byte a mod 4 * 16 + byte b div 16),
      b64_char (byte b mod 16 * 4 + byte c div 64), b64_char (byte c mod 64)] @ b64encode rest"

subsection \<open>One character of the input\<close>

lemma b64_chars_facts: "length b64_chars = 64" "distinct b64_chars" "NUL \<notin> set b64_chars" "CHR ''='' \<notin> set b64_chars"
  by (simp_all add: b64_chars_def)

lemma b64_value: "v < 64 \<Longrightarrow> first_index 64 (\<lambda>i. b64_chars ! i = b64_char v) = Some v"
  using b64_chars_facts by (auto simp: first_index_Some nth_eq_iff_index_eq)

lemma b64_char_plain: "v < 64 \<Longrightarrow> b64_char v \<noteq> NUL \<and> b64_char v \<noteq> CHR ''=''"
  using b64_chars_facts by (metis nth_mem)

lemma acc_step:
  assumes "v < 64"
  shows "unat (push_bit 6 acc OR of_nat v :: u32) = (unat acc * 64 + v) mod 2 ^ 32"
proof -
  have "\<not> bit (push_bit 6 acc) n \<or> \<not> bit (of_nat v :: u32) n" for n
  proof (cases "n < 6")
    case False
    have "v < 2 ^ n" using assms False power_increasing [of 6 n "2::nat"] by (simp add: not_less)
    then have "\<not> bit v n" by (simp add: bit_iff_odd)
    then show ?thesis by (simp add: bit_of_nat_iff)
  qed (simp add: bit_push_bit_iff)
  then have "push_bit 6 acc OR of_nat v = push_bit 6 acc + (of_nat v :: u32)"
    by (simp add: disjunctive_add)
  then show ?thesis
    using assms by (simp add: push_bit_eq_mult unat_word_ariths unat_of_nat mod_simps)
qed

lemma byte_of_acc: "unat (drop_bit k acc AND 0xFF :: u32) = unat acc div 2 ^ k mod 256"
proof -
  have "(0xFF :: u32) = mask 8" by (simp add: mask_eq_exp_minus_1)
  then have "drop_bit k acc AND 0xFF = take_bit 8 (drop_bit k acc)" by (simp add: take_bit_eq_mask)
  then have "unat (drop_bit k acc AND 0xFF) = take_bit 8 (drop_bit k (unat acc))"
    by (simp only: unsigned_take_bit_eq unat_drop_bit_eq)
  then show ?thesis by (simp add: take_bit_eq_mod drop_bit_eq_div)
qed

lemma acc_div_mod: "k + 8 \<le> 32 \<Longrightarrow> (n mod 2 ^ 32) div 2 ^ k mod 256 = n div 2 ^ k mod (256 :: nat)"
proof -
  assume k: "k + 8 \<le> 32"
  have "(n mod 2 ^ 32) div 2 ^ k = n div 2 ^ k mod 2 ^ (32 - k)"
    using k div_exp_mod_exp_eq [of n k "32 - k"] by simp
  moreover have "x mod 2 ^ (32 - k) mod 2 ^ 8 = x mod 2 ^ 8" for x :: nat
    using k by (intro mod_mod_cancel le_imp_power_dvd) simp
  ultimately show ?thesis by simp
qed

definition put :: "nat \<Rightarrow> char \<Rightarrow> string \<Rightarrow> string" where
  "put n c out = (if length out < n then out @ [c] else out)"

text \<open>Reading one character: \<open>m\<close> is the accumulated value without the limit of 32 bits.\<close>

definition acc_in :: "u32 \<Rightarrow> nat \<Rightarrow> u32" where
  "acc_in acc v = push_bit 6 acc OR of_nat v"

lemma acc_in_unat:
  assumes "v < 64" and "unat acc = m mod 2 ^ 32"
  shows "unat (acc_in acc v) = (m * 64 + v) mod 2 ^ 32"
  unfolding acc_in_def acc_step [OF assms(1)] assms(2) by (metis mod_add_left_eq mod_mult_left_eq)

lemma b64_read:
  assumes "v < 64" and "unat acc = m mod 2 ^ 32" and "bits < 8"
  shows "b64_loop (b64_char v # src) acc bits n out =
    (if bits + 6 \<ge> 8
     then b64_loop src (acc_in acc v) (bits + 6 - 8) n (put n (char_of ((m * 64 + v) div 2 ^ (bits + 6 - 8) mod 256)) out)
     else b64_loop src (acc_in acc v) (bits + 6) n out)"
proof -
  have "unat (drop_bit (bits + 6 - 8) (acc_in acc v) AND 0xFF) = (m * 64 + v) div 2 ^ (bits + 6 - 8) mod 256"
    using assms(3) by (simp only: byte_of_acc acc_in_unat [OF assms(1,2)]) (rule acc_div_mod, simp)
  then show ?thesis
    using b64_char_plain [OF assms(1)] b64_value [OF assms(1)] by (simp add: Let_def put_def acc_in_def)
qed

lemma div_byte:
  fixes a b :: nat
  shows "b < d \<Longrightarrow> (a * d + b) div d = a" and "b < 256 \<Longrightarrow> (a * 256 + b) mod 256 = b"
  by simp_all

lemma first_byte:
  fixes m :: nat
  assumes "a < 256" and "b < 256"
  shows "((m * 64 + a div 4) * 64 + (a mod 4 * 16 + b div 16)) div 16 mod 256 = a"
proof -
  have "b div 16 < 16" using assms(2) by simp
  moreover have "(m * 64 + q) * 64 + (r * 16 + s) = (m * 256 + (q * 4 + r)) * 16 + s" for q r s by simp
  ultimately have "((m * 64 + a div 4) * 64 + (a mod 4 * 16 + b div 16)) div 16 = m * 256 + a"
    by (simp only: div_byte div_mult_mod_eq)
  then show ?thesis using assms(1) by simp
qed

lemma second_byte:
  fixes m :: nat
  assumes "b < 256" and "c < 256"
  shows "((m * 64 + (x * 16 + b div 16)) * 64 + (b mod 16 * 4 + c div 64)) div 4 mod 256 = b"
proof -
  have "c div 64 < 4" using assms(2) by simp
  moreover have "(m * 64 + (x * 16 + q)) * 64 + (r * 4 + s) = ((m * 4 + x) * 256 + (q * 16 + r)) * 4 + s" for q r s by simp
  ultimately have "((m * 64 + (x * 16 + b div 16)) * 64 + (b mod 16 * 4 + c div 64)) div 4 = (m * 4 + x) * 256 + b"
    by (simp only: div_byte div_mult_mod_eq)
  then show ?thesis using assms(1) by (simp only: div_byte)
qed

lemma third_byte:
  fixes m :: nat
  assumes "c < 256"
  shows "((m * 64 + (x * 4 + c div 64)) * 64 + c mod 64) mod 256 = c"
proof -
  have "(m * 64 + (x * 4 + q)) * 64 + r = (m * 16 + x) * 256 + (q * 64 + r)" for q r by simp
  then show ?thesis using assms by (simp only: div_byte div_mult_mod_eq)
qed

subsection \<open>Groups\<close>

declare b64_loop.simps [simp del]

lemma byte_parts:
  "byte c div 4 < 64" "byte a mod 4 * 16 + byte b div 16 < 64" "byte b mod 16 * 4 + byte c div 64 < 64" "byte c mod 64 < 64"
  "byte a mod 4 * 16 < 64" "byte b mod 16 * 4 < 64"
proof -
  have "byte c < 256" for c by simp
  then show "byte c div 4 < 64" "byte c mod 64 < 64" by (simp_all add: less_mult_imp_div_less)
  have "byte a mod 4 < 4" "byte b div 16 < 16" "byte b mod 16 < 16" "byte c div 64 < 4"
    using \<open>\<And>c. byte c < 256\<close> by (simp_all add: less_mult_imp_div_less)
  then show "byte a mod 4 * 16 + byte b div 16 < 64" "byte b mod 16 * 4 + byte c div 64 < 64"
    "byte a mod 4 * 16 < 64" "byte b mod 16 * 4 < 64" by simp_all
qed

lemma unat_self: "unat acc = unat acc mod 2 ^ 32" for acc :: u32
proof -
  have "unat acc < 2 ^ 32" using unsigned_less [of acc] by simp
  then show ?thesis by simp
qed

abbreviation sextet0 :: "char \<Rightarrow> nat" where "sextet0 a \<equiv> byte a div 4"
abbreviation sextet1 :: "char \<Rightarrow> char \<Rightarrow> nat" where "sextet1 a b \<equiv> byte a mod 4 * 16 + byte b div 16"
abbreviation sextet2 :: "char \<Rightarrow> char \<Rightarrow> nat" where "sextet2 b c \<equiv> byte b mod 16 * 4 + byte c div 64"
abbreviation sextet3 :: "char \<Rightarrow> nat" where "sextet3 c \<equiv> byte c mod 64"

lemma read_two:
  "b64_loop (b64_char (sextet0 a) # b64_char (sextet1 a b) # src) acc 0 n out =
     b64_loop src (acc_in (acc_in acc (sextet0 a)) (sextet1 a b)) 4 n (put n a out)"
proof -
  note m1 = acc_in_unat [OF byte_parts(1) unat_self, of acc a]
  have "((unat acc * 64 + sextet0 a) * 64 + sextet1 a b) div 2 ^ 4 mod 256 = byte a"
    using first_byte [of "byte a" "byte b" "unat acc"] by simp
  then have "b64_loop (b64_char (sextet1 a b) # src) (acc_in acc (sextet0 a)) 6 n out =
      b64_loop src (acc_in (acc_in acc (sextet0 a)) (sextet1 a b)) 4 n (put n a out)"
    using b64_read [OF byte_parts(2) m1, of 6 a b src n out] by simp
  moreover have "b64_loop (b64_char (sextet0 a) # s) acc 0 n out = b64_loop s (acc_in acc (sextet0 a)) 6 n out" for s
    using b64_read [OF byte_parts(1) unat_self, of 0 a s acc n out] by simp
  ultimately show ?thesis by simp
qed

lemma read_three:
  "b64_loop (b64_char (sextet0 a) # b64_char (sextet1 a b) # b64_char (sextet2 b c) # src) acc 0 n out =
     b64_loop src (acc_in (acc_in (acc_in acc (sextet0 a)) (sextet1 a b)) (sextet2 b c)) 2 n (put n b (put n a out))"
proof -
  note m2 = acc_in_unat [OF byte_parts(2) acc_in_unat [OF byte_parts(1) unat_self, of acc a], of a b]
  have "(((unat acc * 64 + sextet0 a) * 64 + sextet1 a b) * 64 + sextet2 b c) div 2 ^ 2 mod 256 = byte b"
    using second_byte [of "byte b" "byte c" "unat acc * 64 + sextet0 a" "byte a mod 4"] by simp
  then show ?thesis
    using b64_read [OF byte_parts(3) m2, of 4 b c src n "put n a out"] by (simp add: read_two)
qed

lemma read_four:
  "\<exists>acc'. b64_loop (b64_char (sextet0 a) # b64_char (sextet1 a b) # b64_char (sextet2 b c) # b64_char (sextet3 c) # src) acc 0 n out =
     b64_loop src acc' 0 n (put n c (put n b (put n a out)))"
proof -
  note m3 = acc_in_unat [OF byte_parts(3) acc_in_unat [OF byte_parts(2) acc_in_unat [OF byte_parts(1) unat_self, of acc a], of a b], of b c]
  have "((((unat acc * 64 + sextet0 a) * 64 + sextet1 a b) * 64 + sextet2 b c) * 64 + sextet3 c) div 2 ^ 0 mod 256 = byte c"
    using third_byte [of "byte c" "(unat acc * 64 + sextet0 a) * 64 + sextet1 a b" "byte b mod 16"] by simp
  then show ?thesis
    using b64_read [OF byte_parts(4) m3, of 2 c src n "put n b (put n a out)"] by (auto simp: read_three)
qed

lemma put_take: "length out \<le> n \<Longrightarrow> put n c out = take n (out @ [c])"
  by (simp add: put_def)

lemma b64_loop_encode: "\<exists>acc. b64_loop (b64encode bs) acc0 0 n out = Some (fold (put n) bs out)"
proof (induction bs arbitrary: acc0 out rule: b64encode.induct)
  case (2 a)
  show ?case using read_two [of a NUL "[CHR ''='', CHR ''='']" acc0 n out] by (simp add: b64_loop.simps)
next
  case (3 a b)
  show ?case using read_three [of a b NUL "[CHR ''='']" acc0 n out] by (simp add: b64_loop.simps)
next
  case (4 a b c rest)
  then show ?case using read_four [of a b c "b64encode rest" acc0 n out] by auto
qed (simp add: b64_loop.simps)

lemma fold_put: "length out \<le> n \<Longrightarrow> fold (put n) bs out = take n (out @ bs)"
proof (induction bs arbitrary: out)
  case (Cons b bs)
  then show ?case by (cases "length out < n") (simp_all add: put_def take_Cons')
qed simp

lemma b64_loop_cstr: "b64_loop (cstr s) acc bits n out = b64_loop s acc bits n out"
  by (induction s arbitrary: acc bits out) (simp_all add: b64_loop.simps Let_def split: option.split)

lemma b64decode_encode: "cstr src = b64encode bs \<Longrightarrow> b64decode src n = Some (take n bs)"
  using b64_loop_encode [of bs 0 n "[]"] fold_put [of "[]" n bs] b64_loop_cstr [of src 0 0 n "[]"]
  by (simp add: b64decode_def)

text \<open>C19: \<open>b64decode\<close> inverts the encoding of RFC 4648: for every byte string, a buffer that holds its
  encoding is accepted and decoded to the bytes, cut to the size of the destination.\<close>

theorem b64decode_inverts:
  assumes "cstr src = b64encode bs"
  shows "b64decode src dst_len = Some (take dst_len bs)"
  by (rule b64decode_encode [OF assms])

theorem b64decode_inverts_witness: "b64decode (''AGEAYg=='' @ zbuf 3) 127 = Some [NUL, CHR ''a'', NUL, CHR ''b'']"
  using b64decode_inverts [of "''AGEAYg=='' @ zbuf 3" "[NUL, CHR ''a'', NUL, CHR ''b'']" 127]
  by (simp add: b64_chars_def zbuf_def)

end
