(* ===== verification/Sasl.thy ===== *)
theory Sasl
  imports Roster Base64
begin

text \<open>
  SASL authentication of \<^verbatim>\<open>src/src/xmpp/xmpp_handlers.c\<close>: the table of accounts, the fields of a
  PLAIN message and the handler with its lock-out.  The handler touches one client context only.
\<close>

subsection \<open>The handler\<close>

definition xmpp_credentials :: "(string \<times> string) list" where
  "xmpp_credentials = [(''admin'', ''admin''), (''user1'', ''pass1''), (''user2'', ''pass2'')]"

definition sasl_failure :: "string \<Rightarrow> string" where
  "sasl_failure reason = ''<failure xmlns='urn:ietf:params:xml:ns:xmpp-sasl'><'' @ reason @ ''/></failure>''"

definition sasl_success :: string where
  "sasl_success = ''<success xmlns='urn:ietf:params:xml:ns:xmpp-sasl'/>''"

text \<open>The \<open>while\<close> loops over the decoded message: the bytes up to the next NUL, and the position
  behind that NUL.\<close>

definition sasl_span :: "nat \<Rightarrow> string \<Rightarrow> string" where
  "sasl_span pos d = takeWhile (\<lambda>c. c \<noteq> NUL) (drop pos d)"

definition sasl_skip :: "nat \<Rightarrow> string \<Rightarrow> nat" where
  "sasl_skip pos d = pos + length (sasl_span pos d) + 1"

definition sasl_username :: "string \<Rightarrow> cbuf \<Rightarrow> cbuf" where
  "sasl_username d username =
     (let u0 = poke username 0 NUL in
      if length d > 1 then
        (let u = take 31 (sasl_span (sasl_skip 0 d) d)
         in poke (memcpy u0 u (length u)) (length u) NUL)
      else u0)"

definition sasl_password :: "string \<Rightarrow> string" where
  "sasl_password d = take 63 (sasl_span (sasl_skip (sasl_skip 0 d) d) d)"

definition bad_user_char :: "char \<Rightarrow> bool" where
  "bad_user_char c \<longleftrightarrow> c = CHR ''@'' \<or> c = CHR ''/'' \<or> c = CHR ''<'' \<or> c = CHR ''>'' \<or> c = CHR '' '' \<or> c = APOS \<or> c = DQUOTE"

text \<open>A refused attempt: the counter, and the end of the connection at the fifth.\<close>

definition sasl_refuse :: "cx \<Rightarrow> cx" where
  "sasl_refuse x =
     (let (c, e) = send_raw (sasl_failure ''not-authorized'') x;
          c1 = c\<lparr>cl_sasl_failures := cl_sasl_failures c + 1\<rparr>
      in if cl_sasl_failures c1 \<ge> SASL_MAX_FAILURES then
           (let (c2, e2) = send_raw policy_violation (c1, e)
            in (c2\<lparr>cl_pcb := None, cl_state := STATE_CONNECTED\<rparr>, tcp_close (cl_pcb c2) e2))
         else (c1, e))"

definition sasl_accept :: "cx \<Rightarrow> cx" where
  "sasl_accept x =
     (let (c, e) = send_raw sasl_success x
      in (c\<lparr>cl_authenticated := True, cl_state := STATE_AUTHENTICATED\<rparr>, e))"

definition authorized :: "cbuf \<Rightarrow> cbuf \<Rightarrow> bool" where
  "authorized username password \<longleftrightarrow>
     list_ex (\<lambda>(u, p). strcmp u username = 0 \<and> strcmp p password = 0) xmpp_credentials"

definition sasl :: "xmpp_stanza_t \<Rightarrow> cx \<Rightarrow> cx" where
  "sasl st x =
     (case x of (c, e) \<Rightarrow>
        if \<not> cl_tls_established c then send_raw (sasl_failure ''encryption-required'') (c, e)
        else if deref (st_mechanism st) \<noteq> NUL \<and> strcmp (st_mechanism st) ''PLAIN'' \<noteq> 0 \<and>
                strcmp (st_mechanism st) ''ANONYMOUS'' \<noteq> 0 then
          send_raw (sasl_failure ''invalid-mechanism'') (c, e)
        else (case b64decode (st_payload st) 127 of
          None \<Rightarrow> send_raw (sasl_failure ''incorrect-encoding'') (c, e)
        | Some d \<Rightarrow>
            let c1 = c\<lparr>cl_username := sasl_username d (cl_username c)\<rparr> in
            if list_ex bad_user_char (cstr (cl_username c1)) then sasl_refuse (c1, e)
            else
              let c2 = (if deref (cl_username c1) = NUL
                        then c1\<lparr>cl_username := strncpy (cl_username c1) ''user'' 31\<rparr> else c1)
              in if strcmp (st_mechanism st) ''PLAIN'' = 0 \<and> \<not> authorized (cl_username c2) (sasl_password d)
                 then sasl_refuse (c2, e)
                 else sasl_accept (c2, e)))"

definition handle_sasl :: "nat \<Rightarrow> xmpp_stanza_t \<Rightarrow> world \<Rightarrow> world" where
  "handle_sasl ctx st w = on_client ctx (sasl st) w"

subsection \<open>Memory safety\<close>

lemma sasl_username_ok: "buf 32 u \<Longrightarrow> buf 32 (sasl_username d u)"
  by (auto simp: sasl_username_def Let_def buf_memcpy_term buf_poke_NUL buf_length buf_simps)

lemma cstr_sasl_username:
  "length d > 1 \<Longrightarrow> cstr (sasl_username d u) = take 31 (sasl_span (sasl_skip 0 d) d)"
  "\<not> length d > 1 \<Longrightarrow> cstr (sasl_username d u) = []"
proof -
  have "NUL \<notin> set (take 31 (sasl_span p d))" for p by (auto simp: sasl_span_def dest!: in_set_takeD set_takeWhileD)
  then have c: "cstr (take 31 (sasl_span p d)) = take 31 (sasl_span p d)" for p by (rule cstr_NUL_free)
  have "cstr (poke (memcpy b v (length v)) (length v) NUL) = v" if "cstr v = v" for b v
    using that cstr_memcpy_term [of "length v" v b] by simp
  note w = this [OF c]
  show "length d > 1 \<Longrightarrow> cstr (sasl_username d u) = take 31 (sasl_span (sasl_skip 0 d) d)"
    by (simp only: sasl_username_def Let_def w if_True)
  show "\<not> length d > 1 \<Longrightarrow> cstr (sasl_username d u) = []"
    by (simp add: sasl_username_def cstr_poke_NUL)
qed

lemma sasl_refuse_ok: "client_ok (fst x) \<Longrightarrow> client_ok (fst (sasl_refuse x))"
proof -
  assume "client_ok (fst x)"
  then have "client_ok (fst (send_raw d x))" for d by (rule send_raw_ok)
  then have 1: "client_ok ((fst (send_raw d x))\<lparr>cl_sasl_failures := n\<rparr>)" for d n by (simp add: client_ok_def)
  have "client_ok (fst (send_raw d' ((fst (send_raw d x))\<lparr>cl_sasl_failures := n\<rparr>, e)))" for d d' n e
    by (rule send_raw_ok) (simp add: 1)
  then have "client_ok ((fst (send_raw d' ((fst (send_raw d x))\<lparr>cl_sasl_failures := n\<rparr>, e)))\<lparr>cl_pcb := p, cl_state := s\<rparr>)" for d d' n e p s
    by (simp add: client_ok_def)
  with 1 show ?thesis by (simp add: sasl_refuse_def Let_def case_prod_beta)
qed

lemma sasl_accept_ok: "client_ok (fst x) \<Longrightarrow> client_ok (fst (sasl_accept x))"
  using send_raw_ok [of x sasl_success] by (simp add: sasl_accept_def Let_def case_prod_beta client_ok_def)

lemma sasl_ok: "client_ok (fst x) \<Longrightarrow> client_ok (fst (sasl st x))"
proof -
  assume ok: "client_ok (fst x)"
  then have u: "client_ok ((fst x)\<lparr>cl_username := sasl_username d (cl_username (fst x))\<rparr>)"
    "client_ok ((fst x)\<lparr>cl_username := strncpy (sasl_username d (cl_username (fst x))) ''user'' 31\<rparr>)" for d
    using sasl_username_ok [of "cl_username (fst x)" d]
    by (simp_all add: client_ok_def buf_def length_strncpy) (simp add: strncpy_eq)
  show ?thesis
    using ok u send_raw_ok [of x] sasl_refuse_ok sasl_accept_ok
    by (cases x) (auto simp: sasl_def Let_def split: option.split)
qed

lemma handle_sasl_ok [handler_ok]: "world_ok w \<Longrightarrow> world_ok (handle_sasl ctx st w)"
  unfolding handle_sasl_def by (rule world_ok_on_client) (simp_all add: sasl_ok)

subsection \<open>Who is let in\<close>

lemma send_raw_state: "cl_state (fst (send_raw d x)) = cl_state (fst x)"
  by simp

lemma sasl_refuse_state:
  "cl_state (fst (sasl_refuse x)) = (if cl_sasl_failures (fst x) \<ge> 4 then STATE_CONNECTED else cl_state (fst x))"
  "cl_pcb (fst (sasl_refuse x)) = (if cl_sasl_failures (fst x) \<ge> 4 then None else cl_pcb (fst x))"
  "cl_authenticated (fst (sasl_refuse x)) = cl_authenticated (fst x)"
  "cl_sasl_failures (fst (sasl_refuse x)) = cl_sasl_failures (fst x) + 1"
  by (auto simp: sasl_refuse_def Let_def case_prod_beta)

lemma sasl_accept_state:
  "cl_state (fst (sasl_accept x)) = STATE_AUTHENTICATED" "cl_authenticated (fst (sasl_accept x))"
  "cl_username (fst (sasl_accept x)) = cl_username (fst x)"
  by (simp_all add: sasl_accept_def Let_def case_prod_beta)

text \<open>The message of the PLAIN mechanism (RFC 4616): authorization identity, user name and password,
  separated by NUL.\<close>

definition plain_message :: "string \<Rightarrow> string \<Rightarrow> string \<Rightarrow> string" where
  "plain_message authz u p = authz @ NUL # u @ NUL # p"

lemma plain_fields:
  assumes "NUL \<notin> set authz" "NUL \<notin> set u" "NUL \<notin> set p"
  shows "sasl_span (sasl_skip 0 (plain_message authz u p)) (plain_message authz u p) = u"
    and "sasl_span (sasl_skip (sasl_skip 0 (plain_message authz u p)) (plain_message authz u p)) (plain_message authz u p) = p"
proof -
  have w: "takeWhile (\<lambda>c. c \<noteq> NUL) (s @ NUL # t) = s" "takeWhile (\<lambda>c. c \<noteq> NUL) s = s" if "NUL \<notin> set s" for s t
    using that by (auto simp: takeWhile_append takeWhile_eq_all_conv)
  have 0: "sasl_skip 0 (plain_message authz u p) = length authz + 1"
    using assms by (simp add: sasl_skip_def sasl_span_def plain_message_def w)
  show u: "sasl_span (sasl_skip 0 (plain_message authz u p)) (plain_message authz u p) = u"
    unfolding 0 using assms by (simp add: sasl_span_def plain_message_def w)
  have "sasl_skip (length authz + 1) (plain_message authz u p) = length authz + 1 + length u + 1"
    using u unfolding 0 by (simp add: sasl_skip_def)
  then show "sasl_span (sasl_skip (sasl_skip 0 (plain_message authz u p)) (plain_message authz u p)) (plain_message authz u p) = p"
    unfolding 0 using assms by (simp add: sasl_span_def plain_message_def w)
qed

lemma authorized_iff:
  "authorized u p \<longleftrightarrow> (cstr u, cstr p) \<in> set xmpp_credentials"
  by (auto simp: authorized_def xmpp_credentials_def strcmp_eq_0)

text \<open>C9: the PLAIN mechanism.  Over TLS, for a message with the three fields of RFC 4616 that fits the
  decoding buffer and a well-formed user name, the handler lets the client in under that name exactly
  when name and password are those of an account; otherwise the state is kept and the failure
  counted, and the fifth failure closes the connection.\<close>

theorem sasl_plain_correct:
  fixes st :: xmpp_stanza_t
  assumes "cl_tls_established (client w ctx)" and "ctx < length (client_registry w)"
    and "cstr (st_mechanism st) = ''PLAIN''" and "cstr (st_payload st) = b64encode (plain_message authz u p)"
    and "NUL \<notin> set authz" "NUL \<notin> set u" "NUL \<notin> set p" and "length (plain_message authz u p) < 128"
    and "u \<noteq> []" "length u < 32" "length p < 64" "\<not> list_ex bad_user_char u"
  defines "c \<equiv> client w ctx" and "c' \<equiv> client (handle_sasl ctx st w) ctx"
  shows "cstr (cl_username c') = u \<and>
    (if (u, p) \<in> set xmpp_credentials then cl_state c' = STATE_AUTHENTICATED \<and> cl_authenticated c'
     else cl_sasl_failures c' = cl_sasl_failures c + 1 \<and> cl_authenticated c' = cl_authenticated c \<and>
       (if cl_sasl_failures c < 4 then cl_state c' = cl_state c \<and> cl_pcb c' = cl_pcb c
        else cl_state c' = STATE_CONNECTED \<and> cl_pcb c' = None))"
proof -
  let ?d = "plain_message authz u p"
  let ?c1 = "c\<lparr>cl_username := sasl_username ?d (cl_username c)\<rparr>"
  have dec: "b64decode (st_payload st) 127 = Some ?d"
    using b64decode_encode [OF assms(4), of 127] assms(8) by simp
  have len: "length ?d > 1" using assms(9) by (cases u) (auto simp: plain_message_def)
  have user: "cstr (cl_username ?c1) = u"
    using cstr_sasl_username(1) [OF len, of "cl_username c"] plain_fields(1) [OF assms(5-7)] assms(10) by simp
  have "cstr (sasl_password ?d) = p"
    using plain_fields(2) [OF assms(5-7)] assms(7,11) by (simp add: sasl_password_def cstr_NUL_free)
  then have auth: "authorized (cl_username ?c1) (sasl_password ?d) \<longleftrightarrow> (u, p) \<in> set xmpp_credentials"
    using user by (simp add: authorized_iff)
  have nonempty: "deref (cl_username ?c1) \<noteq> NUL" using user assms(9) by (simp add: deref_eq_NUL)
  have "sasl st (c, env w) = (if (u, p) \<in> set xmpp_credentials then sasl_accept (?c1, env w) else sasl_refuse (?c1, env w))"
    using assms(1,3,12) user nonempty auth dec by (simp add: sasl_def Let_def c_def strcmp_eq_0)
  moreover have "c' = fst (sasl st (c, env w))"
    using on_client_same [OF assms(2)] by (simp add: c'_def handle_sasl_def c_def)
  moreover have "cl_username (fst (sasl_refuse x)) = cl_username (fst x)" for x
    by (simp add: sasl_refuse_def Let_def case_prod_beta)
  ultimately show ?thesis
    using user by (simp add: sasl_accept_state sasl_refuse_state)
qed

text \<open>An authentication stanza.\<close>

definition auth_stanza :: "string \<Rightarrow> string \<Rightarrow> xmpp_stanza_t" where
  "auth_stanza mechanism payload = zero_stanza\<lparr>st_mechanism := mechanism, st_payload := payload\<rparr>"

theorem sasl_plain_correct_witness:
  "cl_state (client (handle_sasl 0 (auth_stanza ''PLAIN'' (b64encode (plain_message [] ''admin'' ''admin''))) (users_world [([], 7)])) 0) =
     STATE_AUTHENTICATED"
proof -
  let ?m = "b64encode (plain_message [] ''admin'' ''admin'')"
  have m: "cstr ?m = ?m" by (simp add: plain_message_def b64_chars_def)
  show ?thesis
    using sasl_plain_correct [of "users_world [([], 7)]" 0 "auth_stanza ''PLAIN'' ?m" "[]" "''admin''" "''admin''"]
    by (simp add: m auth_stanza_def users_world_def user_client_def bad_user_char_def xmpp_credentials_def)
      (simp add: plain_message_def)
qed

text \<open>C22: without a mechanism, or with ANONYMOUS, the password is never looked at.  Over TLS any client
  that names a well-formed user is let in under that name, whatever password it sends, also as
  \<open>admin\<close>.\<close>

theorem sasl_mechanism_bypass:
  fixes st :: xmpp_stanza_t
  assumes "cl_tls_established (client w ctx)" and "ctx < length (client_registry w)"
    and "cstr (st_mechanism st) = [] \<or> cstr (st_mechanism st) = ''ANONYMOUS''"
    and "cstr (st_payload st) = b64encode (plain_message authz u p)"
    and "NUL \<notin> set authz" "NUL \<notin> set u" "NUL \<notin> set p" and "length (plain_message authz u p) < 128"
    and "u \<noteq> []" "length u < 32" "\<not> list_ex bad_user_char u"
  shows "cstr (cl_username (client (handle_sasl ctx st w) ctx)) = u \<and>
    cl_state (client (handle_sasl ctx st w) ctx) = STATE_AUTHENTICATED"
proof -
  let ?d = "plain_message authz u p" and ?c = "client w ctx"
  let ?c1 = "?c\<lparr>cl_username := sasl_username ?d (cl_username ?c)\<rparr>"
  have dec: "b64decode (st_payload st) 127 = Some ?d"
    using b64decode_encode [OF assms(4), of 127] assms(8) by simp
  have len: "length ?d > 1" using assms(9) by (cases u) (auto simp: plain_message_def)
  have user: "cstr (cl_username ?c1) = u"
    using cstr_sasl_username(1) [OF len, of "cl_username ?c"] plain_fields(1) [OF assms(5-7)] assms(10) by simp
  have "deref (cl_username ?c1) \<noteq> NUL" using user assms(9) by (simp add: deref_eq_NUL)
  then have "sasl st (?c, env w) = sasl_accept (?c1, env w)"
    using assms(1,3,11) user dec by (auto simp: sasl_def Let_def strcmp_eq_0 deref_eq_NUL)
  then show ?thesis
    using user on_client_same [OF assms(2), of "sasl st"] by (simp add: handle_sasl_def sasl_accept_state)
qed

theorem sasl_mechanism_bypass_witness:
  "cl_state (client (handle_sasl 0 (auth_stanza [] (b64encode (plain_message [] ''admin'' ''wrong''))) (users_world [([], 7)])) 0) =
     STATE_AUTHENTICATED"
proof -
  let ?m = "b64encode (plain_message [] ''admin'' ''wrong'')"
  have m: "cstr ?m = ?m" by (simp add: plain_message_def b64_chars_def)
  show ?thesis
    using sasl_mechanism_bypass [of "users_world [([], 7)]" 0 "auth_stanza [] ?m" "[]" "''admin''" "''wrong''"]
    by (simp add: m auth_stanza_def users_world_def user_client_def bad_user_char_def)
      (simp add: plain_message_def)
qed

end
