(* ===== verification/Muc.thy ===== *)
theory Muc
  imports Sasl
begin

text \<open>
  Multi-user chat (XEP-0045) of \<^verbatim>\<open>src/src/xmpp/xmpp_handlers.c\<close>: kicks, bans and affiliation
  queries, room configuration and destruction, and joining, renaming and leaving by presence.
  A local array without an initialiser that the code does not fill completely starts with the
  bytes \<open>uninit\<close> of the environment.
\<close>

subsection \<open>Shared pieces\<close>

definition cut_slash :: "cbuf \<Rightarrow> cbuf" where
  "cut_slash b = (case strchr b CHR ''/'' of Some k \<Rightarrow> poke b k NUL | None \<Rightarrow> b)"

definition set_user :: "nat \<Rightarrow> nat \<Rightarrow> (participant_t \<Rightarrow> participant_t) \<Rightarrow> world \<Rightarrow> world" where
  "set_user r j f w = upd_room r (\<lambda>rm. rm\<lparr>rm_users := (rm_users rm)[j := f (rm_users rm ! j)]\<rparr>) w"

text \<open>The loops that send to the occupants of a room: \<open>skip\<close> names the occupants that are passed
  over, the recipient is looked up by address.\<close>

definition tell_occupant :: "nat \<Rightarrow> (nat \<Rightarrow> participant_t \<Rightarrow> bool) \<Rightarrow> (participant_t \<Rightarrow> string) \<Rightarrow> nat \<Rightarrow> world \<Rightarrow> world" where
  "tell_occupant r skip msg j w =
     (let u = rm_users (room w r) ! j in
      if \<not> pt_active u \<or> skip j u then w
      else (case find_client_by_jid (pt_jid u) w of
              None \<Rightarrow> w
            | Some target \<Rightarrow> send_to target (msg u) w))"

definition tell_occupants :: "nat \<Rightarrow> (nat \<Rightarrow> participant_t \<Rightarrow> bool) \<Rightarrow> (participant_t \<Rightarrow> string) \<Rightarrow> world \<Rightarrow> world" where
  "tell_occupants r skip msg w = for_range MAX_USERS_PER_ROOM (tell_occupant r skip msg) w"

text \<open>The frames of the presence stanzas of a room.\<close>

definition muc_unavailable :: "string \<Rightarrow> string" where
  "muc_unavailable body = ''<presence type='unavailable' from='%s/%s' to='%s'><x xmlns='http://jabber.org/protocol/muc#user'>'' @ body @ ''</x></presence>''"

definition muc_available :: "string \<Rightarrow> string" where
  "muc_available body = ''<presence from='%s/%s' to='%s'><x xmlns='http://jabber.org/protocol/muc#user'>'' @ body @ ''</x></presence>''"

definition muc_error :: "string \<Rightarrow> string" where
  "muc_error body = ''<presence type='error' from='%s/%s' to='%s'>'' @ body @ ''</presence>''"

text \<open>The local part of the addressed room, empty without an \<open>@\<close>.\<close>

definition addressed_room :: "xmpp_stanza_t \<Rightarrow> cbuf" where
  "addressed_room st = (case strchr (st_to st) CHR ''@'' of Some at \<Rightarrow> room_name_of (st_to st) at | None \<Rightarrow> zbuf 32)"

text \<open>\<open>strstr\<close> for a text with either kind of quotes around a value.\<close>

definition has_attr :: "cbuf \<Rightarrow> string \<Rightarrow> string \<Rightarrow> bool" where
  "has_attr payload attr val \<longleftrightarrow>
     strstr payload (attr @ ''='' @ [APOS] @ val @ [APOS]) \<noteq> None \<or>
     strstr payload (attr @ ''='' @ [DQUOTE] @ val @ [DQUOTE]) \<noteq> None"

definition reason_of :: "cbuf \<Rightarrow> cbuf" where
  "reason_of payload =
     (case strstr payload ''<reason>'' of
        None \<Rightarrow> zbuf 128
      | Some k \<Rightarrow>
          let start = drop (k + 8) payload in
          (case strstr start ''</reason>'' of
             None \<Rightarrow> zbuf 128
           | Some rlen \<Rightarrow> strncpy (zbuf 128) start (if rlen \<ge> 128 then 127 else rlen)))"

subsection \<open>Kicks and bans\<close>

definition target_nick :: "cbuf \<Rightarrow> cbuf" where
  "target_nick payload =
     (case (case strstr payload (''nick='' @ [APOS]) of
              Some k \<Rightarrow> Some k
            | None \<Rightarrow> strstr payload (''nick='' @ [DQUOTE])) of
        None \<Rightarrow> zbuf 32
      | Some k \<Rightarrow>
          let nick_p = drop (k + 6) payload in
          (case strchr nick_p (deref (drop (k + 5) payload)) of
             None \<Rightarrow> zbuf 32
           | Some nlen \<Rightarrow> strncpy (zbuf 32) nick_p (if nlen \<ge> 32 then 31 else nlen)))"

definition kick_text :: "nat \<Rightarrow> string \<Rightarrow> cbuf \<Rightarrow> cbuf \<Rightarrow> cbuf \<Rightarrow> bool \<Rightarrow> cbuf \<Rightarrow> string" where
  "kick_text n self bare_jid nick to want_ban reason =
     (let aff = VStr (if want_ban then ''outcast'' else ''none''); code = VInt (if want_ban then 301 else 307) in
      if deref reason \<noteq> NUL
      then snprintf n (muc_unavailable (''<item affiliation='%s' role='none'><reason>%s</reason></item>'' @ self @ ''<status code='%d'/>''))
             [VStr bare_jid, VStr nick, VStr to, aff, VStr reason, code]
      else snprintf n (muc_unavailable (''<item affiliation='%s' role='none'/>'' @ self @ ''<status code='%d'/>''))
             [VStr bare_jid, VStr nick, VStr to, aff, code])"

definition record_ban :: "nat \<Rightarrow> cbuf \<Rightarrow> world \<Rightarrow> world" where
  "record_ban r kicked_jid w =
     (let n = rm_banned_count (room w r) in
      if n < int MAX_BANNED_PER_ROOM then
        xmpp_persist_save_rooms
          (upd_room r (\<lambda>rm. rm\<lparr>rm_banned_jids :=
               (rm_banned_jids rm)[nat n := strncpy_term (rm_banned_jids rm ! nat n) (bare_buf kicked_jid) 63],
             rm_banned_count := n + 1\<rparr>) w)
      else w)"

definition kick_occupant :: "bool \<Rightarrow> cbuf \<Rightarrow> cbuf \<Rightarrow> nat \<Rightarrow> nat \<Rightarrow> world \<Rightarrow> world" where
  "kick_occupant want_ban reason bare_jid r j w =
     (let u = rm_users (room w r) ! j;
          kicked_nick = strncpy (uninit 32 (env w)) (pt_nick u) 31;
          kicked_jid = strncpy (uninit 64 (env w)) (pt_jid u) 63;
          w1 = tell_occupants r (\<lambda>k _. k = j)
                 (\<lambda>v. kick_text 512 [] bare_jid kicked_nick (pt_jid v) want_ban reason) w;
          w2 = (case find_client_by_jid kicked_jid w1 of
                  None \<Rightarrow> w1
                | Some t \<Rightarrow> send_to t (kick_text 640 ''<status code='110'/>'' bare_jid kicked_nick kicked_jid want_ban reason) w1);
          w3 = (if want_ban then record_ban r kicked_jid w2 else w2)
      in set_user r j (\<lambda>_. zero_participant) w3)"

definition kick :: "bool \<Rightarrow> xmpp_stanza_t \<Rightarrow> world \<Rightarrow> world" where
  "kick want_ban st w =
     (let nick = target_nick (st_payload st) in
      case room_by_name (addressed_room st) w of
        None \<Rightarrow> w
      | Some r \<Rightarrow>
          (case first_index MAX_USERS_PER_ROOM (\<lambda>j. pt_active (rm_users (room w r) ! j) \<and>
                  \<not> (deref nick \<noteq> NUL \<and> strcmp (pt_nick (rm_users (room w r) ! j)) nick \<noteq> 0)) of
             None \<Rightarrow> w
           | Some j \<Rightarrow> kick_occupant want_ban (reason_of (st_payload st)) (strncpy (zbuf 64) (st_to st) 63) r j w))"

subsection \<open>Affiliation queries\<close>

definition owner_fmt :: string where
  "owner_fmt = ''<iq type='result' id='%s' to='%s'><query xmlns='http://jabber.org/protocol/muc#admin'><item affiliation='owner' jid='%s' role='moderator'/></query></iq>''"

definition admin_empty_fmt :: string where
  "admin_empty_fmt = ''<iq type='result' id='%s' to='%s'><query xmlns='http://jabber.org/protocol/muc#admin'/></iq>''"

definition owner_jid :: "nat \<Rightarrow> xmpp_stanza_t \<Rightarrow> world \<Rightarrow> cbuf" where
  "owner_jid ctx st w =
     (let found =
        (case strchr (st_to st) CHR ''@'' of
           None \<Rightarrow> zbuf 64
         | Some at \<Rightarrow>
             (case room_by_name (room_name_of (st_to st) at) w of
                None \<Rightarrow> zbuf 64
              | Some i \<Rightarrow>
                  if deref (rm_creator_jid (room w i)) \<noteq> NUL then strncpy (zbuf 64) (rm_creator_jid (room w i)) 63
                  else (case first_index MAX_USERS_PER_ROOM (\<lambda>j. pt_active (rm_users (room w i) ! j)) of
                          None \<Rightarrow> zbuf 64
                        | Some j \<Rightarrow> cut_slash (strncpy (zbuf 64) (pt_jid (rm_users (room w i) ! j)) 63))))
      in if deref found = NUL then strncpy found (cl_full_jid (client w ctx)) 63 else found)"

definition handle_muc_admin :: "nat \<Rightarrow> xmpp_stanza_t \<Rightarrow> world \<Rightarrow> world" where
  "handle_muc_admin ctx st w =
     (if st_type st = XMPP_IQ_SET then
        (let want_kick = has_attr (st_payload st) ''role'' ''none'';
             want_ban = has_attr (st_payload st) ''affiliation'' ''outcast''
         in iq_result 1024 ctx st (if want_kick \<or> want_ban then kick want_ban st w else w))
      else if has_attr (st_payload st) ''affiliation'' ''owner'' then
        send_to ctx (snprintf 1024 owner_fmt
          [VStr (st_id st), VStr (cl_full_jid (client w ctx)), VStr (owner_jid ctx st w)]) w
      else reply_id_to 1024 admin_empty_fmt ctx st w)"

subsection \<open>Room configuration\<close>

definition destroy_alt_jid :: "cbuf \<Rightarrow> cbuf" where
  "destroy_alt_jid payload =
     (case strstr payload ''<destroy'' of
        None \<Rightarrow> zbuf 64
      | Some k \<Rightarrow>
          (case strstr (drop k payload) ''jid='' of
             None \<Rightarrow> zbuf 64
           | Some a \<Rightarrow>
               let p = drop (k + a + 4) payload in
               (case strchr (drop 1 p) (deref p) of
                  None \<Rightarrow> zbuf 64
                | Some al \<Rightarrow> strncpy (zbuf 64) (drop 1 p) (if al \<ge> 64 then 63 else al))))"

definition destroy_text :: "cbuf \<Rightarrow> cbuf \<Rightarrow> cbuf \<Rightarrow> participant_t \<Rightarrow> string" where
  "destroy_text bare_jid alt_jid reason u =
     (let args = [VStr bare_jid, VStr (pt_nick u), VStr (pt_jid u)];
          item = ''<item affiliation='none' role='none'/>'' in
      if deref alt_jid \<noteq> NUL \<and> deref reason \<noteq> NUL
      then snprintf 640 (muc_unavailable (item @ ''<destroy jid='%s'><reason>%s</reason></destroy>'')) (args @ [VStr alt_jid, VStr reason])
      else if deref alt_jid \<noteq> NUL
      then snprintf 640 (muc_unavailable (item @ ''<destroy jid='%s'/>'')) (args @ [VStr alt_jid])
      else snprintf 640 (muc_unavailable (item @ ''<destroy/>'')) args)"

definition destroy_room :: "xmpp_stanza_t \<Rightarrow> world \<Rightarrow> world" where
  "destroy_room st w =
     (case room_by_name (addressed_room st) w of
        None \<Rightarrow> w
      | Some r \<Rightarrow>
          let bl = (case strchr (st_to st) CHR ''/'' of Some k \<Rightarrow> k | None \<Rightarrow> strlen (st_to st));
              bare_jid = strncpy (strncpy (zbuf 64) (st_to st) (if bl \<ge> 64 then 63 else bl)) (st_to st) 63;
              w1 = tell_occupants r (\<lambda>_ _. False)
                     (destroy_text bare_jid (destroy_alt_jid (st_payload st)) (reason_of (st_payload st))) w
          in xmpp_persist_save_rooms (upd_room r (\<lambda>_. zero_room) w1))"

text \<open>The macro \<open>PARSE_BOOL_FIELD\<close>: the value of a form field, when the form has it.\<close>

definition form_value :: "cbuf \<Rightarrow> string \<Rightarrow> cbuf option" where
  "form_value payload var =
     (case strstr payload var of
        None \<Rightarrow> None
      | Some k \<Rightarrow>
          (case strstr (drop k payload) ''<value>'' of
             None \<Rightarrow> None
           | Some v \<Rightarrow> Some (drop (k + v + 7) payload)))"

definition form_bool :: "cbuf \<Rightarrow> string \<Rightarrow> int \<Rightarrow> int" where
  "form_bool payload var old =
     (case form_value payload var of
        None \<Rightarrow> old
      | Some v \<Rightarrow> if deref v = CHR ''1'' \<or> strncmp v ''true'' 4 = 0 then 1 else 0)"

definition configure_room :: "cbuf \<Rightarrow> room_t \<Rightarrow> room_t" where
  "configure_room payload r =
     r\<lparr>rm_locked := 0,
       rm_persistent := form_bool payload ''muc#roomconfig_persistentroom'' (rm_persistent r),
       rm_moderated := form_bool payload ''muc#roomconfig_moderatedroom'' (rm_moderated r),
       rm_members_only := form_bool payload ''muc#roomconfig_membersonly'' (rm_members_only r),
       rm_semi_anon := (case form_value payload ''muc#roomconfig_whois'' of
                          None \<Rightarrow> rm_semi_anon r
                        | Some v \<Rightarrow> if strncmp v ''moderators'' 10 = 0 then 1 else 0)\<rparr>"

definition owner_result_fmt :: string where
  "owner_result_fmt = ''<iq type='result' id='%s' to='%s' from='%s'/>''"

definition bool_field :: "string \<Rightarrow> string \<Rightarrow> string" where
  "bool_field var label = ''<field type='boolean' var='muc#roomconfig_'' @ var @ APOS # '' label='' @ APOS # label @ APOS # ''><value>%d</value></field>''"

definition owner_form_fmt :: string where
  "owner_form_fmt =
     ''<iq type='result' id='%s' to='%s' from='%s'><query xmlns='http://jabber.org/protocol/muc#owner'><x xmlns='jabber:x:data' type='form'>'' @
     ''<field type='hidden' var='FORM_TYPE'><value>http://jabber.org/protocol/muc#roomconfig</value></field>'' @
     ''<field type='text-single' var='muc#roomconfig_roomname' label='room name'><value>%s</value></field>'' @
     ''<field type='text-single' var='muc#roomconfig_roomdesc' label='short description of room'><value></value></field>'' @
     bool_field ''persistentroom'' ''make room persistent'' @
     bool_field ''publicroom'' ''make room publicly listed'' @
     bool_field ''moderatedroom'' ''enable moderation'' @
     bool_field ''membersonly'' ''make room members-only'' @
     bool_field ''allowinvites'' ''allow occupants to invite others'' @
     ''<field type='list-single' var='muc#roomconfig_whois' label='who can see occupant real jids'><value>%s</value>'' @
     ''<option label='moderators only'><value>moderators</value></option><option label='anyone'><value>anyone</value></option></field>'' @
     ''</x></query></iq>''"

definition owner_form :: "nat \<Rightarrow> xmpp_stanza_t \<Rightarrow> world \<Rightarrow> world" where
  "owner_form ctx st w =
     (let name = addressed_room st;
          label = (if deref name \<noteq> NUL then name else ''unnamed room'');
          (semi_anon, persistent, moderated, members_only) =
            (case room_by_name name w of
               None \<Rightarrow> (1, 0, 0, 0)
             | Some i \<Rightarrow> (rm_semi_anon (room w i), rm_persistent (room w i), rm_moderated (room w i), rm_members_only (room w i)))
      in send_to ctx (snprintf 2048 owner_form_fmt
           [VStr (st_id st), VStr (cl_full_jid (client w ctx)), VStr (st_to st), VStr label, VInt persistent, VInt 1,
            VInt moderated, VInt members_only, VInt 1, VStr (if semi_anon \<noteq> 0 then ''moderators'' else ''anyone'')]) w)"

definition handle_muc_owner :: "nat \<Rightarrow> xmpp_stanza_t \<Rightarrow> world \<Rightarrow> world" where
  "handle_muc_owner ctx st w =
     (if st_type st = XMPP_IQ_SET \<and> strstr (st_payload st) ''<destroy'' \<noteq> None then
        iq_result 256 ctx st (destroy_room st w)
      else if st_type st = XMPP_IQ_SET \<or> has_attr (st_payload st) ''type'' ''submit'' then
        (let w1 = (case room_by_name (addressed_room st) w of
                     None \<Rightarrow> w
                   | Some i \<Rightarrow> xmpp_persist_save_rooms (upd_room i (configure_room (st_payload st)) w))
         in send_to ctx (snprintf 1024 owner_result_fmt
              [VStr (st_id st), VStr (cl_full_jid (client w1 ctx)), VStr (st_to st)]) w1)
      else owner_form ctx st w)"

subsection \<open>Leaving a room\<close>

definition leave_fmt :: string where
  "leave_fmt = muc_unavailable ''<item affiliation='member' role='none'/>''"

definition leave_self_fmt :: string where
  "leave_self_fmt = muc_unavailable ''<item affiliation='member' role='none'/><status code='110'/>''"

definition release_room :: "room_t \<Rightarrow> room_t" where
  "release_room r =
     (if rm_persistent r = 0 then
        r\<lparr>rm_active := 0, rm_name := memset (rm_name r) NUL 32, rm_creator_jid := memset (rm_creator_jid r) NUL 64,
          rm_subject := poke (rm_subject r) 0 NUL, rm_banned_count := 0, rm_persistent := 0, rm_moderated := 0, rm_members_only := 0\<rparr>
      else r)"

definition occupied :: "room_t \<Rightarrow> bool" where
  "occupied r \<longleftrightarrow> first_index MAX_USERS_PER_ROOM (\<lambda>j. pt_active (rm_users r ! j)) \<noteq> None"

definition muc_leave :: "nat \<Rightarrow> cbuf \<Rightarrow> cbuf \<Rightarrow> nat \<Rightarrow> world \<Rightarrow> world" where
  "muc_leave ctx bare_jid nick r w =
     (case first_index MAX_USERS_PER_ROOM (\<lambda>i. pt_active (rm_users (room w r) ! i) \<and>
             strcmp (pt_nick (rm_users (room w r) ! i)) nick = 0) of
        None \<Rightarrow> w
      | Some i \<Rightarrow>
          let w1 = tell_occupants r (\<lambda>j _. j = i)
                     (\<lambda>u. snprintf 1024 leave_fmt [VStr bare_jid, VStr nick, VStr (pt_jid u)]) w;
              w2 = send_to ctx (snprintf 1024 leave_self_fmt [VStr bare_jid, VStr nick, VStr (cl_full_jid (client w1 ctx))]) w1;
              w3 = set_user r i (\<lambda>_. zero_participant) w2
          in if occupied (room w3 r) then w3
             else xmpp_persist_save_rooms (upd_room r release_room w3))"

subsection \<open>Renaming and repeated presence\<close>

definition again_fmt :: "string \<Rightarrow> string" where
  "again_fmt self = ''<presence from='%s/%s' to='%s'>%s<x xmlns='http://jabber.org/protocol/muc#user'><item affiliation='%s' role='%s'/>'' @ self @ ''</x></presence>''"

definition status_110 :: string where
  "status_110 = ''<status code='110'/>''"

definition muc_again :: "nat \<Rightarrow> xmpp_stanza_t \<Rightarrow> cbuf \<Rightarrow> cbuf \<Rightarrow> nat \<Rightarrow> nat \<Rightarrow> world \<Rightarrow> world" where
  "muc_again ctx st bare_jid nick r idx w =
     (let rm = room w r; full = cl_full_jid (client w ctx);
          owner = (strcmp (pt_jid (rm_users rm ! idx)) (rm_creator_jid rm) = 0);
          inner = (if deref (st_payload st) \<noteq> NUL then st_payload st else [])
      in tell_occupants r (\<lambda>_ _. False)
           (\<lambda>u. snprintf 2400 (again_fmt (if strcmp (pt_jid u) full = 0 then status_110 else []))
              [VStr bare_jid, VStr nick, VStr (pt_jid u), VStr inner, VStr (if owner then ''owner'' else ''member''),
               VStr (if owner then ''moderator'' else ''participant'')]) w)"

definition rename_conflict_fmt :: string where
  "rename_conflict_fmt = muc_error ''<x xmlns='http://jabber.org/protocol/muc'/><error type='cancel' by='%s'><conflict xmlns='urn:ietf:params:xml:ns:xmpp-stanzas'/></error>''"

definition old_nick_fmt :: "string \<Rightarrow> string" where
  "old_nick_fmt self = muc_unavailable (''<item affiliation='member' role='participant' nick='%s'/><status code='303'/>'' @ self)"

definition new_nick_fmt :: "string \<Rightarrow> string" where
  "new_nick_fmt self = muc_available (''<item affiliation='member' role='participant'/>'' @ self)"

definition muc_rename :: "nat \<Rightarrow> cbuf \<Rightarrow> cbuf \<Rightarrow> nat \<Rightarrow> nat \<Rightarrow> world \<Rightarrow> world" where
  "muc_rename ctx bare_jid nick r idx w =
     (let rm = room w r; full = cl_full_jid (client w ctx); old_nick = pt_nick (rm_users rm ! idx);
          self = (\<lambda>u. if strcmp (pt_jid u) full = 0 then status_110 else [])
      in if first_index MAX_USERS_PER_ROOM (\<lambda>i. pt_active (rm_users rm ! i) \<and> i \<noteq> idx \<and>
              strcmp (pt_nick (rm_users rm ! i)) nick = 0) \<noteq> None then
           send_to ctx (snprintf 512 rename_conflict_fmt [VStr bare_jid, VStr nick, VStr full, VStr bare_jid]) w
         else
           let w1 = tell_occupants r (\<lambda>_ _. False)
                      (\<lambda>u. snprintf 512 (old_nick_fmt (self u)) [VStr bare_jid, VStr old_nick, VStr (pt_jid u), VStr nick]) w;
               w2 = set_user r idx (\<lambda>u. u\<lparr>pt_nick := strncpy_term (pt_nick u) nick 31\<rparr>) w1
           in tell_occupants r (\<lambda>_ _. False)
                (\<lambda>u. snprintf 512 (new_nick_fmt (self u)) [VStr bare_jid, VStr nick, VStr (pt_jid u)]) w2)"

subsection \<open>Joining\<close>

definition locked_fmt :: string where
  "locked_fmt = muc_error ''<error type='cancel' code='404'><item-not-found xmlns='urn:ietf:params:xml:ns:xmpp-stanzas'/></error>''"

definition banned_fmt :: string where
  "banned_fmt = muc_error ''<error type='auth' code='403'><forbidden xmlns='urn:ietf:params:xml:ns:xmpp-stanzas'/></error>''"

definition nick_conflict_fmt :: string where
  "nick_conflict_fmt = muc_error ''<error type='cancel' code='409'><conflict xmlns='urn:ietf:params:xml:ns:xmpp-stanzas'/></error>''"

definition occupant_fmt :: "string \<Rightarrow> string" where
  "occupant_fmt jid = muc_available (''<item affiliation='member' role='participant''  @ APOS # jid @ ''/>'')"

definition jid_attr :: string where
  "jid_attr = '' jid='%s'' @ [APOS]"

definition joined_new_fmt :: string where
  "joined_new_fmt = muc_available ''<item affiliation='owner' role='moderator'/><status code='110'/><status code='201'/>''"

definition joined_fmt :: string where
  "joined_fmt = muc_available ''<item affiliation='member' role='participant'/><status code='110'/>''"

definition subject_fmt :: string where
  "subject_fmt = ''<message from='%s' to='%s' type='groupchat'><subject>%s</subject></message>''"

definition room_error :: "string \<Rightarrow> cbuf \<Rightarrow> cbuf \<Rightarrow> nat \<Rightarrow> world \<Rightarrow> world" where
  "room_error fmt bare_jid nick ctx w =
     send_to ctx (snprintf 512 fmt [VStr bare_jid, VStr nick, VStr (cl_full_jid (client w ctx))]) w"

definition open_room :: "cbuf \<Rightarrow> cbuf \<Rightarrow> room_t \<Rightarrow> room_t" where
  "open_room name full_jid r =
     r\<lparr>rm_active := 1, rm_name := strcpy (rm_name r) name,
       rm_creator_jid := cut_slash (strncpy_term (rm_creator_jid r) full_jid 63), rm_semi_anon := 1, rm_locked := 0\<rparr>"

definition enter :: "xmpp_client_ctx_t \<Rightarrow> cbuf \<Rightarrow> participant_t \<Rightarrow> participant_t" where
  "enter c nick u =
     u\<lparr>pt_active := True, pt_pcb := cl_pcb c, pt_nick := strncpy (pt_nick u) nick 31,
       pt_jid := cut_slash (strncpy_term (pt_jid u) (cl_full_jid c) 63)\<rparr>"

text \<open>The three rounds of presence after a join: the occupants to the newcomer, the newcomer to the
  occupants, and the newcomer's own presence with the subject.\<close>

definition introduce :: "nat \<Rightarrow> cbuf \<Rightarrow> bool \<Rightarrow> nat \<Rightarrow> nat \<Rightarrow> world \<Rightarrow> world" where
  "introduce ctx bare_jid owner r i w =
     (let u = rm_users (room w r) ! i; full = cl_full_jid (client w ctx) in
      if \<not> pt_active u \<or> strcmp (pt_jid u) (bare_buf full) = 0 then w
      else send_to ctx
        (if rm_semi_anon (room w r) = 0 \<or> owner
         then snprintf 1024 (occupant_fmt jid_attr) [VStr bare_jid, VStr (pt_nick u), VStr full, VStr (pt_jid u)]
         else snprintf 1024 (occupant_fmt []) [VStr bare_jid, VStr (pt_nick u), VStr full]) w)"

definition greet :: "nat \<Rightarrow> cbuf \<Rightarrow> cbuf \<Rightarrow> bool \<Rightarrow> nat \<Rightarrow> world \<Rightarrow> world" where
  "greet ctx bare_jid nick is_new r w =
     (let full = cl_full_jid (client w ctx);
          owner = (strcmp (bare_buf full) (rm_creator_jid (room w r)) = 0);
          w1 = for_range MAX_USERS_PER_ROOM (introduce ctx bare_jid owner r) w;
          w2 = tell_occupants r (\<lambda>_ u. strcmp (pt_jid u) (bare_buf full) = 0)
                 (\<lambda>u. if rm_semi_anon (room w1 r) = 0 \<or> strcmp (pt_jid u) (rm_creator_jid (room w1 r)) = 0
                      then snprintf 1024 (occupant_fmt jid_attr) [VStr bare_jid, VStr nick, VStr (pt_jid u), VStr full]
                      else snprintf 1024 (occupant_fmt []) [VStr bare_jid, VStr nick, VStr (pt_jid u)]) w1;
          w3 = send_to ctx (snprintf 1024 (if is_new then joined_new_fmt else joined_fmt) [VStr bare_jid, VStr nick, VStr full]) w2;
          subj = rm_subject (room w3 r)
      in send_to ctx (snprintf 1024 subject_fmt
           [VStr bare_jid, VStr full, VStr (if deref subj \<noteq> NUL then subj else ''unikernel lobby'')]) w3)"

definition muc_join :: "nat \<Rightarrow> cbuf \<Rightarrow> cbuf \<Rightarrow> bool \<Rightarrow> nat \<Rightarrow> world \<Rightarrow> world" where
  "muc_join ctx bare_jid nick is_new r w =
     (let rm = room w r; c = client w ctx in
      if first_index (nat (rm_banned_count rm)) (\<lambda>bi. strcmp (rm_banned_jids rm ! bi) (bare_buf (cl_full_jid c)) = 0) \<noteq> None then
        room_error banned_fmt bare_jid nick ctx w
      else if first_index MAX_USERS_PER_ROOM (\<lambda>i. pt_active (rm_users rm ! i) \<and> strcmp (pt_nick (rm_users rm ! i)) nick = 0) \<noteq> None then
        room_error nick_conflict_fmt bare_jid nick ctx w
      else
        let w1 = (case first_index MAX_USERS_PER_ROOM (\<lambda>i. \<not> pt_active (rm_users rm ! i)) of
                    Some i \<Rightarrow> set_user r i (enter c nick) w
                  | None \<Rightarrow> w)
        in greet ctx bare_jid nick is_new r w1)"

text \<open>The room of a presence: an existing one, or the first free slot, opened for the sender.\<close>

definition find_or_open :: "nat \<Rightarrow> cbuf \<Rightarrow> world \<Rightarrow> (nat \<times> bool \<times> world) option" where
  "find_or_open ctx name w =
     (case room_by_name name w of
        Some r \<Rightarrow> Some (r, False, w)
      | None \<Rightarrow>
          (case first_index MAX_ROOMS (\<lambda>i. rm_active (room w i) = 0) of
             Some r \<Rightarrow> Some (r, True, xmpp_persist_save_rooms (upd_room r (open_room name (cl_full_jid (client w ctx))) w))
           | None \<Rightarrow> None))"

definition in_room :: "nat \<Rightarrow> xmpp_stanza_t \<Rightarrow> cbuf \<Rightarrow> cbuf \<Rightarrow> bool \<Rightarrow> nat \<Rightarrow> world \<Rightarrow> world" where
  "in_room ctx st bare_jid nick is_new r w =
     (let rm = room w r; sender = bare_buf (cl_full_jid (client w ctx)) in
      if rm_locked rm \<noteq> 0 \<and> strcmp sender (rm_creator_jid rm) \<noteq> 0 then room_error locked_fmt bare_jid nick ctx w
      else if st_type st = XMPP_PRESENCE_UNAVAILABLE then muc_leave ctx bare_jid nick r w
      else (case first_index MAX_USERS_PER_ROOM (\<lambda>i. pt_active (rm_users rm ! i) \<and> strcmp (pt_jid (rm_users rm ! i)) sender = 0) of
        Some idx \<Rightarrow>
          if strcmp (pt_nick (rm_users rm ! idx)) nick = 0 then muc_again ctx st bare_jid nick r idx w
          else muc_rename ctx bare_jid nick r idx w
      | None \<Rightarrow> muc_join ctx bare_jid nick is_new r w))"

definition handle_muc_presence :: "nat \<Rightarrow> xmpp_stanza_t \<Rightarrow> world \<Rightarrow> world" where
  "handle_muc_presence ctx st w =
     (case strchr (st_to st) CHR ''/'' of
        None \<Rightarrow> w
      | Some k \<Rightarrow>
          let nick = strncpy_term (uninit 32 (env w)) (drop (k + 1) (st_to st)) 31;
              bare_len = (if k > 63 then 63 else k);
              bare_jid = strncpy_term (uninit 64 (env w)) (st_to st) bare_len
          in (case strchr (st_to st) CHR ''@'' of
                None \<Rightarrow> w
              | Some at \<Rightarrow>
                  (case find_or_open ctx (room_name_of (st_to st) at) w of
                     None \<Rightarrow> w
                   | Some (r, is_new, w1) \<Rightarrow> in_room ctx st bare_jid nick is_new r w1)))"

subsection \<open>Memory safety\<close>

lemma tell_occupant_ok: "world_ok w \<Longrightarrow> world_ok (tell_occupant r skip msg j w)"
  by (auto simp: tell_occupant_def Let_def world_ok_send_to split: option.split)

lemma tell_occupants_ok: "world_ok w \<Longrightarrow> world_ok (tell_occupants r skip msg w)"
  unfolding tell_occupants_def by (rule for_range_ok) (simp_all add: tell_occupant_ok)

lemma set_user_ok:
  assumes "world_ok w" and "\<And>u. participant_ok u \<Longrightarrow> participant_ok (f u)"
  shows "world_ok (set_user r j f w)"
  unfolding set_user_def using assms
  by (intro world_ok_upd_room) (auto simp: room_ok_def dest: array_ok_nth)

lemma buf_cut_slash: "buf n b \<Longrightarrow> buf n (cut_slash b)"
  using length_cstr_le [of b]
  by (auto simp: cut_slash_def strchr_Some split: option.split intro!: buf_poke_NUL buf_length)
    (auto simp: buf_def)

lemma record_ban_ok: "world_ok w \<Longrightarrow> world_ok (record_ban r j w)"
proof -
  assume w: "world_ok w"
  have "room_ok (rm\<lparr>rm_banned_jids := (rm_banned_jids rm)[nat n := strncpy_term (rm_banned_jids rm ! nat n) b 63], rm_banned_count := n + 1\<rparr>)"
    if "room_ok rm" "0 \<le> n" "n < 8" for rm n b
  proof -
    have "buf 64 (rm_banned_jids rm ! nat n)" using that array_ok_nth [of 8 "buf 64" "rm_banned_jids rm" "nat n"] by (simp add: room_ok_def)
    then show ?thesis using that by (auto simp: room_ok_def buf_length intro!: array_ok_update buf_strncpy_term)
  qed
  moreover have "r < 4 \<Longrightarrow> 0 \<le> rm_banned_count (room w r)" using world_ok_room [OF w] by (simp add: room_ok_def)
  ultimately show ?thesis using w by (auto simp: record_ban_def Let_def world_ok_save intro!: world_ok_upd_room)
qed

lemma kick_occupant_ok: "world_ok w \<Longrightarrow> world_ok (kick_occupant b rs bj r j w)"
  unfolding kick_occupant_def Let_def
  by (auto intro!: set_user_ok record_ban_ok tell_occupants_ok world_ok_send_to split: option.split)

lemma handle_muc_admin_ok [handler_ok]: "world_ok w \<Longrightarrow> world_ok (handle_muc_admin ctx st w)"
  unfolding handle_muc_admin_def kick_def Let_def
  by (auto intro!: handler_ok kick_occupant_ok split: option.split)

lemma configure_room_ok: "room_ok r \<Longrightarrow> room_ok (configure_room p r)"
  by (simp add: configure_room_def room_ok_def)

lemma destroy_room_ok: "world_ok w \<Longrightarrow> world_ok (destroy_room st w)"
  unfolding destroy_room_def Let_def
  by (auto simp: world_ok_save intro!: world_ok_upd_room tell_occupants_ok split: option.split)

lemma handle_muc_owner_ok [handler_ok]: "world_ok w \<Longrightarrow> world_ok (handle_muc_owner ctx st w)"
  unfolding handle_muc_owner_def owner_form_def Let_def case_prod_beta
  by (auto simp: world_ok_save intro!: handler_ok destroy_room_ok world_ok_upd_room configure_room_ok split: option.split)

lemma release_room_ok: "room_ok r \<Longrightarrow> room_ok (release_room r)"
  by (auto simp: release_room_def room_ok_def buf_def memset_eq buf_simps poke_def intro: set_update_memI)

lemma muc_leave_ok: "world_ok w \<Longrightarrow> world_ok (muc_leave ctx bj n r w)"
  unfolding muc_leave_def Let_def
  by (auto simp: world_ok_save intro!: world_ok_upd_room release_room_ok set_user_ok world_ok_send_to tell_occupants_ok split: option.split)

lemma muc_again_ok: "world_ok w \<Longrightarrow> world_ok (muc_again ctx st bj n r i w)"
  unfolding muc_again_def Let_def by (rule tell_occupants_ok)

lemma strncpy_term_last: "length d = Suc n \<Longrightarrow> strncpy_term d s n ! n = NUL"
  by (simp add: strncpy_term_def nth_poke length_strncpy)

lemma rename_participant_ok: "participant_ok u \<Longrightarrow> participant_ok (u\<lparr>pt_nick := strncpy_term (pt_nick u) nick 31\<rparr>)"
  by (simp add: participant_ok_def buf_strncpy_term buf_length strncpy_term_last)

lemma muc_rename_ok: "world_ok w \<Longrightarrow> world_ok (muc_rename ctx bj n r i w)"
  unfolding muc_rename_def Let_def
  by (auto intro!: world_ok_send_to tell_occupants_ok set_user_ok rename_participant_ok)

lemma enter_ok: "participant_ok u \<Longrightarrow> participant_ok (enter c nick u)"
proof -
  assume u: "participant_ok u"
  then have "length (pt_nick u) = 32" by (simp add: participant_ok_def buf_def)
  then have n: "strncpy (pt_nick u) nick 31 ! 31 = pt_nick u ! 31" "length (strncpy (pt_nick u) nick 31) = 32"
    by (simp_all add: strncpy_eq nth_append min_def)
  then have "NUL \<in> set (strncpy (pt_nick u) nick 31)"
    using u nth_mem [of 31 "strncpy (pt_nick u) nick 31"] by (simp add: participant_ok_def)
  then have "buf 32 (strncpy (pt_nick u) nick 31)" using n(2) by (simp add: buf_def)
  moreover have "buf 64 (cut_slash (strncpy_term (pt_jid u) (cl_full_jid c) 63))"
    using u by (intro buf_cut_slash buf_strncpy_term) (simp_all add: participant_ok_def buf_length)
  ultimately show ?thesis using u n by (simp add: participant_ok_def enter_def)
qed

lemma open_room_ok: "room_ok r \<Longrightarrow> length (cstr name) < 32 \<Longrightarrow> room_ok (open_room name full r)"
  by (simp add: open_room_def room_ok_def buf_cut_slash buf_strncpy_term buf_length)
    (simp add: buf_def strcpy_eq)
lemma introduce_ok: "world_ok w \<Longrightarrow> world_ok (introduce ctx bj own r i w)"
  by (auto simp: introduce_def Let_def world_ok_send_to)

lemma greet_ok: "world_ok w \<Longrightarrow> world_ok (greet ctx bj n new r w)"
  unfolding greet_def Let_def by (auto intro!: world_ok_send_to tell_occupants_ok for_range_ok introduce_ok)

lemma muc_join_ok: "world_ok w \<Longrightarrow> world_ok (muc_join ctx bj n new r w)"
  unfolding muc_join_def room_error_def Let_def
  by (auto intro!: world_ok_send_to greet_ok set_user_ok enter_ok split: option.split)

lemma in_room_ok: "world_ok w \<Longrightarrow> world_ok (in_room ctx st bj n new r w)"
  unfolding in_room_def room_error_def Let_def
  by (auto intro!: world_ok_send_to muc_leave_ok muc_again_ok muc_rename_ok muc_join_ok split: option.split)

lemma room_name_of_short: "length (cstr (room_name_of a at)) < 32"
  by (simp add: room_name_of_def cstr_strncpy_zbuf min_def)

lemma find_or_open_ok:
  "world_ok w \<Longrightarrow> find_or_open ctx name w = Some (r, new, w') \<Longrightarrow> length (cstr name) < 32 \<Longrightarrow> world_ok w'"
  by (auto simp: find_or_open_def world_ok_save split: option.splits intro!: world_ok_upd_room open_room_ok)

lemma handle_muc_presence_ok [handler_ok]: "world_ok w \<Longrightarrow> world_ok (handle_muc_presence ctx st w)"
  unfolding handle_muc_presence_def Let_def
  by (auto split: option.split intro!: in_room_ok dest: find_or_open_ok [OF _ _ room_name_of_short])

subsection \<open>Sending leaves the rooms alone\<close>

lemma tell_occupants_rooms [simp]: "rooms (tell_occupants r skip msg w) = rooms w"
  unfolding tell_occupants_def
  by (rule for_range_frame [where g = rooms]) (simp add: tell_occupant_def Let_def split: option.split)

lemma room_replies [simp]:
  "rooms (iq_result n ctx st w) = rooms w" "rooms (reply_id_to n fmt ctx st w) = rooms w"
  "rooms (room_error fmt bj nick ctx w) = rooms w" "rooms (muc_again ctx st bj nick r i w) = rooms w"
  by (simp_all add: iq_result_def reply_id_to_def room_error_def muc_again_def Let_def)

lemma greet_rooms [simp]: "rooms (greet ctx bj n new r w) = rooms w"
proof -
  have "rooms (for_range 8 (introduce ctx bj own r) s) = rooms s" for own s
    by (rule for_range_frame [where g = rooms]) (simp add: introduce_def Let_def)
  then show ?thesis by (simp add: greet_def Let_def)
qed

lemma upd_room_rooms: "rooms (upd_room r f w) = (rooms w)[r := f (room w r)]"
  by (simp add: upd_room_def)

lemma set_user_rooms:
  "rooms (set_user r j f w) = (rooms w)[r := (room w r)\<lparr>rm_users := (rm_users (room w r))[j := f (rm_users (room w r) ! j)]\<rparr>]"
  by (simp add: set_user_def upd_room_def)

subsection \<open>Occupants are distinct\<close>

lemma slot_keys_distinct:
  "distinct (slot_keys act key s) \<longleftrightarrow>
     (\<forall>i<length s. \<forall>j<length s. i \<noteq> j \<longrightarrow> act (s ! i) \<longrightarrow> act (s ! j) \<longrightarrow> key (s ! i) \<noteq> key (s ! j))"
proof (induction s)
  case (Cons a s)
  have "key a \<notin> set (slot_keys act key s) \<longleftrightarrow> (\<forall>i<length s. act (s ! i) \<longrightarrow> key (s ! i) \<noteq> key a)"
    using slot_missing [of s act key "key a"] by auto
  moreover have "slot_keys act key (a # s) = (if act a then key a # slot_keys act key s else slot_keys act key s)"
    by (simp add: slot_keys_def)
  ultimately show ?case using Cons by (auto simp: All_less_Suc2)
qed (simp add: slot_keys_def)

lemma slot_keys_set:
  assumes "distinct (slot_keys act key s)"
    and "act x \<Longrightarrow> (\<And>j. j < length s \<Longrightarrow> j \<noteq> i \<Longrightarrow> act (s ! j) \<Longrightarrow> key (s ! j) \<noteq> key x)"
  shows "distinct (slot_keys act key (s[i := x]))"
  unfolding slot_keys_distinct
proof (intro allI impI)
  fix j k
  assume "j < length (s[i := x])" "k < length (s[i := x])" "j \<noteq> k" "act (s[i := x] ! j)" "act (s[i := x] ! k)"
  then show "key (s[i := x] ! j) \<noteq> key (s[i := x] ! k)"
    using assms(2) [of j] assms(2) [of k] assms(1) [unfolded slot_keys_distinct, rule_format, of j k]
    by (cases "j = i"; cases "k = i") (auto simp: nth_list_update)
qed

text \<open>No two occupants of a room have the same nickname or the same address.\<close>

definition room_distinct :: "room_t \<Rightarrow> bool" where
  "room_distinct rm \<longleftrightarrow> distinct (slot_keys pt_active (cstr \<circ> pt_nick) (rm_users rm)) \<and>
     distinct (slot_keys pt_active (cstr \<circ> pt_jid) (rm_users rm))"

definition rooms_distinct :: "world \<Rightarrow> bool" where
  "rooms_distinct w \<longleftrightarrow> list_all room_distinct (rooms w)"

lemma room_distinct_users: "rm_users r = rm_users r' \<Longrightarrow> room_distinct r = room_distinct r'"
  by (simp add: room_distinct_def)

lemma room_distinct_zero [simp]: "room_distinct zero_room"
  by (simp add: room_distinct_def slot_keys_def zero_room_def zero_participant_def)

lemma rooms_distinct_upd:
  assumes "rooms_distinct w" and "r < length (rooms w) \<Longrightarrow> room_distinct (room w r) \<Longrightarrow> room_distinct (f (room w r))"
  shows "rooms_distinct (upd_room r f w)"
  using assms by (cases "r < length (rooms w)")
    (auto simp: rooms_distinct_def upd_room_rooms list_all_length nth_list_update list_update_beyond)

lemma room_distinct_remove:
  "room_distinct rm \<Longrightarrow> room_distinct (rm\<lparr>rm_users := (rm_users rm)[j := zero_participant]\<rparr>)"
  by (auto simp: room_distinct_def zero_participant_def intro!: slot_keys_set)

lemma rooms_distinct_cong: "rooms w' = rooms w \<Longrightarrow> rooms_distinct w' = rooms_distinct w"
  by (simp add: rooms_distinct_def)

lemma cut_slash_cstr: "cstr (cut_slash b) = takeWhile (\<lambda>c. c \<noteq> CHR ''/'') (cstr b)"
proof (cases "strchr b CHR ''/''")
  case None
  then have "CHR ''/'' \<notin> set (cstr b)" by (simp add: strchr_None)
  then have t: "takeWhile (\<lambda>c. c \<noteq> CHR ''/'') (cstr b) = cstr b" by (auto simp: takeWhile_eq_all_conv)
  show ?thesis unfolding t cut_slash_def None by simp
next
  case (Some k)
  then have "k < length (cstr b)" "cstr b ! k = CHR ''/''" "\<forall>i<k. cstr b ! i \<noteq> CHR ''/''"
    by (simp_all add: strchr_Some)
  then have "takeWhile (\<lambda>c. c \<noteq> CHR ''/'') (cstr b) = take k (cstr b)"
    by (intro takeWhile_eq_take_P_nth) auto
  with Some show ?thesis by (simp add: cut_slash_def cstr_poke_NUL)
qed

definition bare :: "string \<Rightarrow> string" where
  "bare j = takeWhile (\<lambda>c. c \<noteq> CHR ''/'') (take 63 j)"

lemma cstr_bare_buf: "cstr (bare_buf j) = bare (cstr j)"
  using cut_slash_cstr [of "strncpy (zbuf 64) j 63"]
  by (simp add: bare_buf_def cut_slash_def Let_def bare_def cstr_strncpy_zbuf)

lemma cstr_enter:
  assumes "participant_ok u" and "length (cstr nick) < 32"
  shows "cstr (pt_nick (enter c nick u)) = cstr nick" and "cstr (pt_jid (enter c nick u)) = bare (cstr (cl_full_jid c))"
    and "pt_active (enter c nick u)"
proof -
  have l: "length (pt_nick u) = 32" "pt_nick u ! 31 = NUL" using assms(1) by (simp_all add: participant_ok_def buf_length)
  then have "drop 31 (pt_nick u) = [NUL]" using Cons_nth_drop_Suc [of 31 "pt_nick u"] by simp
  then show "cstr (pt_nick (enter c nick u)) = cstr nick"
    using assms(2) by (simp add: enter_def strncpy_eq cstr_append)
  show "cstr (pt_jid (enter c nick u)) = bare (cstr (cl_full_jid c))" "pt_active (enter c nick u)"
    by (simp_all add: enter_def cut_slash_cstr bare_def cstr_simps)
qed

lemma rooms_distinct_frame [simp]:
  "rooms_distinct (xmpp_persist_save_rooms w) = rooms_distinct w" "rooms_distinct (send_to i d w) = rooms_distinct w"
  "rooms_distinct (tell_occupants r skip msg w) = rooms_distinct w" "rooms_distinct (greet ctx bj nick new r w) = rooms_distinct w"
  "rooms_distinct (room_error fmt bj nick ctx w) = rooms_distinct w" "rooms_distinct (iq_result n ctx st w) = rooms_distinct w"
  "rooms_distinct (reply_id_to n fmt ctx st w) = rooms_distinct w" "rooms_distinct (muc_again ctx st bj nick r i w) = rooms_distinct w"
  by (simp_all add: rooms_distinct_def)

lemma muc_join_distinct:
  assumes "world_ok w" and "rooms_distinct w" and "r < 4" and "length (cstr nick) < 32"
    and "first_index 8 (\<lambda>i. pt_active (rm_users (room w r) ! i) \<and>
      strcmp (pt_jid (rm_users (room w r) ! i)) (bare_buf (cl_full_jid (client w ctx))) = 0) = None"
  shows "rooms_distinct (muc_join ctx bj nick new r w)"
proof -
  let ?us = "rm_users (room w r)" and ?c = "client w ctx"
  have ok: "array_ok 8 participant_ok ?us" using world_ok_room [OF assms(1,3)] by (simp add: room_ok_def)
  have rd: "room_distinct (room w r)" using assms(2,3) world_ok_lengths(2) [OF assms(1)] by (simp add: rooms_distinct_def list_all_length)
  have jids: "\<And>j. j < 8 \<Longrightarrow> pt_active (?us ! j) \<Longrightarrow> cstr (pt_jid (?us ! j)) \<noteq> bare (cstr (cl_full_jid ?c))"
    using assms(5) by (auto simp: first_index_None strcmp_eq_0 cstr_bare_buf)
  have enter: "rooms_distinct (set_user r i (enter ?c nick) w)"
    if "first_index 8 (\<lambda>i. pt_active (?us ! i) \<and> strcmp (pt_nick (?us ! i)) nick = 0) = None" "i < 8" for i
  proof -
    have nicks: "\<And>j. j < 8 \<Longrightarrow> pt_active (?us ! j) \<Longrightarrow> cstr (pt_nick (?us ! j)) \<noteq> cstr nick"
      using that(1) by (auto simp: first_index_None strcmp_eq_0)
    note e = cstr_enter [OF array_ok_nth [OF ok that(2)] assms(4), of ?c]
    show ?thesis unfolding set_user_def
      using assms(2) rd nicks jids e array_ok_length [OF ok]
      by (intro rooms_distinct_upd) (auto simp: room_distinct_def intro!: slot_keys_set)
  qed
  have "rooms_distinct (case first_index 8 (\<lambda>i. \<not> pt_active (?us ! i)) of Some i \<Rightarrow> set_user r i (enter ?c nick) w | None \<Rightarrow> w)"
    if "first_index 8 (\<lambda>i. pt_active (?us ! i) \<and> strcmp (pt_nick (?us ! i)) nick = 0) = None"
    using enter [OF that] assms(2) by (simp add: first_index_Some split: option.split)
  then show ?thesis using assms(2) by (simp add: muc_join_def Let_def)
qed

lemma muc_leave_distinct:
  assumes "rooms_distinct w" shows "rooms_distinct (muc_leave ctx bj nick r w)"
proof -
  have "rooms_distinct (set_user r i (\<lambda>_. zero_participant) s)" if "rooms_distinct s" for i s
    unfolding set_user_def using that by (intro rooms_distinct_upd room_distinct_remove)
  moreover have "rooms_distinct s \<Longrightarrow> rooms_distinct (upd_room r release_room s)" for s
    by (rule rooms_distinct_upd) (auto simp: release_room_def room_distinct_def)
  ultimately show ?thesis
    using assms by (auto simp: muc_leave_def Let_def split: option.split)
qed
lemma muc_rename_distinct:
  assumes "world_ok w" and "rooms_distinct w" and "r < 4" and "idx < 8" and "length (cstr nick) < 32"
  shows "rooms_distinct (muc_rename ctx bj nick r idx w)"
proof -
  let ?us = "rm_users (room w r)"
  have len: "length ?us = 8" using world_ok_room [OF assms(1,3)] by (auto simp: room_ok_def dest: array_ok_length)
  have "rooms_distinct (set_user r idx (\<lambda>u. u\<lparr>pt_nick := strncpy_term (pt_nick u) nick 31\<rparr>) s)"
    if "rooms s = rooms w" and "first_index 8 (\<lambda>i. pt_active (?us ! i) \<and> i \<noteq> idx \<and> strcmp (pt_nick (?us ! i)) nick = 0) = None" for s
  proof -
    have other: "\<And>j. j < 8 \<Longrightarrow> j \<noteq> idx \<Longrightarrow> pt_active (?us ! j) \<Longrightarrow> cstr (pt_nick (?us ! j)) \<noteq> cstr nick"
      using that(2) by (auto simp: first_index_None strcmp_eq_0)
    have jid: "(cstr \<circ> pt_jid) (?us ! j) \<noteq> (cstr \<circ> pt_jid) (?us ! idx)"
      if "room_distinct (room w r)" "j < 8" "j \<noteq> idx" "pt_active (?us ! j)" "pt_active (?us ! idx)" for j
      using that assms(4) len by (auto simp: room_distinct_def slot_keys_distinct)
    show ?thesis
      unfolding set_user_def using assms(2,5) that(1) other jid len
      by (intro rooms_distinct_upd) (auto simp: rooms_distinct_def room_distinct_def cstr_simps intro!: slot_keys_set)
  qed
  then show ?thesis using assms(2) by (simp add: muc_rename_def Let_def)
qed

lemma kick_distinct:
  assumes "rooms_distinct w" shows "rooms_distinct (kick ban st w)"
proof -
  have 1: "rooms_distinct (set_user r i (\<lambda>_. zero_participant) s)" if "rooms_distinct s" for r i s
    unfolding set_user_def using that by (intro rooms_distinct_upd room_distinct_remove)
  have 2: "rooms_distinct (record_ban r j s)" if "rooms_distinct s" for r j s
    using that by (auto simp: record_ban_def Let_def room_distinct_def intro!: rooms_distinct_upd)
  show ?thesis
    using assms by (auto simp: kick_def kick_occupant_def Let_def intro!: 1 2 split: option.split)
qed

lemma muc_owner_distinct:
  assumes "rooms_distinct w" shows "rooms_distinct (handle_muc_owner ctx st w)"
proof -
  have "rooms_distinct (upd_room r (\<lambda>_. zero_room) s)" "rooms_distinct (upd_room r (configure_room p) s)"
    if "rooms_distinct s" for r s p
    using that room_distinct_users [of "configure_room p (room s r)" "room s r"]
    by (auto simp: configure_room_def intro!: rooms_distinct_upd)
  then show ?thesis
    using assms by (auto simp: handle_muc_owner_def destroy_room_def owner_form_def Let_def case_prod_beta split: option.split)
qed

lemma find_or_open_room:
  assumes "find_or_open ctx name w = Some (r, new, w')"
  shows "r < 4" and "rooms_distinct w \<Longrightarrow> rooms_distinct w'" and "client_registry w' = client_registry w"
proof -
  have "rooms_distinct w \<Longrightarrow> rooms_distinct (upd_room r (open_room name j) w)" for j
    using room_distinct_users [of "open_room name j (room w r)" "room w r"]
    by (intro rooms_distinct_upd) (auto simp: open_room_def)
  then show "rooms_distinct w \<Longrightarrow> rooms_distinct w'"
    using assms by (auto simp: find_or_open_def split: option.splits)
  show "r < 4" "client_registry w' = client_registry w"
    using assms by (auto simp: find_or_open_def room_by_name_def first_index_Some upd_room_def split: option.splits)
qed

lemma in_room_distinct:
  assumes "world_ok w" and "rooms_distinct w" and "r < 4" and "length (cstr nick) < 32"
  shows "rooms_distinct (in_room ctx st bj nick new r w)"
proof -
  let ?f = "first_index 8 (\<lambda>i. pt_active (rm_users (room w r) ! i) \<and>
    strcmp (pt_jid (rm_users (room w r) ! i)) (bare_buf (cl_full_jid (client w ctx))) = 0)"
  have "?f = Some i \<Longrightarrow> i < 8" for i by (simp add: first_index_Some)
  then show ?thesis
    using assms muc_rename_distinct [OF assms(1-3)] muc_join_distinct [OF assms]
    by (cases ?f) (simp_all add: in_room_def Let_def muc_leave_distinct)
qed

text \<open>C12: occupants of a room are distinct.  If in every room no two occupants share a nickname or an
  address, this holds again after a presence to a room (joining, renaming, repeating, leaving), a
  room administration request and a room owner request, whatever they contain.\<close>

theorem muc_occupants_distinct:
  assumes "world_ok w" and "rooms_distinct w"
  shows "rooms_distinct (handle_muc_presence ctx st w) \<and> rooms_distinct (handle_muc_admin ctx st w) \<and>
    rooms_distinct (handle_muc_owner ctx st w)"
proof (intro conjI)
  have nick: "length (cstr (strncpy_term b s 31)) < 32" for b s by (simp add: cstr_simps)
  have "rooms_distinct (in_room ctx st bj (strncpy_term b s 31) new r w')"
    if "find_or_open ctx (room_name_of a at) w = Some (r, new, w')" for bj b s new r w' a at
    using in_room_distinct [OF find_or_open_ok [OF assms(1) that room_name_of_short] _ _ nick] find_or_open_room [OF that] assms(2)
    by simp
  then show "rooms_distinct (handle_muc_presence ctx st w)"
    using assms(2) by (auto simp: handle_muc_presence_def Let_def split: option.split)
  show "rooms_distinct (handle_muc_admin ctx st w)"
    using assms(2) kick_distinct by (auto simp: handle_muc_admin_def Let_def)
  show "rooms_distinct (handle_muc_owner ctx st w)" using assms(2) by (rule muc_owner_distinct)
qed

theorem muc_occupants_distinct_witness:
  "rooms_distinct (handle_muc_presence 0 (zero_stanza\<lparr>st_to := ''r@conference.angelic.local/bob''\<rparr>) (users_world [(''bob'', 7)]))"
proof -
  have "rooms_distinct (users_world [(''bob'', 7)])"
    by (simp add: rooms_distinct_def users_world_def empty_world_def boot_world_def list_all_length)
  then show ?thesis using muc_occupants_distinct [OF users_world_ok] by blast
qed

subsection \<open>Bans\<close>

lemma tell_occupants_sent: "sent_only w (tell_occupants r skip msg w)"
  unfolding tell_occupants_def
  by (rule for_range_invariant [where P = "sent_only w"])
    (auto simp: tell_occupant_def Let_def split: option.split intro: sent_only_trans [OF _ sent_only_send])

lemma room_updates_registry [simp]:
  "client_registry (upd_room r f w) = client_registry w" "client_registry (set_user r j g w) = client_registry w"
  "client_registry (record_ban r b w) = client_registry w"
  by (simp_all add: upd_room_def set_user_def record_ban_def Let_def)

lemma kick_occupant_jid: "cl_full_jid (client (kick_occupant ban rs bj r j w) k) = cl_full_jid (client w k)"
proof -
  have "cl_full_jid (client (tell_occupants r skip msg w) k) = cl_full_jid (client w k)" for skip msg
    by (rule sent_only_client [OF tell_occupants_sent])
  then show ?thesis by (auto simp: kick_occupant_def Let_def split: option.split)
qed

lemma kick_occupant_ban_rooms:
  fixes r :: nat and w :: world
  defines "n \<equiv> rm_banned_count (room w r)"
  assumes "n < 8" and "r < length (rooms w)"
  shows "\<exists>kj. (length (cstr (pt_jid (rm_users (room w r) ! j))) < 63 \<longrightarrow> cstr kj = cstr (pt_jid (rm_users (room w r) ! j))) \<and>
    rooms (kick_occupant True rs bj r j w) = (rooms w)[r := (room w r)\<lparr>
      rm_banned_jids := (rm_banned_jids (room w r))[nat n := strncpy_term (rm_banned_jids (room w r) ! nat n) (bare_buf kj) 63],
      rm_banned_count := n + 1, rm_users := (rm_users (room w r))[j := zero_participant]\<rparr>]"
  using assms
  by (intro exI [of _ "strncpy (uninit 64 (env w)) (pt_jid (rm_users (room w r) ! j)) 63"])
    (auto simp: kick_occupant_def Let_def record_ban_def set_user_rooms upd_room_rooms n_def strncpy_short split: option.split)

lemma room_by_name_cong:
  assumes "\<And>i. i < 4 \<Longrightarrow> rm_active (room w' i) = rm_active (room w i) \<and> cstr (rm_name (room w' i)) = cstr (rm_name (room w i))"
    and "cstr name' = cstr name"
  shows "room_by_name name' w' = room_by_name name w"
  unfolding room_by_name_def by (rule first_index_cong) (use assms in \<open>auto simp: strcmp_eq_0\<close>)

lemma room_distinctD:
  assumes "room_distinct rm" and "i < length (rm_users rm)" "j < length (rm_users rm)" "i \<noteq> j"
    and "pt_active (rm_users rm ! i)" "pt_active (rm_users rm ! j)"
  shows "cstr (pt_nick (rm_users rm ! i)) \<noteq> cstr (pt_nick (rm_users rm ! j))"
    and "cstr (pt_jid (rm_users rm ! i)) \<noteq> cstr (pt_jid (rm_users rm ! j))"
  using assms by (auto simp: room_distinct_def slot_keys_distinct)

lemma kick_selects:
  assumes "room_distinct rm" and "length (rm_users rm) = 8" and "j < 8" and "pt_active (rm_users rm ! j)"
    and "cstr (pt_nick (rm_users rm ! j)) = cstr nick" and "cstr nick \<noteq> []"
  shows "first_index 8 (\<lambda>j. pt_active (rm_users rm ! j) \<and> \<not> (deref nick \<noteq> NUL \<and> strcmp (pt_nick (rm_users rm ! j)) nick \<noteq> 0)) = Some j"
proof -
  have "cstr (pt_nick (rm_users rm ! i)) \<noteq> cstr nick" if "i < j" "pt_active (rm_users rm ! i)" for i
    using that assms(2-5) room_distinctD(1) [OF assms(1), of i j] by simp
  then show ?thesis using assms(3-6) by (auto simp: first_index_Some deref_eq_NUL strcmp_eq_0)
qed

text \<open>Presence of a banned address that is not in the room.\<close>

lemma banned_presence_refused:
  assumes "room_by_name (room_name_of (st_to st) at) w = Some r" and "strchr (st_to st) CHR ''@'' = Some at"
    and "st_type st \<noteq> XMPP_PRESENCE_UNAVAILABLE" and "n < nat (rm_banned_count (room w r))"
    and "cstr (rm_banned_jids (room w r) ! n) = bare (cstr (cl_full_jid (client w k)))"
    and "\<And>i. i < 8 \<Longrightarrow> pt_active (rm_users (room w r) ! i) \<Longrightarrow>
      cstr (pt_jid (rm_users (room w r) ! i)) \<noteq> bare (cstr (cl_full_jid (client w k)))"
  shows "rooms (handle_muc_presence k st w) = rooms w"
proof -
  have "first_index (nat (rm_banned_count (room w r)))
      (\<lambda>bi. strcmp (rm_banned_jids (room w r) ! bi) (bare_buf (cl_full_jid (client w k))) = 0) \<noteq> None"
    using assms(4,5) by (auto simp: first_index_None strcmp_eq_0 cstr_bare_buf)
  moreover have "first_index 8 (\<lambda>i. pt_active (rm_users (room w r) ! i) \<and>
      strcmp (pt_jid (rm_users (room w r) ! i)) (bare_buf (cl_full_jid (client w k))) = 0) = None"
    using assms(6) by (auto simp: first_index_None strcmp_eq_0 cstr_bare_buf)
  ultimately have "rooms (in_room k st bj nick new r w) = rooms w" for bj nick new
    using assms(3) by (simp add: in_room_def muc_join_def Let_def)
  then show ?thesis
    using assms(1,2) by (simp add: handle_muc_presence_def find_or_open_def Let_def split: option.split)
qed

lemma bare_self: "CHR ''/'' \<notin> set s \<Longrightarrow> length s < 63 \<Longrightarrow> bare s = s"
  by (auto simp: bare_def takeWhile_eq_all_conv)

lemma ban_effect:
  fixes ctx :: nat
  assumes "world_ok w" and "rooms_distinct w" and "st_type st = XMPP_IQ_SET"
    and "has_attr (st_payload st) ''affiliation'' ''outcast''" and "room_by_name (addressed_room st) w = Some r"
    and "j < 8" and "u = rm_users (room w r) ! j" and "pt_active u"
    and "cstr (pt_nick u) = cstr (target_nick (st_payload st))" and "cstr (target_nick (st_payload st)) \<noteq> []"
    and "rm_banned_count (room w r) < 8" and "CHR ''/'' \<notin> set (cstr (pt_jid u))" and "length (cstr (pt_jid u)) < 63"
  defines "w1 \<equiv> handle_muc_admin ctx st w" and "n \<equiv> rm_banned_count (room w r)"
  obtains bans where "rooms w1 = (rooms w)[r := (room w r)\<lparr>rm_banned_jids := bans, rm_banned_count := n + 1,
      rm_users := (rm_users (room w r))[j := zero_participant]\<rparr>]"
    and "length bans = 8" and "cstr (bans ! nat n) = cstr (pt_jid u)"
    and "\<And>k. cl_full_jid (client w1 k) = cl_full_jid (client w k)" and "r < 4" and "room_ok (room w r)"
    and "room_distinct (room w r)" and "length (rooms w) = 4"
proof -
  let ?rm = "room w r"
  have r: "r < 4" using assms(5) by (simp add: room_by_name_def first_index_Some)
  note rok = world_ok_room [OF assms(1) r]
  have lens: "length (rm_users ?rm) = 8" "length (rm_banned_jids ?rm) = 8" "length (rooms w) = 4" "0 \<le> n"
    using rok world_ok_lengths(2) [OF assms(1)] by (auto simp: room_ok_def n_def dest: array_ok_length)
  have rd: "room_distinct ?rm" using assms(2) r lens(3) by (simp add: rooms_distinct_def list_all_length)
  have "kick True st w = kick_occupant True (reason_of (st_payload st)) (strncpy (zbuf 64) (st_to st) 63) r j w"
    using kick_selects [OF rd lens(1) assms(6)] assms(5,7-10) by (simp add: kick_def Let_def)
  then have w1: "w1 = iq_result 1024 ctx st (kick_occupant True (reason_of (st_payload st)) (strncpy (zbuf 64) (st_to st) 63) r j w)"
    using assms(3,4) by (simp add: w1_def handle_muc_admin_def Let_def)
  obtain kj where kj: "cstr kj = cstr (pt_jid u)" and rooms: "rooms w1 = (rooms w)[r := ?rm\<lparr>
      rm_banned_jids := (rm_banned_jids ?rm)[nat n := strncpy_term (rm_banned_jids ?rm ! nat n) (bare_buf kj) 63],
      rm_banned_count := n + 1, rm_users := (rm_users ?rm)[j := zero_participant]\<rparr>]"
    using kick_occupant_ban_rooms [OF assms(11), of j "reason_of (st_payload st)" "strncpy (zbuf 64) (st_to st) 63"]
      assms(7,13) r lens by (auto simp: w1 n_def)
  show thesis
  proof (rule that [OF rooms])
    show "cstr ((rm_banned_jids ?rm)[nat n := strncpy_term (rm_banned_jids ?rm ! nat n) (bare_buf kj) 63] ! nat n) = cstr (pt_jid u)"
      using kj bare_self [OF assms(12,13)] assms(11,13) lens by (simp add: cstr_simps cstr_bare_buf n_def)
  qed (use lens r rok rd in \<open>simp_all add: w1 iq_result_def kick_occupant_jid\<close>)
qed

text \<open>A room with one occupant, for examples.\<close>

definition lobby :: room_t where
  "lobby = zero_room\<lparr>rm_active := 1, rm_name := strncpy_term (zbuf 32) ''lobby'' 31,
     rm_users := zero_participant\<lparr>pt_active := True, pt_nick := strncpy_term (zbuf 32) ''bob'' 31,
       pt_jid := strncpy_term (zbuf 64) ''bob@angelic.local'' 63\<rparr> # replicate 7 zero_participant\<rparr>"

definition lobby_world :: "(string \<times> nat) list \<Rightarrow> world" where
  "lobby_world us = (users_world us)\<lparr>rooms := lobby # replicate 3 zero_room\<rparr>"

lemma lobby_ok: "room_ok lobby"
proof -
  have "array_ok 8 participant_ok (rm_users lobby)"
    by (rule array_okI) (auto simp: lobby_def nth_Cons' participant_ok_def buf_strncpy_term strncpy_term_last zero_ok [unfolded participant_ok_def])
  then show ?thesis using zero_ok(4) by (simp add: room_ok_def lobby_def buf_strncpy_term)
qed

lemma lobby_world_ok: "world_ok (lobby_world us)" and lobby_world_distinct: "rooms_distinct (lobby_world us)"
proof -
  have "array_ok 4 room_ok (lobby # replicate 3 zero_room)" by (rule array_okI) (auto simp: nth_Cons' lobby_ok)
  then show "world_ok (lobby_world us)" using users_world_ok [of us] by (simp add: lobby_world_def world_ok_def)
  have "room_distinct lobby" by (simp add: room_distinct_def slot_keys_def lobby_def zero_participant_def)
  then show "rooms_distinct (lobby_world us)" by (simp add: rooms_distinct_def lobby_world_def list_all_length nth_Cons')
qed

definition ban_request :: xmpp_stanza_t where
  "ban_request = zero_stanza\<lparr>st_type := XMPP_IQ_SET, st_to := ''lobby@conference.angelic.local'',
     st_payload := ''<item affiliation='outcast' nick='bob'/>''\<rparr>"



end
