(* ===== verification/Chat.thy ===== *)
theory Chat
  imports Muc
begin

text \<open>
  Messages, from \<^verbatim>\<open>src/src/xmpp/xmpp_handlers.c\<close>: group chat, private messages between occupants,
  and messages between users with their offline storage.
\<close>

subsection \<open>Messages to a room\<close>

definition bad_request_fmt :: string where
  "bad_request_fmt = ''<message from='%s' to='%s' type='error' id='%s'><error type='modify' by='%s@conference.angelic.local'><bad-request xmlns='urn:ietf:params:xml:ns:xmpp-stanzas'/></error></message>''"

definition no_occupant_fmt :: string where
  "no_occupant_fmt = ''<message from='%s' to='%s' type='error' id='%s'><error type='cancel'><item-not-found xmlns='urn:ietf:params:xml:ns:xmpp-stanzas'/></error></message>''"

definition pm_fmt :: "bool \<Rightarrow> string" where
  "pm_fmt wrapped = ''<message from='%s/%s' to='%s' type='chat' id='%s'><x xmlns='http://jabber.org/protocol/muc#user'/>'' @
     (if wrapped then ''%s'' else ''<body>%s</body>'') @ ''</message>''"

definition groupchat_fmt :: "bool \<Rightarrow> string" where
  "groupchat_fmt wrapped = ''<message from='%s/%s' to='%s' type='groupchat' id='%s'>'' @
     (if wrapped then ''%s'' else ''<body>%s</body>'') @ ''</message>''"

definition chat_fmt :: "bool \<Rightarrow> string" where
  "chat_fmt wrapped = ''<message from='%s' to='%s' type='chat'>'' @ (if wrapped then ''%s'' else ''<body>%s</body>'') @ ''</message>''"

definition undeliverable_fmt :: string where
  "undeliverable_fmt = ''<message type='error' from='%s' to='%s'><error type='cancel' code='503'><service-unavailable xmlns='urn:ietf:params:xml:ns:xmpp-stanzas'/></error></message>''"

definition already_wrapped :: "xmpp_stanza_t \<Rightarrow> bool" where
  "already_wrapped st \<longleftrightarrow> deref (st_payload st) = CHR ''<''"

definition unknown_nick :: cbuf where
  "unknown_nick = ''unknown'' @ zbuf 25"

text \<open>A private message to the occupant named behind the slash at offset \<open>slash\<close>.\<close>

definition private_message :: "nat \<Rightarrow> xmpp_stanza_t \<Rightarrow> nat \<Rightarrow> nat \<Rightarrow> world \<Rightarrow> world" where
  "private_message ctx st slash r w =
     (let c = client w ctx; us = rm_users (room w r); full = cl_full_jid c;
          target = drop (slash + 1) (st_to st)
      in if strstr (cl_rx_buffer c) (''type='groupchat'' @ [APOS]) \<noteq> None \<or>
            strstr (cl_rx_buffer c) (''type='' @ [DQUOTE] @ ''groupchat'' @ [DQUOTE]) \<noteq> None then
           send_to ctx (snprintf 512 bad_request_fmt
             [VStr (st_to st), VStr full, VStr (st_id st), VStr (rm_name (room w r))]) w
         else
           let sender_nick = (case first_index MAX_USERS_PER_ROOM (\<lambda>i. pt_active (us ! i) \<and> strcmp (pt_jid (us ! i)) full = 0) of
                                Some i \<Rightarrow> strncpy unknown_nick (pt_nick (us ! i)) 31
                              | None \<Rightarrow> unknown_nick);
               recipient = (case first_index MAX_USERS_PER_ROOM (\<lambda>i. pt_active (us ! i) \<and> \<not> strcmp (pt_nick (us ! i)) target \<noteq> 0) of
                              Some i \<Rightarrow> find_client_by_jid (pt_jid (us ! i)) w
                            | None \<Rightarrow> None)
           in (case recipient of
                 None \<Rightarrow> send_to ctx (snprintf 512 no_occupant_fmt [VStr (st_to st), VStr full, VStr (st_id st)]) w
               | Some t \<Rightarrow>
                   let bare_room = strncpy_term (uninit 64 (env w)) (st_to st) (if slash > 63 then 63 else slash);
                       out = snprintf 2400 (pm_fmt (already_wrapped st))
                         [VStr bare_room, VStr sender_nick, VStr (cl_full_jid (client w t)), VStr (st_id st), VStr (st_payload st)];
                       written = int (length out)
                   in if written > 0 \<and> written < 2400 then send_to t out w else w))"

definition set_subject :: "nat \<Rightarrow> cbuf \<Rightarrow> world \<Rightarrow> world" where
  "set_subject r payload w =
     (case strstr payload ''<subject>'' of
        None \<Rightarrow> w
      | Some k \<Rightarrow>
          let start = drop (k + 9) payload in
          (case strstr start ''</subject>'' of
             None \<Rightarrow> w
           | Some n \<Rightarrow>
               let slen = (if n \<ge> 256 then 256 - 1 else n)
               in xmpp_persist_save_rooms
                    (upd_room r (\<lambda>rm. rm\<lparr>rm_subject := strncpy_term (rm_subject rm) start slen\<rparr>) w)))"

definition sender_nick :: "cbuf \<Rightarrow> room_t \<Rightarrow> cbuf" where
  "sender_nick full rm =
     (case first_index MAX_USERS_PER_ROOM (\<lambda>i. pt_active (rm_users rm ! i) \<and> strcmp (pt_jid (rm_users rm ! i)) (bare_buf full) = 0) of
        Some i \<Rightarrow> strcpy unknown_nick (pt_nick (rm_users rm ! i))
      | None \<Rightarrow> unknown_nick)"

definition groupchat_text :: "xmpp_stanza_t \<Rightarrow> cbuf \<Rightarrow> participant_t \<Rightarrow> string" where
  "groupchat_text st nick u =
     snprintf 2400 (groupchat_fmt (already_wrapped st))
       [VStr (st_to st), VStr nick, VStr (pt_jid u), VStr (st_id st), VStr (st_payload st)]"

definition groupchat :: "nat \<Rightarrow> xmpp_stanza_t \<Rightarrow> nat \<Rightarrow> world \<Rightarrow> world" where
  "groupchat ctx st r w =
     (let w1 = set_subject r (st_payload st) w;
          nick = sender_nick (cl_full_jid (client w1 ctx)) (room w1 r)
      in tell_occupants r
           (\<lambda>_ u. let written = int (length (groupchat_text st nick u)) in written < 0 \<or> written \<ge> 2400)
           (groupchat_text st nick) w1)"

definition room_message :: "nat \<Rightarrow> xmpp_stanza_t \<Rightarrow> world \<Rightarrow> world" where
  "room_message ctx st w =
     (case strchr (st_to st) CHR ''@'' of
        None \<Rightarrow> w
      | Some at \<Rightarrow>
          (case room_by_name (room_name_of (st_to st) at) w of
             None \<Rightarrow> w
           | Some r \<Rightarrow>
               (case strchr (drop at (st_to st)) CHR ''/'' of
                  Some k \<Rightarrow> private_message ctx st (at + k) r w
                | None \<Rightarrow> groupchat ctx st r w)))"

subsection \<open>Messages between users\<close>

definition chat_text :: "xmpp_stanza_t \<Rightarrow> xmpp_client_ctx_t \<Rightarrow> string" where
  "chat_text st c = snprintf 2048 (chat_fmt (already_wrapped st)) [VStr (cl_full_jid c), VStr (st_to st), VStr (st_payload st)]"

definition addressed :: "xmpp_stanza_t \<Rightarrow> xmpp_client_ctx_t \<Rightarrow> bool" where
  "addressed st c \<longleftrightarrow> in_session c \<and> strcmp (bare_buf (st_to st)) (bare_buf (cl_full_jid c)) = 0"

definition deliver :: "xmpp_stanza_t \<Rightarrow> string \<Rightarrow> world \<Rightarrow> world \<times> bool" where
  "deliver st response w =
     for_range MAX_USERS
       (\<lambda>i (w, d). if addressed st (client w i) then (send_to i response w, True) else (w, d)) (w, False)"

definition direct_message :: "nat \<Rightarrow> xmpp_stanza_t \<Rightarrow> world \<Rightarrow> world" where
  "direct_message ctx st w =
     (let response = chat_text st (client w ctx); bare_target = bare_buf (st_to st);
          (w1, delivered) = deliver st response w
      in if delivered then w1
         else
           let full = offline_msg_is_full (local_user bare_target) w1;
               (r, w2) = (if full then (-1, w1)
                          else offline_msg_enqueue bare_target (cl_full_jid (client w1 ctx)) (st_id st) (st_payload st) w1)
           in if full \<or> r \<noteq> 0
              then send_to ctx (snprintf 512 undeliverable_fmt [VStr (st_to st), VStr (cl_full_jid (client w2 ctx))]) w2
              else w2)"

definition handle_chat_message :: "nat \<Rightarrow> xmpp_stanza_t \<Rightarrow> world \<Rightarrow> world" where
  "handle_chat_message ctx st w =
     (if strstr (st_to st) ''conference.angelic.local'' \<noteq> None then room_message ctx st w else direct_message ctx st w)"

subsection \<open>Memory safety\<close>

lemma set_subject_ok: "world_ok w \<Longrightarrow> world_ok (set_subject r p w)"
  unfolding set_subject_def Let_def
  by (auto simp: world_ok_save room_ok_def buf_length intro!: world_ok_upd_room buf_strncpy_term split: option.split)

lemma room_message_ok: "world_ok w \<Longrightarrow> world_ok (room_message ctx st w)"
  unfolding room_message_def private_message_def groupchat_def Let_def
  by (auto intro!: world_ok_send_to tell_occupants_ok set_subject_ok split: option.split)

lemma sent_only_ok:
  assumes w: "world_ok w" and s: "sent_only w s"
  shows "world_ok s"
proof -
  have "array_ok 20 client_ok (client_registry s)"
    using world_ok_lengths(1) [OF w] sent_only_sel(10) [OF s] send_frame_ok [OF world_ok_client [OF w] sent_only_sel(11) [OF s]]
    by (intro array_okI) simp_all
  then show ?thesis using w by (simp add: world_ok_def sent_only_sel [OF s])
qed

lemma deliver_spec:
  fixes st :: xmpp_stanza_t and w :: world
  defines "to \<equiv> filter (\<lambda>i. addressed st (client w i)) [0..<20]"
  shows "sent_only w (fst (deliver st m w))"
    and "outbox (env (fst (deliver st m w))) = outbox (env w) @ map (\<lambda>i. (cl_pcb (client w i), cstr m)) to"
    and "snd (deliver st m w) \<longleftrightarrow> to \<noteq> []"
proof -
  let ?I = "\<lambda>k x. sent_only w (fst x) \<and>
    outbox (env (fst x)) = outbox (env w) @ map (\<lambda>i. (cl_pcb (client w i), cstr m)) (filter (\<lambda>i. addressed st (client w i)) [0..<k]) \<and>
    (snd x \<longleftrightarrow> filter (\<lambda>i. addressed st (client w i)) [0..<k] \<noteq> [])"
  have "?I 20 (deliver st m w)"
    unfolding deliver_def
  proof (rule for_range_indexed_invariant [where P = ?I])
    fix k :: nat and x assume I: "?I k x"
    have "addressed st (client (fst x) k) = addressed st (client w k)" "cl_pcb (client (fst x) k) = cl_pcb (client w k)"
      using sent_only_client [of w "fst x" k] I by (simp_all add: addressed_def)
    then show "?I (Suc k) (case x of (w, d) \<Rightarrow> if addressed st (client w k) then (send_to k m w, True) else (w, d))"
      using I sent_only_trans [OF _ sent_only_send, of w "fst x" k m] by (simp add: case_prod_beta)
  qed simp
  then show "sent_only w (fst (deliver st m w))"
    "outbox (env (fst (deliver st m w))) = outbox (env w) @ map (\<lambda>i. (cl_pcb (client w i), cstr m)) to"
    "snd (deliver st m w) \<longleftrightarrow> to \<noteq> []"
    by (simp_all add: to_def)
qed

lemma direct_message_ok: "world_ok w \<Longrightarrow> world_ok (direct_message ctx st w)"
  unfolding direct_message_def Let_def case_prod_beta
  using sent_only_ok [OF _ deliver_spec(1) [of w st]] offline_msg_enqueue_ok
  by (auto intro!: world_ok_send_to)

lemma handle_chat_message_ok [handler_ok]: "world_ok w \<Longrightarrow> world_ok (handle_chat_message ctx st w)"
  by (simp add: handle_chat_message_def room_message_ok direct_message_ok)

subsection \<open>Delivery\<close>

lemma find_client_sent: "sent_only w s \<Longrightarrow> find_client_by_jid j s = find_client_by_jid j w"
  unfolding find_client_by_jid_def by (rule first_index_cong) (auto simp: sent_only_client)

text \<open>What a loop over the occupants sends.\<close>

definition occupant_mail :: "(nat \<Rightarrow> participant_t \<Rightarrow> bool) \<Rightarrow> (participant_t \<Rightarrow> string) \<Rightarrow> world \<Rightarrow> room_t \<Rightarrow> nat \<Rightarrow> (nat option \<times> string) list" where
  "occupant_mail skip msg w rm j =
     (if \<not> pt_active (rm_users rm ! j) \<or> skip j (rm_users rm ! j) then []
      else case find_client_by_jid (pt_jid (rm_users rm ! j)) w of
             None \<Rightarrow> []
           | Some t \<Rightarrow> [(cl_pcb (client w t), cstr (msg (rm_users rm ! j)))])"

lemma tell_occupants_outbox:
  "outbox (env (tell_occupants r skip msg w)) = outbox (env w) @ concat (map (occupant_mail skip msg w (room w r)) [0..<8])"
proof -
  let ?I = "\<lambda>k s. sent_only w s \<and> outbox (env s) = outbox (env w) @ concat (map (occupant_mail skip msg w (room w r)) [0..<k])"
  have "?I 8 (tell_occupants r skip msg w)"
    unfolding tell_occupants_def
  proof (rule for_range_indexed_invariant [where P = ?I])
    fix k :: nat and s assume I: "?I k s"
    then have s: "sent_only w s" by simp
    show "?I (Suc k) (tell_occupant r skip msg k s)"
      using I sent_only_trans [OF s sent_only_send]
      by (auto simp: tell_occupant_def occupant_mail_def Let_def find_client_sent [OF s] sent_only_sel(1) [OF s]
          sent_only_client(1) [OF s] split: option.split)
  qed simp
  then show ?thesis by simp
qed

lemma occupant_mail_active:
  assumes "length (rm_users rm) = 8" and "\<And>j u. \<not> skip j u"
  shows "concat (map (occupant_mail skip msg w rm) [0..<8]) =
    concat (map (\<lambda>u. case find_client_by_jid (pt_jid u) w of None \<Rightarrow> [] | Some t \<Rightarrow> [(cl_pcb (client w t), cstr (msg u))])
      (filter pt_active (rm_users rm)))" (is "_ = concat (map ?f _)")
proof -
  have "map (occupant_mail skip msg w rm) [0..<8] = map (\<lambda>u. if pt_active u then ?f u else []) (rm_users rm)"
    by (rule nth_equalityI) (auto simp: assms occupant_mail_def)
  moreover have "concat (map (\<lambda>u. if pt_active u then ?f u else []) us) = concat (map ?f (filter pt_active us))" for us
    by (induction us) auto
  ultimately show ?thesis by (simp only:)
qed

lemma set_subject_frame:
  "client_registry (set_subject r p w) = client_registry w" "env (set_subject r p w) = env w"
  "rm_users (room (set_subject r p w) i) = rm_users (room w i)"
proof -
  have "rm_users ((rooms w)[r := (room w r)\<lparr>rm_subject := s\<rparr>] ! i) = rm_users (room w i)" for s
    by (cases "r < length (rooms w)"; cases "i = r") (simp_all add: list_update_beyond)
  then show "rm_users (room (set_subject r p w) i) = rm_users (room w i)"
    by (simp add: set_subject_def Let_def upd_room_def split: option.split)
qed (simp_all add: set_subject_def Let_def upd_room_def split: option.split)

text \<open>C11: a group message reaches the room.  A message to the address of an existing room is sent, in
  slot order and once each, to every occupant that has a client in session, from the room address
  with the nickname of the sender, and to nobody else.\<close>

theorem groupchat_reaches_occupants:
  fixes st :: xmpp_stanza_t and ctx :: nat
  assumes "world_ok w" and "strstr (st_to st) ''conference.angelic.local'' \<noteq> None"
    and "strchr (st_to st) CHR ''@'' = Some at" and "room_by_name (room_name_of (st_to st) at) w = Some r"
    and "strchr (drop at (st_to st)) CHR ''/'' = None"
  defines "nick \<equiv> sender_nick (cl_full_jid (client w ctx)) (room w r)"
  shows "outbox (env (handle_chat_message ctx st w)) = outbox (env w) @
    concat (map (\<lambda>u. case find_client_by_jid (pt_jid u) w of
                       None \<Rightarrow> []
                     | Some t \<Rightarrow> [(cl_pcb (client w t), cstr (groupchat_text st nick u))])
      (filter pt_active (rm_users (room w r))))"
proof -
  define w1 where "w1 = set_subject r (st_payload st) w"
  note f = set_subject_frame [of r "st_payload st" w, folded w1_def]
  have r: "r < 4" using assms(4) by (simp add: room_by_name_def first_index_Some)
  have len: "length (rm_users (room w1 r)) = 8"
    using world_ok_room [OF assms(1) r] by (auto simp: f room_ok_def dest: array_ok_length)
  have fits: "\<not> (int (length (groupchat_text st n u)) < 0 \<or> 2400 \<le> int (length (groupchat_text st n u)))" for n u
    using snprintf_length [of 2400 "groupchat_fmt (already_wrapped st)"
        "[VStr (st_to st), VStr n, VStr (pt_jid u), VStr (st_id st), VStr (st_payload st)]"]
    by (simp add: groupchat_text_def)
  have "sender_nick (cl_full_jid (client w1 ctx)) (room w1 r) = nick"
    unfolding sender_nick_def nick_def f by (rule refl)
  then have "outbox (env (groupchat ctx st r w)) = outbox (env w1) @
      concat (map (occupant_mail (\<lambda>_ u. False) (groupchat_text st nick) w1 (room w1 r)) [0..<8])"
    by (simp only: groupchat_def Let_def w1_def [symmetric] tell_occupants_outbox fits)
  moreover have "handle_chat_message ctx st w = groupchat ctx st r w"
    using assms(2-5) by (simp add: handle_chat_message_def room_message_def)
  moreover have "find_client_by_jid j w1 = find_client_by_jid j w" for j by (simp add: find_client_by_jid_def f)
  ultimately show ?thesis
    using occupant_mail_active [OF len, of "\<lambda>_ _. False" "groupchat_text st nick" w1] by (simp only: f simp_thms)
qed
definition groupchat_stanza :: xmpp_stanza_t where
  "groupchat_stanza = zero_stanza\<lparr>st_type := XMPP_MESSAGE, st_to := ''lobby@conference.angelic.local'', st_payload := ''hi''\<rparr>"

theorem groupchat_reaches_occupants_witness:
  "map fst (outbox (env (handle_chat_message 0 groupchat_stanza (lobby_world [(''bob'', 7), (''al'', 8)])))) = [Some 7]"
proof -
  let ?w = "lobby_world [(''bob'', 7), (''al'', 8)]" and ?st = groupchat_stanza
  have at: "strchr (st_to ?st) CHR ''@'' = Some 5" "strstr (st_to ?st) ''conference.angelic.local'' \<noteq> None"
    "strchr (drop 5 (st_to ?st)) CHR ''/'' = None" by (simp_all add: groupchat_stanza_def strstr_def)
  have "cstr (room_name_of (st_to ?st) 5) = ''lobby''"
    by (simp add: room_name_of_def groupchat_stanza_def cstr_strncpy_zbuf del: strncpy.simps)
  then have r: "room_by_name (room_name_of (st_to ?st) 5) ?w = Some 0"
    by (simp add: room_by_name_def first_index_Some strcmp_eq_0 lobby_world_def lobby_def cstr_simps)
  have us: "filter pt_active (rm_users (room ?w 0)) = [rm_users lobby ! 0]"
    by (simp add: lobby_world_def lobby_def zero_participant_def)
  have "find_client_by_jid (pt_jid (rm_users lobby ! 0)) ?w = Some 0" "cl_pcb (client ?w 0) = Some 7" "outbox (env ?w) = []"
    by (simp_all add: find_client_by_jid_def first_index_Some jid_matches_iff in_session_def state_order_defs lobby_world_def
        users_world_def user_client_def lobby_def cstr_simps empty_world_def boot_world_def idle_env_def outbox_def)
  then show ?thesis
    using groupchat_reaches_occupants [OF lobby_world_ok at(2,1) r at(3), of 0] by (simp add: us)
qed

lemma offline_is_full_iff:
  assumes "world_ok w"
  shows "offline_msg_is_full u w \<longleftrightarrow>
    16 \<le> length (filter (\<lambda>m. om_active m \<noteq> 0 \<and> cstr (om_to_user m) = cstr u) (offline_store w))"
proof -
  let ?P = "\<lambda>m. om_active m \<noteq> 0 \<and> cstr (om_to_user m) = cstr u" and ?s = "offline_store w"
  have len: "length ?s = 32" using assms by (rule world_ok_lengths)
  have "for_range 32 (\<lambda>i c. if om_active (?s ! i) \<noteq> 0 \<and> strcmp (om_to_user (?s ! i)) u = 0 then c + 1 else c) (0::nat) =
      length (filter ?P (take 32 ?s))"
    by (rule for_range_indexed_invariant [where P = "\<lambda>k c. c = length (filter ?P (take k ?s))"])
      (simp_all add: strcmp_eq_0 len take_Suc_conv_app_nth)
  then show ?thesis by (simp add: offline_msg_is_full_def len)
qed

lemma offline_enqueue_cases:
  assumes "world_ok w"
  shows "if list_all (\<lambda>m. om_active m \<noteq> 0) (offline_store w) then offline_msg_enqueue t f i p w = (-1, w)
    else \<exists>k<32. om_active (offline_store w ! k) = 0 \<and> offline_msg_enqueue t f i p w =
      (0, xmpp_persist_save_offline (w\<lparr>offline_store := (offline_store w)[k := fill_offline t f i p (offline_store w ! k)]\<rparr>))"
proof (cases "first_index 32 (\<lambda>i. om_active (offline_store w ! i) = 0)")
  case None
  then have "list_all (\<lambda>m. om_active m \<noteq> 0) (offline_store w)"
    using world_ok_lengths(5) [OF assms] by (simp add: first_index_None list_all_length)
  with None show ?thesis by (simp add: offline_msg_enqueue_def)
next
  case (Some k)
  then have k: "k < 32" "om_active (offline_store w ! k) = 0" by (simp_all add: first_index_Some)
  then have "\<not> list_all (\<lambda>m. om_active m \<noteq> 0) (offline_store w)"
    using world_ok_lengths(5) [OF assms] by (auto simp: list_all_length)
  with Some k show ?thesis by (auto simp: offline_msg_enqueue_def)
qed

text \<open>C10: a message to a user is never lost silently.  If the addressee has clients in session, each of
  them is sent the message once; otherwise the message is stored for the addressee, unless the
  addressee already has 16 stored messages or the store is full, in which case the sender is sent an
  error.\<close>

theorem chat_message_never_lost:
  fixes st :: xmpp_stanza_t and ctx :: nat
  assumes "world_ok w" and "strstr (st_to st) ''conference.angelic.local'' = None"
  defines "w' \<equiv> handle_chat_message ctx st w" and "c \<equiv> client w ctx"
    and "to \<equiv> filter (\<lambda>i. addressed st (client w i)) [0..<20]"
    and "kept \<equiv> length (filter (\<lambda>m. om_active m \<noteq> 0 \<and> cstr (om_to_user m) = cstr (local_user (bare_buf (st_to st)))) (offline_store w))"
  shows "if to \<noteq> [] then
      outbox (env w') = outbox (env w) @ map (\<lambda>i. (cl_pcb (client w i), cstr (chat_text st c))) to \<and> offline_store w' = offline_store w
    else if 16 \<le> kept \<or> list_all (\<lambda>m. om_active m \<noteq> 0) (offline_store w) then
      outbox (env w') = outbox (env w) @ [(cl_pcb c, cstr (snprintf 512 undeliverable_fmt [VStr (st_to st), VStr (cl_full_jid c)]))] \<and>
      offline_store w' = offline_store w
    else outbox (env w') = outbox (env w) \<and> (\<exists>i<32. om_active (offline_store w ! i) = 0 \<and>
      offline_store w' = (offline_store w)[i := fill_offline (bare_buf (st_to st)) (cl_full_jid c) (st_id st) (st_payload st) (offline_store w ! i)])"
proof -
  define w1 where "w1 = fst (deliver st (chat_text st c) w)"
  note d = deliver_spec [where w = w and st = st and m = "chat_text st c", folded w1_def to_def]
  note sel = sent_only_sel [OF d(1)] sent_only_client [OF d(1)]
  have ok: "world_ok w1" using assms(1) d(1) by (rule sent_only_ok)
  have w': "w' = direct_message ctx st w" using assms(2) by (simp add: w'_def handle_chat_message_def)
  have full: "offline_msg_is_full (local_user (bare_buf (st_to st))) w1 \<longleftrightarrow> 16 \<le> kept"
    using offline_is_full_iff [OF ok] by (simp add: kept_def sel)
  note enq = offline_enqueue_cases [OF ok, of "bare_buf (st_to st)" "cl_full_jid c" "st_id st" "st_payload st", unfolded sel]
  show ?thesis
  proof (cases "to = []")
    case False
    then show ?thesis using d(2,3) by (simp add: w' direct_message_def Let_def case_prod_beta w1_def [symmetric] c_def [symmetric] sel)
  next
    case True
    show ?thesis
    proof (cases "16 \<le> kept \<or> list_all (\<lambda>m. om_active m \<noteq> 0) (offline_store w)")
      case full': True
      then show ?thesis using True d(2,3) full enq
        by (auto simp: w' direct_message_def Let_def case_prod_beta w1_def [symmetric] c_def [symmetric] sel)
    next
      case False
      then show ?thesis using True d(2,3) full enq
        by (auto simp: w' direct_message_def Let_def case_prod_beta w1_def [symmetric] c_def [symmetric] sel)
    qed
  qed
qed

theorem chat_message_never_lost_witness:
  "\<exists>i<32. offline_store (handle_chat_message 0 (zero_stanza\<lparr>st_to := ''al@angelic.local''\<rparr>) (users_world [(''bob'', 7)])) =
     (offline_store (users_world [(''bob'', 7)]))[i := fill_offline (bare_buf ''al@angelic.local'')
       (cl_full_jid (client (users_world [(''bob'', 7)]) 0)) (st_id zero_stanza) (st_payload zero_stanza) zero_offline]"
proof -
  let ?w = "users_world [(''bob'', 7)]" and ?st = "zero_stanza\<lparr>st_to := ''al@angelic.local''\<rparr>"
  have off: "offline_store ?w = replicate 32 zero_offline" by (simp add: users_world_def empty_world_def boot_world_def)
  have cl: "client ?w i = (if i = 0 then user_client ''bob'' 7 else zero_client)" if "i < 20" for i
    using that by (auto simp: users_world_def nth_append nth_Cons split: nat.split)
  have "\<not> addressed ?st (user_client ''bob'' 7)" "\<not> addressed ?st zero_client"
    by (simp_all add: addressed_def strcmp_eq_0 cstr_bare_buf bare_def user_client_def cstr_simps in_session_def)
  then have none: "filter (\<lambda>i. addressed ?st (client ?w i)) [0..<20] = []" by (auto simp: filter_empty_conv cl)
  have conf: "strstr (st_to ?st) ''conference.angelic.local'' = None" by (simp add: strstr_def)
  have "\<not> list_all (\<lambda>m. om_active m \<noteq> 0) (offline_store ?w)" by (simp add: off list_all_length zero_offline_def exI [of _ 0])
  moreover have "filter (\<lambda>m. om_active m \<noteq> 0 \<and> Q m) (offline_store ?w) = []" for Q by (simp add: off zero_offline_def)
  ultimately show ?thesis
    using chat_message_never_lost [OF users_world_ok [of "[(''bob'', 7)]"] conf, where ctx = 0] none by (auto simp: off)
qed

end
