(* ===== verification/Presence.thy ===== *)
theory Presence
  imports Chat
begin

text \<open>
  Presence after the login, from \<^verbatim>\<open>src/src/xmpp/xmpp_handlers.c\<close>: probes, subscriptions with
  the roster state they maintain, directed presence and broadcast presence.
\<close>

subsection \<open>The subscription state of a roster item\<close>

text \<open>The state is kept in the text of the item.\<close>

definition cur_sub :: "cbuf \<Rightarrow> string" where
  "cur_sub item_xml =
     (if has_attr item_xml ''subscription'' ''both'' then ''both''
      else if has_attr item_xml ''subscription'' ''to'' then ''to''
      else if has_attr item_xml ''subscription'' ''from'' then ''from''
      else ''none'')"

definition new_sub :: "string \<Rightarrow> string \<Rightarrow> string \<Rightarrow> string" where
  "new_sub direction ptype cur =
     (if strcmp ptype ''subscribed'' = 0 then
        if strcmp direction ''inbound'' = 0 then
          if strcmp cur ''none'' = 0 then ''to'' else if strcmp cur ''from'' = 0 then ''both'' else cur
        else
          if strcmp cur ''none'' = 0 then ''from'' else if strcmp cur ''to'' = 0 then ''both'' else cur
      else if strcmp ptype ''unsubscribed'' = 0 then
        if strcmp direction ''inbound'' = 0 then
          if strcmp cur ''both'' = 0 then ''from'' else if strcmp cur ''to'' = 0 then ''none'' else cur
        else
          if strcmp cur ''both'' = 0 then ''to'' else if strcmp cur ''from'' = 0 then ''none'' else cur
      else cur)"

definition open_entry :: "cbuf \<Rightarrow> cbuf \<Rightarrow> roster_entry_t \<Rightarrow> roster_entry_t" where
  "open_entry owner_user contact_jid r =
     r\<lparr>re_username := strncpy_term (re_username r) owner_user 31, re_jid := strncpy_term (re_jid r) contact_jid 63,
       re_item_xml := poke (re_item_xml r) 0 NUL, re_active := 1\<rparr>"

text \<open>The value of an attribute of the item.  The character behind the equals sign is taken for the
  quote without a test, and the pointer is moved past it even when it is the terminator, so the
  search runs over the memory of the entry from the item on.\<close>

definition item_mem :: "roster_entry_t \<Rightarrow> cbuf" where
  "item_mem r = re_item_xml r @ le32 (re_active r)"

definition item_attr :: "string \<Rightarrow> roster_entry_t \<Rightarrow> cbuf option" where
  "item_attr attr r =
     (case strstr (re_item_xml r) (attr @ ''='') of
        None \<Rightarrow> None
      | Some k \<Rightarrow>
          let p = drop (k + length attr + 1) (item_mem r) in
          (case strchr (drop 1 p) (deref p) of
             None \<Rightarrow> None
           | Some n \<Rightarrow> Some (strncpy (zbuf 64) (drop 1 p) (if n \<ge> 64 then 63 else n))))"

definition item_jid :: "cbuf \<Rightarrow> roster_entry_t \<Rightarrow> cbuf" where
  "item_jid contact_jid r =
     (let v = (case item_attr ''jid'' r of Some v \<Rightarrow> v | None \<Rightarrow> zbuf 64)
      in if deref v = NUL then strncpy v contact_jid 63 else v)"

definition name_attr :: "roster_entry_t \<Rightarrow> string" where
  "name_attr r =
     (case item_attr ''name'' r of
        None \<Rightarrow> []
      | Some v \<Rightarrow> snprintf 128 ('' name='%s'' @ [APOS]) [VStr v])"

definition item_fmt :: string where
  "item_fmt = ''<item jid='%s'%s subscription='%s'/>''"

definition new_item :: "cbuf \<Rightarrow> string \<Rightarrow> roster_entry_t \<Rightarrow> string" where
  "new_item contact_jid sub r = snprintf ROSTER_ITEM_MAX_LEN item_fmt [VStr (item_jid contact_jid r), VStr (name_attr r), VStr sub]"

definition sub_push :: "cbuf \<Rightarrow> string \<Rightarrow> nat \<Rightarrow> world \<Rightarrow> world" where
  "sub_push owner_user new_xml i w =
     (if in_session (client w i) \<and> strcmp (cl_username (client w i)) owner_user = 0
      then send_to i (snprintf 512 roster_push_fmt [VStr (cl_full_jid (client w i)), VStr new_xml]) w
      else w)"

text \<open>The entry that is changed: the one of the pair, else, unless the state stays \<open>none\<close>, a free
  one that is claimed for the pair.\<close>

definition sub_slot :: "cbuf \<Rightarrow> cbuf \<Rightarrow> string \<Rightarrow> roster_entry_t list \<Rightarrow> (nat \<times> roster_entry_t) option" where
  "sub_slot owner_user contact_jid sub s =
     (case roster_find owner_user contact_jid s of
        Some i \<Rightarrow> Some (i, s ! i)
      | None \<Rightarrow>
          if strcmp sub ''none'' = 0 then None
          else (case first_index MAX_ROSTER_ENTRIES (\<lambda>i. re_active (s ! i) = 0) of
                  None \<Rightarrow> None
                | Some i \<Rightarrow> Some (i, open_entry owner_user contact_jid (s ! i))))"

definition subscription_update_roster :: "cbuf \<Rightarrow> cbuf \<Rightarrow> string \<Rightarrow> string \<Rightarrow> world \<Rightarrow> world" where
  "subscription_update_roster owner_user contact_jid direction ptype w =
     (let s = roster_store w; slot = roster_find owner_user contact_jid s;
          cur = (case slot of Some i \<Rightarrow> cur_sub (re_item_xml (s ! i)) | None \<Rightarrow> ''none'');
          sub = new_sub direction ptype cur
      in if strcmp sub cur = 0 \<and> slot \<noteq> None then w
         else (case sub_slot owner_user contact_jid sub s of
                 None \<Rightarrow> w
               | Some (i, r) \<Rightarrow>
                   let new_xml = new_item contact_jid sub r;
                       w1 = w\<lparr>roster_store := s[i := r\<lparr>re_item_xml := strncpy_term (re_item_xml r) new_xml (ROSTER_ITEM_MAX_LEN - 1)\<rparr>]\<rparr>
                   in for_range MAX_USERS (sub_push owner_user new_xml) (xmpp_persist_save_roster w1)))"

subsection \<open>The presence handler\<close>

text \<open>The presence of one client as another sees it, in a buffer of 512 bytes.\<close>

definition presence_text :: "xmpp_client_ctx_t \<Rightarrow> xmpp_client_ctx_t \<Rightarrow> string" where
  "presence_text c peer =
     (if deref (cl_presence_payload c) \<noteq> NUL
      then snprintf 512 presence_fmt [VStr (cl_full_jid c), VStr (cl_full_jid peer), VStr (cl_presence_payload c)]
      else snprintf 512 presence_empty_fmt [VStr (cl_full_jid c), VStr (cl_full_jid peer)])"

definition presence_probe :: "nat \<Rightarrow> xmpp_stanza_t \<Rightarrow> world \<Rightarrow> world" where
  "presence_probe ctx st w =
     for_range MAX_USERS
       (\<lambda>i w. if addressed st (client w i) then send_to ctx (presence_text (client w i) (client w ctx)) w else w) w"

definition ptype_of :: "stanza_type_t \<Rightarrow> string" where
  "ptype_of t =
     (if t = XMPP_PRESENCE_SUBSCRIBE then ''subscribe''
      else if t = XMPP_PRESENCE_SUBSCRIBED then ''subscribed''
      else if t = XMPP_PRESENCE_UNSUBSCRIBE then ''unsubscribe''
      else ''unsubscribed'')"

definition sub_deliver :: "xmpp_stanza_t \<Rightarrow> string \<Rightarrow> cbuf \<Rightarrow> world \<Rightarrow> world \<times> bool" where
  "sub_deliver st ptype bare_from w =
     for_range MAX_USERS
       (\<lambda>i (w, d). if addressed st (client w i)
                   then (send_to i (snprintf 512 pending_fmt [VStr ptype, VStr bare_from, VStr (cl_full_jid (client w i))]) w, True)
                   else (w, d)) (w, False)"

definition presence_subscription :: "nat \<Rightarrow> xmpp_stanza_t \<Rightarrow> world \<Rightarrow> world" where
  "presence_subscription ctx st w =
     (let ptype = ptype_of (st_type st); bare_from = bare_buf (cl_full_jid (client w ctx));
          bare_target = bare_buf (st_to st);
          (w1, delivered) = sub_deliver st ptype bare_from w;
          w2 = (if delivered then w1 else pending_sub_enqueue ptype bare_from (local_user bare_target) w1)
      in if strcmp ptype ''subscribed'' = 0 \<or> strcmp ptype ''unsubscribed'' = 0
         then subscription_update_roster (local_user bare_target) bare_from ''inbound'' ptype
                (subscription_update_roster (local_user bare_from) bare_target ''outbound'' ptype w2)
         else w2)"

definition presence_directed :: "nat \<Rightarrow> xmpp_stanza_t \<Rightarrow> world \<Rightarrow> world" where
  "presence_directed ctx st w =
     for_range MAX_USERS
       (\<lambda>i w. if addressed st (client w i) then send_to i (presence_text (client w ctx) (client w i)) w else w) w"

definition offline_presence_fmt :: string where
  "offline_presence_fmt = ''<presence from='%s' to='%s' type='unavailable'><status>Offline</status></presence>''"

definition presence_id_fmt :: string where
  "presence_id_fmt = ''<presence from='%s' to='%s' id='%s'>%s</presence>''"

definition presence_id_empty_fmt :: string where
  "presence_id_empty_fmt = ''<presence from='%s' to='%s' id='%s'/>''"

text \<open>The payload of the stanza replaces the stored one, unless it is empty.\<close>

definition refresh_presence :: "xmpp_stanza_t \<Rightarrow> xmpp_client_ctx_t \<Rightarrow> xmpp_client_ctx_t" where
  "refresh_presence st c =
     (if deref (st_payload st) \<noteq> NUL
      then c\<lparr>cl_presence_payload := strncpy_term (cl_presence_payload c) (st_payload st) 1023\<rparr> else c)"

definition presence_id_text :: "xmpp_stanza_t \<Rightarrow> xmpp_client_ctx_t \<Rightarrow> xmpp_client_ctx_t \<Rightarrow> string" where
  "presence_id_text st c peer =
     (if deref (cl_presence_payload c) \<noteq> NUL
      then snprintf 1024 presence_id_fmt
             [VStr (cl_full_jid c), VStr (cl_full_jid peer), VStr (st_id st), VStr (cl_presence_payload c)]
      else snprintf 1024 presence_id_empty_fmt [VStr (cl_full_jid c), VStr (cl_full_jid peer), VStr (st_id st)])"

definition presence_announce :: "nat \<Rightarrow> xmpp_stanza_t \<Rightarrow> nat \<Rightarrow> world \<Rightarrow> world" where
  "presence_announce ctx st i w =
     (if \<not> in_session (client w i) then w
      else if st_type st = XMPP_PRESENCE_UNAVAILABLE then
        send_to i (snprintf 1024 offline_presence_fmt [VStr (cl_full_jid (client w ctx)), VStr (cl_full_jid (client w i))]) w
      else
        let w1 = upd_client ctx (refresh_presence st) w
        in send_to i (presence_id_text st (client w1 ctx) (client w1 i)) w1)"

definition handle_broadcast_presence :: "nat \<Rightarrow> xmpp_stanza_t \<Rightarrow> world \<Rightarrow> world" where
  "handle_broadcast_presence ctx st w =
     (let w0 = (if STATE_SESSION \<le> cl_state (client w ctx) \<and> cl_state (client w ctx) < STATE_READY
                then upd_client ctx (\<lambda>c. c\<lparr>cl_state := STATE_READY\<rparr>) w else w)
      in if st_type st = XMPP_PRESENCE_PROBE then presence_probe ctx st w0
         else if st_type st = XMPP_PRESENCE_SUBSCRIBE \<or> st_type st = XMPP_PRESENCE_SUBSCRIBED \<or>
                 st_type st = XMPP_PRESENCE_UNSUBSCRIBE \<or> st_type st = XMPP_PRESENCE_UNSUBSCRIBED then
           presence_subscription ctx st w0
         else if st_type st \<noteq> XMPP_PRESENCE_UNAVAILABLE \<and> deref (st_to st) \<noteq> NUL \<and>
                 strstr (st_to st) ''conference.angelic.local'' = None then
           presence_directed ctx st w0
         else for_range MAX_USERS (presence_announce ctx st) w0)"

subsection \<open>Memory safety\<close>

lemma open_entry_ok: "roster_ok r \<Longrightarrow> roster_ok (open_entry u j r)"
  by (simp add: roster_ok_def open_entry_def buf_strncpy_term buf_poke_NUL buf_length)

lemma roster_ok_item: "roster_ok r \<Longrightarrow> roster_ok (r\<lparr>re_item_xml := strncpy_term (re_item_xml r) x 255\<rparr>)"
  by (simp add: roster_ok_def buf_strncpy_term buf_length)

lemma sub_slot_ok:
  "array_ok 80 roster_ok s \<Longrightarrow> sub_slot u j sub s = Some (i, r) \<Longrightarrow> i < 80 \<and> roster_ok r"
  by (auto simp: sub_slot_def roster_find_def first_index_Some open_entry_ok split: option.splits if_splits dest: array_ok_nth)

lemma subscription_update_roster_ok: "world_ok w \<Longrightarrow> world_ok (subscription_update_roster u j d p w)"
proof -
  assume w: "world_ok w"
  then have "array_ok 80 roster_ok (roster_store w)" by (simp add: world_ok_def)
  note slot = sub_slot_ok [OF this]
  have "world_ok (w\<lparr>roster_store := (roster_store w)[i := r\<lparr>re_item_xml := strncpy_term (re_item_xml r) x 255\<rparr>]\<rparr>)"
    if "sub_slot u j sub (roster_store w) = Some (i, r)" for sub i r x
    using w slot [OF that] roster_ok_item [of r x] by (auto simp: world_ok_def)
  with w show ?thesis
    by (auto simp: subscription_update_roster_def Let_def sub_push_def world_ok_save split: option.split
        intro!: for_range_ok handler_ok)
qed

lemma refresh_presence_ok: "client_ok c \<Longrightarrow> client_ok (refresh_presence st c)"
  by (simp add: refresh_presence_def client_ok_def buf_strncpy_term buf_length)

lemma sub_deliver_ok: "world_ok w \<Longrightarrow> world_ok (fst (sub_deliver st p f w))"
  unfolding sub_deliver_def
  by (rule for_range_invariant [where P = "\<lambda>x. world_ok (fst x)"]) (auto simp: case_prod_beta intro!: handler_ok)

lemma presence_subscription_ok: "world_ok w \<Longrightarrow> world_ok (presence_subscription ctx st w)"
  using sub_deliver_ok [of w st "ptype_of (st_type st)" "bare_buf (cl_full_jid (client w ctx))"]
  by (auto simp: presence_subscription_def Let_def case_prod_beta intro!: subscription_update_roster_ok pending_sub_enqueue_ok)

lemma presence_announce_ok: "world_ok w \<Longrightarrow> world_ok (presence_announce ctx st i w)"
  by (auto simp: presence_announce_def Let_def intro!: handler_ok world_ok_upd_client refresh_presence_ok)

lemma handle_broadcast_presence_ok [handler_ok]: "world_ok w \<Longrightarrow> world_ok (handle_broadcast_presence ctx st w)"
  unfolding handle_broadcast_presence_def Let_def presence_probe_def presence_directed_def
  by (auto intro!: for_range_ok handler_ok presence_subscription_ok presence_announce_ok world_ok_upd_client
      client_ok_sel_update)

lemma split_at_char: "c \<notin> set x \<Longrightarrow> c \<notin> set x' \<Longrightarrow> x @ c # y = x' @ c # y' \<Longrightarrow> x = x' \<and> y = y'"
proof (induction x arbitrary: x')
  case Nil then show ?case by (cases x') auto
next
  case (Cons a x) then show ?case by (cases x') auto
qed

lemma sublist_unique_char:
  assumes "c \<notin> set a" "c \<notin> set x"
  shows "sublist (a @ c # b) (x @ c # y) \<longleftrightarrow> (suffix a x \<and> prefix b y) \<or> sublist (a @ c # b) y"
proof
  assume "sublist (a @ c # b) (x @ c # y)"
  then obtain p q where pq: "x @ c # y = p @ a @ c # b @ q" by (auto simp: sublist_def)
  show "(suffix a x \<and> prefix b y) \<or> sublist (a @ c # b) y"
  proof (cases "c \<in> set p")
    case False
    then have "x = p @ a \<and> y = b @ q"
      using pq assms by (intro split_at_char [of c]) simp_all
    then show ?thesis by (auto simp: suffix_def)
  next
    case True
    then obtain p1 p2 where p: "p = p1 @ c # p2" "c \<notin> set p1" by (auto dest: split_list_first)
    then have "x = p1 \<and> y = p2 @ a @ c # b @ q"
      using pq assms(2) by (intro split_at_char [of c]) simp_all
    then show ?thesis by (auto simp: sublist_def)
  qed
next
  assume "(suffix a x \<and> prefix b y) \<or> sublist (a @ c # b) y"
  then show "sublist (a @ c # b) (x @ c # y)"
  proof
    assume "suffix a x \<and> prefix b y"
    then show ?thesis by (auto simp: suffix_def prefix_def sublist_def) blast
  next
    assume "sublist (a @ c # b) y"
    then show ?thesis by (auto simp: sublist_def) (metis append_Cons append_assoc)
  qed
qed

lemma sublist_no_char: "c \<notin> set y \<Longrightarrow> \<not> sublist (a @ c # b) y"
  by (auto simp: sublist_def)

lemma has_attr_iff:
  "NUL \<notin> set attr \<Longrightarrow> NUL \<notin> set val \<Longrightarrow> has_attr x attr val \<longleftrightarrow>
     sublist (attr @ CHR ''='' # APOS # val @ [APOS]) (cstr x) \<or> sublist (attr @ CHR ''='' # DQUOTE # val @ [DQUOTE]) (cstr x)"
  by (simp add: has_attr_def strstr_None cstr_NUL_free)

lemma has_attr_cstr: "cstr x = cstr y \<Longrightarrow> has_attr x a v = has_attr y a v"
  by (simp add: has_attr_def strstr_None)

lemma item_attr_len: "item_attr a r = Some v \<Longrightarrow> length (cstr v) \<le> 63"
  by (auto simp: item_attr_def Let_def cstr_strncpy_zbuf split: option.splits if_splits)

lemma strncpy_zbuf_last: "n \<le> 63 \<Longrightarrow> drop 63 (strncpy (zbuf 64) s n) = [NUL]"
  by (cases "length (cstr s) \<le> n") (simp_all add: strncpy_eq zbuf_def)

lemma item_attr_last: "item_attr a r = Some v \<Longrightarrow> drop 63 v = [NUL]"
  by (auto simp: item_attr_def Let_def strncpy_zbuf_last split: option.splits if_splits)

lemma cstr_item_jid:
  "cstr (item_jid j r) = (case item_attr ''jid'' r of Some v \<Rightarrow> if cstr v = [] then take 63 (cstr j) else cstr v | None \<Rightarrow> take 63 (cstr j))"
proof -
  have "cstr (strncpy v j 63) = take 63 (cstr j)" if "drop 63 v = [NUL]" for v
    using that by (simp add: cstr_strncpy)
  moreover have "drop 63 (zbuf 64) = [NUL]" by (simp add: zbuf_def)
  ultimately show ?thesis
    by (auto simp: item_jid_def Let_def deref_eq_NUL split: option.split dest: item_attr_last)
qed

lemma item_jid_len: "length (cstr (item_jid j r)) \<le> 63"
  by (auto simp: cstr_item_jid split: option.split dest: item_attr_len)

text \<open>The text of the rewritten item.\<close>

definition name_part :: "roster_entry_t \<Rightarrow> string" where
  "name_part r = (case item_attr ''name'' r of None \<Rightarrow> [] | Some v \<Rightarrow> '' name='' @ APOS # cstr v @ [APOS])"

lemma cstr_name_attr: "cstr (name_attr r) = name_part r"
proof -
  have "snprintf 128 ('' name='%s'' @ [APOS]) [VStr v] = '' name='' @ APOS # cstr v @ [APOS]" if "length (cstr v) \<le> 63" for v
    using that by (simp add: snprintf_truncates ptr_free_eval render_eval length_modifier_def convert_full_def va_next_def)
  then show ?thesis
    by (auto simp: name_attr_def name_part_def cstr_NUL_free split: option.split dest: item_attr_len)
qed

lemma name_part_len: "length (name_part r) \<le> 71"
  by (auto simp: name_part_def split: option.split dest: item_attr_len)

lemma new_item_text:
  assumes "length (cstr sub) \<le> 4"
  shows "new_item j sub r = ''<item jid='' @ APOS # cstr (item_jid j r) @ APOS # name_part r @ '' subscription='' @ APOS # cstr sub @ APOS # ''/>''"
  using item_jid_len [of j r] name_part_len [of r] assms
  by (simp add: new_item_def item_fmt_def snprintf_truncates ptr_free_eval render_eval length_modifier_def convert_full_def
      va_next_def cstr_name_attr)

text \<open>An entry whose address and name have no equals sign: then the text of the item has one
  \<open>subscription\<close> attribute only, and the search finds it.\<close>

definition plain_entry :: "cbuf \<Rightarrow> roster_entry_t \<Rightarrow> bool" where
  "plain_entry j r \<longleftrightarrow> CHR ''='' \<notin> set (cstr (item_jid j r)) \<and>
     (case item_attr ''name'' r of None \<Rightarrow> True | Some v \<Rightarrow> CHR ''='' \<notin> set (cstr v))"

lemma suffix_words:
  "\<not> suffix ''subscription'' ''<item jid''" "\<not> suffix ''subscription'' (x @ '' name'')"
  "suffix ''subscription'' (x @ '' subscription'')"
  by (simp_all add: suffix_to_prefix)

lemma sub_attr_found:
  assumes "plain_entry j r" and "CHR ''='' \<notin> set sub"
  shows "sublist (''subscription'' @ CHR ''='' # b)
    (''<item jid='' @ APOS # cstr (item_jid j r) @ APOS # name_part r @ '' subscription='' @ APOS # sub @ APOS # ''/>'') \<longleftrightarrow>
    prefix b (APOS # sub @ APOS # ''/>'')"
proof -
  let ?n = "''subscription'' @ CHR ''='' # b" and ?J = "cstr (item_jid j r)" and ?t = "APOS # sub @ APOS # ''/>''"
  have tail: "sublist ?n (x @ CHR ''='' # ?t) \<longleftrightarrow> suffix ''subscription'' x \<and> prefix b ?t"
    if "CHR ''='' \<notin> set x" for x
    using that sublist_no_char [of "CHR ''=''" ?t "''subscription''" b] assms(2) by (subst sublist_unique_char) simp_all
  have first: "sublist ?n (''<item jid'' @ CHR ''='' # y) \<longleftrightarrow> sublist ?n y" for y
    by (subst sublist_unique_char) (simp_all add: suffix_words)
  show ?thesis
  proof (cases "item_attr ''name'' r")
    case None
    then show ?thesis
      using assms(1) first [of "(APOS # ?J @ APOS # '' subscription'') @ CHR ''='' # ?t"]
        tail [of "APOS # ?J @ APOS # '' subscription''"] suffix_words(3) [of "APOS # ?J @ [APOS]"]
      by (simp add: name_part_def plain_entry_def)
  next
    case (Some v)
    have "sublist ?n ((APOS # ?J @ APOS # '' name'') @ CHR ''='' # y) \<longleftrightarrow> sublist ?n y" for y
      using assms(1) suffix_words(2) [of "APOS # ?J @ [APOS]"] by (subst sublist_unique_char) (simp_all add: plain_entry_def)
    from this [of "(APOS # cstr v @ APOS # '' subscription'') @ CHR ''='' # ?t"] show ?thesis
      using Some assms(1) first [of "(APOS # ?J @ APOS # '' name'') @ CHR ''='' # (APOS # cstr v @ APOS # '' subscription'') @ CHR ''='' # ?t"]
        tail [of "APOS # cstr v @ APOS # '' subscription''"] suffix_words(3) [of "APOS # cstr v @ [APOS]"]
      by (simp add: name_part_def plain_entry_def)
  qed
qed

lemma cur_sub_new_item:
  assumes "plain_entry j r" and "sub \<in> {''none'', ''to'', ''from'', ''both''}"
  shows "cur_sub (new_item j sub r) = sub"
proof -
  have sub: "length (cstr sub) \<le> 4" "CHR ''='' \<notin> set sub" "NUL \<notin> set sub" "cstr sub = sub" using assms(2) by auto
  have "NUL \<notin> set (new_item j sub r)"
    using sub by (auto simp: new_item_text name_part_def split: option.split)
  then have t: "cstr (new_item j sub r) = new_item j sub r" by (rule cstr_NUL_free)
  have word: "NUL \<notin> set ''subscription''" by simp
  have found: "has_attr (new_item j sub r) ''subscription'' v \<longleftrightarrow> prefix (v @ [APOS]) (sub @ APOS # ''/>'')"
    if "NUL \<notin> set v" for v
  proof -
    have "has_attr (new_item j sub r) ''subscription'' v \<longleftrightarrow>
        prefix (APOS # v @ [APOS]) (APOS # sub @ APOS # ''/>'') \<or> prefix (DQUOTE # v @ [DQUOTE]) (APOS # sub @ APOS # ''/>'')"
      unfolding has_attr_iff [OF word that] t
      unfolding new_item_text [OF sub(1)] sub(4) sub_attr_found [OF assms(1) sub(2)] ..
    then show ?thesis by simp
  qed
  show ?thesis using assms(2) by (auto simp: cur_sub_def found)
qed

subsection \<open>Subscriptions as two bits\<close>

text \<open>The abstract state of a roster pair: whether the user receives the presence of the contact,
  and whether the contact receives the presence of the user.  An answer that arrives changes the
  first bit, an answer that is sent changes the second.\<close>

definition sub_state :: "string option \<Rightarrow> bool \<times> bool" where
  "sub_state x = (case x of None \<Rightarrow> (False, False)
     | Some t \<Rightarrow> (cur_sub t \<in> {''to'', ''both''}, cur_sub t \<in> {''from'', ''both''}))"

definition sub_step :: "string \<Rightarrow> string \<Rightarrow> bool \<times> bool \<Rightarrow> bool \<times> bool" where
  "sub_step direction ptype s =
     (if direction = ''inbound'' then (ptype = ''subscribed'', snd s) else (fst s, ptype = ''subscribed''))"

definition sub_name :: "bool \<times> bool \<Rightarrow> string" where
  "sub_name s = (if fst s then if snd s then ''both'' else ''to'' else if snd s then ''from'' else ''none'')"

lemma cur_sub_cstr: "cstr x = cstr y \<Longrightarrow> cur_sub x = cur_sub y"
  by (simp add: cur_sub_def has_attr_cstr [of x y])

lemma cur_sub_name: "cur_sub x = sub_name (sub_state (Some (cstr x)))"
  using cur_sub_cstr [of x "cstr x"] by (simp add: sub_state_def sub_name_def cur_sub_def)

lemma new_sub_step:
  "direction \<in> {''inbound'', ''outbound''} \<Longrightarrow> ptype \<in> {''subscribed'', ''unsubscribed''} \<Longrightarrow>
   new_sub direction ptype (sub_name s) = sub_name (sub_step direction ptype s)"
  by (elim insertE emptyE; cases "fst s"; cases "snd s") (simp_all add: new_sub_def sub_step_def sub_name_def strcmp_eq_0)

lemma sub_name_cases: "sub_name s \<in> {''none'', ''to'', ''from'', ''both''}" "cstr (sub_name s) = sub_name s"
  by (auto simp: sub_name_def)

lemma sub_name_inj: "sub_name s = sub_name t \<longleftrightarrow> s = t"
  by (cases "fst s"; cases "snd s"; cases "fst t"; cases "snd t") (simp_all add: sub_name_def prod_eq_iff)

lemma sub_push_store [simp]: "roster_store (for_range n (sub_push u x) w) = roster_store w"
  by (rule for_range_frame [where g = roster_store]) (simp add: sub_push_def)

lemma plain_open_entry: "CHR ''='' \<notin> set (cstr j) \<Longrightarrow> plain_entry j (open_entry u k r)"
proof -
  assume j: "CHR ''='' \<notin> set (cstr j)"
  have "strstr (poke x 0 NUL) (a @ ''='') = None" if "NUL \<notin> set a" for x a
    using that by (simp add: strstr_None cstr_poke_NUL cstr_NUL_free)
  then have "item_attr a (open_entry u k r) = None" if "NUL \<notin> set a" for a
    using that by (simp add: item_attr_def open_entry_def)
  with j show ?thesis by (auto simp: plain_entry_def cstr_item_jid dest: in_set_takeD)
qed

lemma sub_name_none: "sub_name x = ''none'' \<longleftrightarrow> x = (False, False)"
  by (cases "fst x"; cases "snd x") (simp_all add: sub_name_def prod_eq_iff)

lemma sub_state_name: "cur_sub t = sub_name x \<Longrightarrow> sub_state (Some t) = x"
  by (cases "fst x"; cases "snd x") (simp_all add: sub_state_def sub_name_def prod_eq_iff)

lemma roster_find_key:
  assumes "array_ok 80 roster_ok s" and "length (cstr u) < 32" "length (cstr j) < 64"
  shows "roster_find u j s = first_index 80 (\<lambda>i. roster_active (s ! i) \<and> roster_key (s ! i) = (cstr u, cstr j))"
  using roster.find_key [OF assms(1), of "(u, j, [])"] assms(2,3) by (simp add: roster_find_def)

lemma roster_find_map:
  assumes "array_ok 80 roster_ok (roster_store w)" "roster_distinct w" and "length (cstr u) < 32" "length (cstr j) < 64"
  shows "roster_map w (cstr u, cstr j) =
    (case roster_find u j (roster_store w) of Some i \<Rightarrow> Some (cstr (re_item_xml (roster_store w ! i))) | None \<Rightarrow> None)"
proof (cases "roster_find u j (roster_store w)")
  case None
  then have "(cstr u, cstr j) \<notin> dom (roster_map w)"
    using slot_missing [of "roster_store w" roster_active roster_key "(cstr u, cstr j)"] array_ok_length [OF assms(1)]
    by (auto simp: roster_find_key assms first_index_None roster_map_def slot_map_dom)
  with None show ?thesis by (simp add: domIff)
next
  case (Some i)
  then have i: "i < length (roster_store w)" "roster_active (roster_store w ! i)" "roster_key (roster_store w ! i) = (cstr u, cstr j)"
    using array_ok_length [OF assms(1)] by (auto simp: roster_find_key assms first_index_Some)
  from slot_map_active [OF nth_mem [OF i(1)], of roster_active roster_key "cstr \<circ> re_item_xml"] i(2,3) assms(2) Some
  show ?thesis by (simp add: roster_map_def roster_distinct_def)
qed

lemma sub_slot_place:
  assumes "array_ok 80 roster_ok s" "length (cstr u) < 32" "length (cstr j) < 64" and "sub_slot u j sub s = Some (i, r)"
  defines "k \<equiv> (cstr u, cstr j)"
  shows "i < length s \<and> roster_active r \<and> roster_key r = k \<and>
    (roster_active (s ! i) \<and> roster_key (s ! i) = k \<or> \<not> roster_active (s ! i) \<and> k \<notin> set (slot_keys roster_active roster_key s))"
  using assms(4) array_ok_length [OF assms(1)] slot_missing [of s roster_active roster_key k] assms(2,3)
  by (auto simp: sub_slot_def roster_find_key [OF assms(1-3)] first_index_Some first_index_None k_def open_entry_def
      roster_key_def cstr_simps split: option.splits if_splits)

lemma subscription_step:
  assumes "world_ok w" "roster_distinct w" and "length (cstr u) < 32" "length (cstr j) < 64" and "CHR ''='' \<notin> set (cstr j)"
    and "case roster_find u j (roster_store w) of Some i \<Rightarrow> plain_entry j (roster_store w ! i) | None \<Rightarrow> True"
    and d: "direction \<in> {''inbound'', ''outbound''}" "ptype \<in> {''subscribed'', ''unsubscribed''}"
  defines "w' \<equiv> subscription_update_roster u j direction ptype w" and "k \<equiv> (cstr u, cstr j)"
  shows "roster_distinct w' \<and> (\<forall>k'. k' \<noteq> k \<longrightarrow> roster_map w' k' = roster_map w k') \<and>
    (sub_state (roster_map w' k) = sub_step direction ptype (sub_state (roster_map w k)) \<or>
     w' = w \<and> list_all roster_active (roster_store w) \<and> k \<notin> dom (roster_map w)) \<and>
    (\<exists>i r. roster_store w' = (roster_store w)[i := r] \<and> (i < 80 \<longrightarrow> roster_key r = k))"
proof -
  let ?s = "roster_store w"
  have ok: "array_ok 80 roster_ok ?s" using assms(1) by (simp add: world_ok_def)
  note find = roster_find_map [OF ok assms(2-4)]
  define st where "st = sub_state (roster_map w k)"
  define sub where "sub = sub_name (sub_step direction ptype st)"
  have cur: "(case roster_find u j ?s of Some i \<Rightarrow> cur_sub (re_item_xml (?s ! i)) | None \<Rightarrow> ''none'') = sub_name st"
    by (simp add: st_def k_def find cur_sub_name sub_state_def [of None] sub_name_def [of "(False, False)"] split: option.split)
  have same: "strcmp sub (sub_name st) = 0 \<longleftrightarrow> sub_step direction ptype st = st"
    by (simp add: sub_def strcmp_eq_0 sub_name_cases(2) sub_name_inj)
  have w': "w' = (if sub_step direction ptype st = st \<and> roster_find u j ?s \<noteq> None then w
      else (case sub_slot u j sub ?s of None \<Rightarrow> w
            | Some (i, r) \<Rightarrow> for_range 20 (sub_push u (new_item j sub r)) (xmpp_persist_save_roster
                (w\<lparr>roster_store := ?s[i := r\<lparr>re_item_xml := strncpy_term (re_item_xml r) (new_item j sub r) (256 - 1)\<rparr>]\<rparr>))))"
    unfolding w'_def subscription_update_roster_def Let_def cur new_sub_step [OF d] sub_def [symmetric] same by (rule refl)
  have unch: "\<exists>i r. roster_store w = (roster_store w)[i := r] \<and> (i < 80 \<longrightarrow> roster_key r = k)"
    using array_ok_length [OF ok] by (intro exI [of _ 80]) (simp add: list_update_beyond)
  show ?thesis
  proof (cases "sub_step direction ptype st = st \<and> roster_find u j ?s \<noteq> None")
    case True
    then show ?thesis using assms(2) unch by (simp add: w' st_def)
  next
    case False
    show ?thesis
    proof (cases "sub_slot u j sub ?s")
      case None
      with False have "roster_find u j ?s = None" by (auto simp: sub_slot_def split: option.splits)
      with None False show ?thesis using assms(2) array_ok_length [OF ok] unch
        by (auto simp: w' st_def sub_def k_def find sub_state_def sub_slot_def first_index_None list_all_length strcmp_eq_0
            sub_name_cases(2) sub_name_none domIff split: option.splits if_splits)
    next
      case (Some p)
      obtain i r where p: "p = (i, r)" by (cases p)
      define r' where "r' = r\<lparr>re_item_xml := strncpy_term (re_item_xml r) (new_item j sub r) 255\<rparr>"
      note place = sub_slot_place [OF ok assms(3,4) Some [unfolded p]]
      have key: "roster_active r'" "roster_key r' = k" using place by (simp_all add: r'_def roster_key_def k_def)
      have store: "roster_store w' = ?s[i := r']" using False Some by (auto simp: w' p r'_def)
      have plain: "plain_entry j r"
        using Some assms(5,6) by (auto simp: p sub_slot_def plain_open_entry split: option.splits if_splits)
      have "cstr (re_item_xml r') = cstr (new_item j sub r)"
        using snprintf_length [of 256 item_fmt] order_trans [OF length_cstr_le, of "new_item j sub r" 255]
        by (simp add: r'_def cstr_simps new_item_def)
      then have "cur_sub (cstr (re_item_xml r')) = sub"
        using cur_sub_cstr [of "cstr (re_item_xml r')" "new_item j sub r"] cur_sub_new_item [OF plain sub_name_cases(1)]
        by (simp add: sub_def)
      then have "sub_state (Some (cstr (re_item_xml r'))) = sub_step direction ptype st"
        unfolding sub_def by (rule sub_state_name)
      then show ?thesis
        using slot_update [OF assms(2) [unfolded roster_distinct_def], of i r' k "cstr \<circ> re_item_xml"] place key
        by (auto simp: roster_map_def roster_distinct_def store k_def st_def)
    qed
  qed
qed

subsection \<open>Answering a subscription request\<close>

lemma sub_deliver_store [simp]: "roster_store (fst (sub_deliver st p f w)) = roster_store w"
  unfolding sub_deliver_def
  by (rule for_range_invariant [where P = "\<lambda>x. roster_store (fst x) = roster_store w"]) (auto simp: case_prod_beta)

lemma pending_enqueue_store [simp]: "roster_store (pending_sub_enqueue t f u w) = roster_store w"
  by (simp add: pending_sub_enqueue_def Let_def split: option.split)

lemma bare_buf_length: "length (cstr (bare_buf j)) < 64"
  using le_less_trans [OF length_takeWhile_le [of _ "take 63 (cstr j)"], of 64] by (simp add: cstr_bare_buf bare_def)

lemma roster_view: "roster_store w' = roster_store w \<Longrightarrow> roster_map w' = roster_map w \<and> roster_distinct w' = roster_distinct w"
  by (simp add: roster_map_def roster_distinct_def)

lemma plain_entry_cstr: "cstr j = cstr k \<Longrightarrow> plain_entry j r = plain_entry k r"
  by (simp add: plain_entry_def cstr_item_jid split: option.split)

definition user_of :: "string \<Rightarrow> string" where
  "user_of j = take 31 (takeWhile (\<lambda>c. c \<noteq> CHR ''@'') j)"

lemma found_elsewhere:
  assumes "roster_store w' = (roster_store w)[i := r]" and "i < 80 \<longrightarrow> roster_key r = k" and "world_ok w" "world_ok w'"
    and "length (cstr u) < 32" "length (cstr j) < 64" "(cstr u, cstr j) \<noteq> k" and "list_all P (roster_store w)"
  shows "case roster_find u j (roster_store w') of Some i \<Rightarrow> P (roster_store w' ! i) | None \<Rightarrow> True"
proof (cases "roster_find u j (roster_store w')")
  case (Some m)
  have ok: "array_ok 80 roster_ok (roster_store w')" using assms(4) by (simp add: world_ok_def)
  have m: "m < 80" "roster_key (roster_store w' ! m) = (cstr u, cstr j)"
    using Some by (auto simp: roster_find_key [OF ok assms(5,6)] first_index_Some)
  then have "m \<noteq> i" using assms(1,2,7) array_ok_length [OF ok] by auto
  then show ?thesis using Some m(1) assms(1,8) world_ok_lengths(3) [OF assms(3)] by (simp add: list_all_length)
qed simp

lemma answer_decomposed:
  fixes ctx :: nat and st :: xmpp_stanza_t
  defines "a w \<equiv> bare_buf (cl_full_jid (client w ctx))" and "b \<equiv> bare_buf (st_to st)" and "p \<equiv> ptype_of (st_type st)"
  assumes ok: "world_ok w" and t: "st_type st = XMPP_PRESENCE_SUBSCRIBED \<or> st_type st = XMPP_PRESENCE_UNSUBSCRIBED"
  shows "\<exists>w2. world_ok w2 \<and> roster_store w2 = roster_store w \<and> handle_broadcast_presence ctx st w =
    subscription_update_roster (local_user b) (a w) ''inbound'' p (subscription_update_roster (local_user (a w)) b ''outbound'' p w2)"
proof -
  define w0 where "w0 = (if STATE_SESSION \<le> cl_state (client w ctx) \<and> cl_state (client w ctx) < STATE_READY
                then upd_client ctx (\<lambda>c. c\<lparr>cl_state := STATE_READY\<rparr>) w else w)"
  define w2 where "w2 = (let (w1, d) = sub_deliver st p (a w0) w0 in if d then w1 else pending_sub_enqueue p (a w0) (local_user b) w1)"
  have ok0: "world_ok w0" using ok by (auto simp: w0_def intro!: world_ok_upd_client client_ok_sel_update)
  have ok2: "world_ok w2"
    using sub_deliver_ok [OF ok0, of st p "a w0"] by (auto simp: w2_def Let_def case_prod_beta intro!: pending_sub_enqueue_ok)
  have store2: "roster_store w2 = roster_store w" by (simp add: w2_def Let_def case_prod_beta w0_def upd_client_def)
  have jid: "a w0 = a w"
    by (cases "ctx < length (client_registry w)") (auto simp: a_def w0_def upd_client_def list_update_beyond)
  have p: "strcmp p ''subscribed'' = 0 \<or> strcmp p ''unsubscribed'' = 0"
    using t by (elim disjE) (simp_all add: p_def ptype_of_def)
  have "handle_broadcast_presence ctx st w = presence_subscription ctx st w0"
    unfolding handle_broadcast_presence_def Let_def w0_def [symmetric] using t by (elim disjE) simp_all
  then have "handle_broadcast_presence ctx st w =
      subscription_update_roster (local_user b) (a w0) ''inbound'' p (subscription_update_roster (local_user (a w0)) b ''outbound'' p w2)"
    using p unfolding presence_subscription_def Let_def case_prod_beta w2_def p_def a_def b_def by simp
  with ok2 store2 show ?thesis unfolding jid by blast
qed


lemma plain_zero_entry: "CHR ''='' \<notin> set (cstr j) \<Longrightarrow> plain_entry j zero_roster"
proof -
  have "strstr (zbuf n) (a @ ''='') = None" if "NUL \<notin> set a" for a n
    using that by (simp add: strstr_None cstr_NUL_free)
  then have "item_attr a zero_roster = None" if "NUL \<notin> set a" for a
    using that by (simp add: item_attr_def zero_roster_def)
  then show "CHR ''='' \<notin> set (cstr j) \<Longrightarrow> plain_entry j zero_roster"
    by (auto simp: plain_entry_def cstr_item_jid dest: in_set_takeD)
qed


end
