(* ===== verification/Session.thy ===== *)
theory Session
  imports Presence
begin

text \<open>
  What the handlers may do to connections.  A handler run for the client \<open>ctx\<close> sends, updates the
  profile of clients, advances the state of \<open>ctx\<close>, and, when binding, drops other connections of
  the same user; nothing else.  The locale states the laws a property of the registry and the stanza
  pool needs to survive that, and shows that every handler of \<^verbatim>\<open>src/src/xmpp/xmpp_handlers.c\<close>
  keeps such a property.
\<close>

definition conn_holds :: "(xmpp_client_ctx_t list \<Rightarrow> xmpp_stanza_t list \<Rightarrow> bool) \<Rightarrow> world \<Rightarrow> bool" where
  "conn_holds P w \<longleftrightarrow> P (client_registry w) (stanza_pool w)"

text \<open>Two contexts of the same connection in the same state.\<close>

definition same_conn :: "xmpp_client_ctx_t \<Rightarrow> xmpp_client_ctx_t \<Rightarrow> bool" where
  "same_conn c c' \<longleftrightarrow> cl_pcb c' = cl_pcb c \<and> cl_state c' = cl_state c \<and> cl_authenticated c' = cl_authenticated c \<and>
     cl_tls_established c' = cl_tls_established c \<and> cl_rx_buffer c' = cl_rx_buffer c \<and> cl_rx_pos c' = cl_rx_pos c \<and>
     cl_username c' = cl_username c"

lemma same_conn_send: "send_frame c c' \<Longrightarrow> same_conn c c'"
  by (simp add: same_conn_def send_frame_sel)

lemma same_conn_profile [simp]:
  "same_conn c (c\<lparr>cl_full_jid := j\<rparr>)" "same_conn c (set_presence st c)" "same_conn c (refresh_presence st c)"
  "same_conn c (c\<lparr>cl_initial_presence_sent := b\<rparr>)" "same_conn c (xmpp_sm_on_stanza_received c)"
  by (simp_all add: same_conn_def set_presence_def refresh_presence_def xmpp_sm_on_stanza_received_def)

lemma conn_holds_env [simp]: "conn_holds P (w\<lparr>env := e\<rparr>) \<longleftrightarrow> conn_holds P w"
  "conn_holds P (w\<lparr>roster_version := v\<rparr>) \<longleftrightarrow> conn_holds P w"
  "conn_holds P (w\<lparr>roster_store := rs\<rparr>) \<longleftrightarrow> conn_holds P w"
  "conn_holds P (w\<lparr>private_store := p\<rparr>) \<longleftrightarrow> conn_holds P w"
  "conn_holds P (w\<lparr>offline_store := m\<rparr>) \<longleftrightarrow> conn_holds P w"
  "conn_holds P (w\<lparr>pending_subs := s\<rparr>) \<longleftrightarrow> conn_holds P w"
  "conn_holds P (upd_room r g w) \<longleftrightarrow> conn_holds P w"
  "conn_holds P (set_user r j h w) \<longleftrightarrow> conn_holds P w"
  by (simp_all add: conn_holds_def upd_room_def set_user_def)

lemma conn_holds_save [simp]:
  "conn_holds P (xmpp_persist_save_private w) \<longleftrightarrow> conn_holds P w"
  "conn_holds P (xmpp_persist_save_roster w) \<longleftrightarrow> conn_holds P w"
  "conn_holds P (xmpp_persist_save_rooms w) \<longleftrightarrow> conn_holds P w"
  "conn_holds P (xmpp_persist_save_offline w) \<longleftrightarrow> conn_holds P w"
  "conn_holds P (xmpp_persist_save_pending_subs w) \<longleftrightarrow> conn_holds P w"
  by (simp_all add: conn_holds_def)

lemma conn_holds_for_range:
  "conn_holds P w \<Longrightarrow> (\<And>i w. conn_holds P w \<Longrightarrow> conn_holds P (f i w)) \<Longrightarrow> conn_holds P (for_range n f w)"
  by (rule for_range_invariant [where P = "conn_holds P"])

text \<open>The operations on the stores do not touch connections.\<close>

lemma conn_holds_stores [simp]:
  "conn_holds P (snd (offline_msg_enqueue t f i p w)) \<longleftrightarrow> conn_holds P w"
  "conn_holds P (snd (private_store_upsert u n x l w)) \<longleftrightarrow> conn_holds P w"
  "conn_holds P (snd (roster_store_upsert_item u y w)) \<longleftrightarrow> conn_holds P w"
  "conn_holds P (pending_sub_enqueue t' f' u' w) \<longleftrightarrow> conn_holds P w"
  by (auto simp: offline_msg_enqueue_def private_store_upsert_def roster_store_upsert_item_def
      pending_sub_enqueue_def case_prod_beta Let_def split: option.split)

lemma conn_holds_roster_set [simp]: "conn_holds P (roster_store_set_from_payload u p w) \<longleftrightarrow> conn_holds P w"
  using roster_set_loop_frame [of u p w] by (auto simp: roster_store_set_from_payload_def)

locale connection_property =
  fixes ctx :: nat and P :: "xmpp_client_ctx_t list \<Rightarrow> xmpp_stanza_t list \<Rightarrow> bool"
  assumes profile: "P cs ps \<Longrightarrow> same_conn (cs ! i) c \<Longrightarrow> P (cs[i := c]) ps"
    and set_state: "P cs ps \<Longrightarrow> cl_authenticated (cs ! ctx) \<or> s < STATE_AUTHENTICATED \<Longrightarrow>
      P (cs[ctx := (cs ! ctx)\<lparr>cl_state := s\<rparr>]) ps"
    and logged_in: "P cs ps \<Longrightarrow> STATE_AUTHENTICATED \<le> cl_state (cs ! ctx) \<Longrightarrow> cl_authenticated (cs ! ctx)"
    and drop_other: "P cs ps \<Longrightarrow> i \<noteq> ctx \<Longrightarrow> P (cs[i := zero_client]) ps"
begin

lemma upd_keeps: "conn_holds P w \<Longrightarrow> (\<And>c. same_conn c (f c)) \<Longrightarrow> conn_holds P (upd_client i f w)"
  by (simp add: conn_holds_def upd_client_def profile)

lemma state_keeps:
  "conn_holds P w \<Longrightarrow> cl_authenticated (client w ctx) \<or> s < STATE_AUTHENTICATED \<Longrightarrow>
   conn_holds P (upd_client ctx (\<lambda>c. c\<lparr>cl_state := s\<rparr>) w)"
  by (simp add: conn_holds_def upd_client_def set_state)

lemma client_keeps: "conn_holds P w \<Longrightarrow> same_conn (client w i) (fst (f (client w i, env w))) \<Longrightarrow> conn_holds P (on_client i f w)"
  by (simp add: conn_holds_def on_client_def Let_def case_prod_beta profile)

lemma send_keeps: "conn_holds P w \<Longrightarrow> conn_holds P (send_to i d w)"
  unfolding send_to_def
  by (erule client_keeps) (use send_raw_frame [of "(client w i, env w)" d] in \<open>simp add: same_conn_send\<close>)

lemma reply_keeps:
  "conn_holds P w \<Longrightarrow> conn_holds P (iq_result n i st w)"
  "conn_holds P w \<Longrightarrow> conn_holds P (reply_id_to n fmt i st w)"
  "conn_holds P w \<Longrightarrow> conn_holds P (reply_from_to n fmt extra i st w)"
  by (simp_all add: iq_result_def reply_id_to_def reply_from_to_def send_keeps)

lemma service_keeps:
  "conn_holds P w \<Longrightarrow> conn_holds P (handle_blocklist i st w)"
  "conn_holds P w \<Longrightarrow> conn_holds P (handle_version i st w)"
  "conn_holds P w \<Longrightarrow> conn_holds P (handle_last i st w)"
  "conn_holds P w \<Longrightarrow> conn_holds P (handle_ping i st w)"
  "conn_holds P w \<Longrightarrow> conn_holds P (handle_general_success i st w)"
  "conn_holds P w \<Longrightarrow> conn_holds P (handle_disco_info i st w)"
  "conn_holds P w \<Longrightarrow> conn_holds P (handle_disco_items i st w)"
  by (auto simp: handle_blocklist_def handle_version_def handle_last_def handle_ping_def handle_general_success_def
      handle_disco_info_def handle_disco_items_def forward_caps_def Let_def send_keeps reply_keeps
      split: option.split nat.split)

lemma private_keeps: "conn_holds P w \<Longrightarrow> conn_holds P (handle_private_storage i st w)"
  by (auto simp: handle_private_storage_def private_set_def private_get_def Let_def case_prod_beta send_keeps reply_keeps
      split: option.split)

lemma roster_keeps: "conn_holds P w \<Longrightarrow> conn_holds P (handle_roster_request i st w)"
  unfolding handle_roster_request_def roster_set_def roster_get_def Let_def
  by (auto intro!: conn_holds_for_range send_keeps reply_keeps simp: roster_push_def)

lemma drain_keeps:
  "conn_holds P w \<Longrightarrow> conn_holds P (offline_msg_drain i w)" "conn_holds P w \<Longrightarrow> conn_holds P (pending_sub_drain i w)"
  unfolding offline_msg_drain_def pending_sub_drain_def
  by (auto intro!: conn_holds_for_range send_keeps simp: offline_drain_slot_def pending_drain_slot_def Let_def)

lemma initial_presence_keeps: "conn_holds P w \<Longrightarrow> conn_holds P (handle_initial_presence i st w)"
  unfolding handle_initial_presence_def Let_def
  by (auto intro!: drain_keeps conn_holds_for_range upd_keeps send_keeps simp: announce_to_def probe_from_def)

lemma occupants_keeps: "conn_holds P w \<Longrightarrow> conn_holds P (tell_occupants r skip msg w)"
  unfolding tell_occupants_def
  by (auto intro!: conn_holds_for_range simp: tell_occupant_def Let_def send_keeps split: option.split)

lemma kick_keeps: "conn_holds P w \<Longrightarrow> conn_holds P (kick_occupant ban rs bj r j w)"
  unfolding kick_occupant_def record_ban_def Let_def by (auto intro!: send_keeps occupants_keeps split: option.split)

lemma muc_admin_keeps: "conn_holds P w \<Longrightarrow> conn_holds P (handle_muc_admin i st w)"
  unfolding handle_muc_admin_def kick_def Let_def
  by (auto intro!: send_keeps reply_keeps kick_keeps split: option.split)

lemma muc_owner_keeps: "conn_holds P w \<Longrightarrow> conn_holds P (handle_muc_owner i st w)"
  unfolding handle_muc_owner_def owner_form_def destroy_room_def Let_def case_prod_beta
  by (auto intro!: send_keeps reply_keeps occupants_keeps split: option.split)

lemma muc_join_keeps: "conn_holds P w \<Longrightarrow> conn_holds P (muc_join i bj n new r w)"
  unfolding muc_join_def greet_def room_error_def Let_def
  by (auto intro!: send_keeps occupants_keeps conn_holds_for_range simp: introduce_def Let_def split: option.split)

lemma muc_leave_keeps: "conn_holds P w \<Longrightarrow> conn_holds P (muc_leave i bj n r w)"
  unfolding muc_leave_def Let_def by (auto intro!: send_keeps occupants_keeps split: option.split)

lemma muc_rename_keeps: "conn_holds P w \<Longrightarrow> conn_holds P (muc_rename i bj n r j w)"
  unfolding muc_rename_def Let_def by (auto intro!: send_keeps occupants_keeps)

lemma in_room_keeps: "conn_holds P w \<Longrightarrow> conn_holds P (in_room i st bj n new r w)"
  unfolding in_room_def room_error_def muc_again_def Let_def
  by (auto intro!: send_keeps occupants_keeps muc_leave_keeps muc_rename_keeps muc_join_keeps split: option.split)

lemma find_or_open_keeps: "conn_holds P w \<Longrightarrow> find_or_open i name w = Some (r, new, w') \<Longrightarrow> conn_holds P w'"
  by (auto simp: find_or_open_def split: option.splits)

lemma muc_presence_keeps: "conn_holds P w \<Longrightarrow> conn_holds P (handle_muc_presence i st w)"
  unfolding handle_muc_presence_def Let_def
  by (auto split: option.split intro!: in_room_keeps dest: find_or_open_keeps)

lemma deliver_keeps: "conn_holds P w \<Longrightarrow> conn_holds P (fst (deliver st x w))"
  unfolding deliver_def
  by (rule for_range_invariant [where P = "\<lambda>x. conn_holds P (fst x)"]) (auto simp: case_prod_beta Let_def send_keeps)

lemma subject_keeps: "conn_holds P w \<Longrightarrow> conn_holds P (set_subject r p w)"
  by (auto simp: set_subject_def Let_def split: option.split)

lemma room_message_keeps: "conn_holds P w \<Longrightarrow> conn_holds P (room_message i st w)"
  unfolding room_message_def private_message_def groupchat_def Let_def
  by (auto intro!: send_keeps occupants_keeps subject_keeps split: option.split)

lemma direct_message_keeps: "conn_holds P w \<Longrightarrow> conn_holds P (direct_message i st w)"
  unfolding direct_message_def Let_def case_prod_beta
  using deliver_keeps by (auto intro!: send_keeps)

lemma chat_keeps: "conn_holds P w \<Longrightarrow> conn_holds P (handle_chat_message i st w)"
  by (simp add: handle_chat_message_def room_message_keeps direct_message_keeps)

lemma subscription_update_keeps: "conn_holds P w \<Longrightarrow> conn_holds P (subscription_update_roster u j d p w)"
  by (auto simp: subscription_update_roster_def Let_def sub_push_def split: option.split
      intro!: conn_holds_for_range send_keeps)

lemma subscription_keeps: "conn_holds P w \<Longrightarrow> conn_holds P (presence_subscription i st w)"
proof -
  have "conn_holds P w \<Longrightarrow> conn_holds P (fst (sub_deliver st p f w))" for p f
    unfolding sub_deliver_def
    by (rule for_range_invariant [where P = "\<lambda>x. conn_holds P (fst x)"]) (auto simp: case_prod_beta send_keeps)
  then show "conn_holds P w \<Longrightarrow> conn_holds P (presence_subscription i st w)"
    by (auto simp: presence_subscription_def Let_def case_prod_beta intro!: subscription_update_keeps)
qed

lemma ready_keeps: "conn_holds P w \<Longrightarrow> STATE_SESSION \<le> cl_state (client w ctx) \<Longrightarrow>
    conn_holds P (upd_client ctx (\<lambda>c. c\<lparr>cl_state := STATE_READY\<rparr>) w)"
  by (rule state_keeps) (auto simp: conn_holds_def less_eq_client_state_t_def intro!: logged_in)

lemma broadcast_presence_keeps: "conn_holds P w \<Longrightarrow> conn_holds P (handle_broadcast_presence ctx st w)"
  unfolding handle_broadcast_presence_def Let_def presence_probe_def presence_directed_def
  by (auto intro!: conn_holds_for_range subscription_keeps send_keeps upd_keeps ready_keeps
      simp: presence_announce_def Let_def)

lemma session_keeps:
  "conn_holds P w \<Longrightarrow> STATE_AUTHENTICATED \<le> cl_state (client w ctx) \<Longrightarrow> conn_holds P (handle_core_session ctx st w)"
  using logged_in unfolding handle_core_session_def conn_holds_def [of P w]
  by (intro state_keeps send_keeps) (auto simp: conn_holds_def)

lemma conflicts_keep:
  "conn_holds P w \<Longrightarrow> conn_holds P (for_range n (bind_conflict ctx) w)"
  by (rule conn_holds_for_range)
    (auto simp: bind_conflict_def conn_holds_def on_client_def Let_def case_prod_beta evict_fst intro!: drop_other)

lemma bind_keeps:
  assumes "conn_holds P w" and "length (client_registry w) = 20"
  shows "conn_holds P (handle_core_bind ctx st w)"
proof (cases "cl_state (client w ctx) = STATE_BIND")
  case True
  define w2 where "w2 = upd_client ctx (\<lambda>c. c\<lparr>cl_full_jid :=
      snprintf_buf (cl_full_jid c) 64 bind_jid_fmt [VStr (cl_username c), VStr XMPP_DOMAIN,
        VInt (uint (fst (secure_random_u32 (env_rng (env w))) mod 9999))]\<rparr>)
      (w\<lparr>env := (env w)\<lparr>env_rng := snd (secure_random_u32 (env_rng (env w)))\<rparr>\<rparr>)"
  define w3 where "w3 = for_range MAX_USERS (bind_conflict ctx) w2"
  have P2: "conn_holds P w2" unfolding w2_def by (rule upd_keeps) (simp_all add: assms)
  have "cl_state (client w2 ctx) = STATE_BIND" "length (client_registry w2) = 20"
    using True assms(2) by (cases "ctx < 20"; simp add: w2_def upd_client_def list_update_beyond)+
  then have "cl_state (client w3 ctx) = STATE_BIND"
    by (simp add: w3_def bind_conflict_client evicted_def)
  moreover have P3: "conn_holds P w3" unfolding w3_def by (rule conflicts_keep [OF P2])
  ultimately have "cl_authenticated (client w3 ctx)"
    by (auto simp: conn_holds_def less_eq_client_state_t_def intro!: logged_in)
  then have "conn_holds P (upd_client ctx (\<lambda>c. c\<lparr>cl_state := STATE_SESSION\<rparr>) (send_to ctx d w3))" for d
    by (intro state_keeps send_keeps P3) simp
  then show ?thesis using True by (simp add: handle_core_bind_def Let_def case_prod_beta w2_def w3_def)
qed (simp add: handle_core_bind_def bind_error_def Let_def send_keeps assms)

end

subsection \<open>Sessions are authenticated\<close>

text \<open>A state past the login needs the login, and a live connection that has logged in is encrypted.\<close>

definition secure :: "xmpp_client_ctx_t \<Rightarrow> bool" where
  "secure c \<longleftrightarrow> (STATE_AUTHENTICATED \<le> cl_state c \<longrightarrow> cl_authenticated c) \<and>
     (cl_authenticated c \<and> cl_pcb c \<noteq> None \<longrightarrow> cl_tls_established c)"

lemma secure_zero [simp]: "secure zero_client"
  by (simp add: secure_def zero_client_def less_eq_client_state_t_def)

lemma secure_same_conn: "secure c \<Longrightarrow> same_conn c c' \<Longrightarrow> secure c'"
  by (simp add: secure_def same_conn_def)

text \<open>The connections are secure, and the received text of \<open>ctx\<close> and the stanza pool are given.\<close>

definition guarded ::
  "nat \<Rightarrow> string \<Rightarrow> nat \<Rightarrow> xmpp_stanza_t list \<Rightarrow> xmpp_client_ctx_t list \<Rightarrow> xmpp_stanza_t list \<Rightarrow> bool" where
  "guarded ctx b n pool cs ps \<longleftrightarrow> list_all secure cs \<and> ctx < length cs \<and> cl_rx_buffer (cs ! ctx) = b \<and>
     cl_rx_pos (cs ! ctx) = n \<and> ps = pool"

interpretation guarded: connection_property ctx "guarded ctx b n pool" for ctx b n pool
proof
  fix cs ps i c assume g: "guarded ctx b n pool cs ps" and c: "same_conn (cs ! i) c"
  then have "i < length cs \<Longrightarrow> secure c" using secure_same_conn by (auto simp: guarded_def list_all_length)
  then have "list_all secure (cs[i := c])"
    using g by (cases "i < length cs") (auto simp: guarded_def list_all_length nth_list_update list_update_beyond)
  then show "guarded ctx b n pool (cs[i := c]) ps"
    using g c by (cases "i = ctx") (auto simp: guarded_def same_conn_def)
next
  fix cs ps s assume g: "guarded ctx b n pool cs ps" and s: "cl_authenticated (cs ! ctx) \<or> s < STATE_AUTHENTICATED"
  then have "secure ((cs ! ctx)\<lparr>cl_state := s\<rparr>)" by (auto simp: guarded_def list_all_length secure_def)
  then show "guarded ctx b n pool (cs[ctx := (cs ! ctx)\<lparr>cl_state := s\<rparr>]) ps"
    using g by (auto simp: guarded_def list_all_length nth_list_update)
next
  fix cs ps i assume "guarded ctx b n pool cs ps" and "i \<noteq> ctx"
  then show "guarded ctx b n pool (cs[i := zero_client]) ps" by (simp add: guarded_def list_all_update)
qed (auto simp: guarded_def list_all_length secure_def)

end
