(* ===== verification/Router.thy ===== *)
theory Router
  imports Session
begin

text \<open>
  Stream negotiation and the dispatch of stanzas: \<open>handle_handshake_logic\<close> of
  \<^verbatim>\<open>src/src/xmpp/xmpp_server.c\<close> and \<^verbatim>\<open>src/src/xmpp/xmpp_router.c\<close>.
\<close>

subsection \<open>Stream header and features\<close>

definition stream_fmt :: "string \<Rightarrow> string" where
  "stream_fmt features =
     ''<?xml version='1.0'?><stream:stream from='%s'%s id='%u' version='1.0' xml:lang='en' xmlns='jabber:client' '' @
     ''xmlns:stream='http://etherx.jabber.org/streams'><stream:features>'' @ features @ ''</stream:features>''"

definition bind_features :: string where
  "bind_features = ''<bind xmlns='urn:ietf:params:xml:ns:xmpp-bind'/><session xmlns='urn:ietf:params:xml:ns:xmpp-session'/><sm xmlns='urn:xmpp:sm:3'/>''"

definition sasl_features :: string where
  "sasl_features = ''<mechanisms xmlns='urn:ietf:params:xml:ns:xmpp-sasl'><mechanism>PLAIN</mechanism></mechanisms>''"

definition tls_features :: string where
  "tls_features = ''<starttls xmlns='urn:ietf:params:xml:ns:xmpp-tls'><required/></starttls>''"

definition to_attr :: "xmpp_client_ctx_t \<Rightarrow> string" where
  "to_attr c =
     (if deref (cl_client_from c) \<noteq> NUL then snprintf 96 ('' to='%s'' @ [APOS]) [VStr (cl_client_from c)] else [])"

definition handshake :: "cx \<Rightarrow> cx" where
  "handshake x =
     (case x of (c, e) \<Rightarrow>
        let (stream_id, g) = secure_random_u32 (env_rng e);
            e1 = e\<lparr>env_rng := g\<rparr>;
            c1 = (if cl_authenticated c then c\<lparr>cl_state := STATE_BIND\<rparr> else c);
            features = (if cl_authenticated c then bind_features
                        else if cl_tls_established c then sasl_features else tls_features);
            response = snprintf 512 (stream_fmt features) [VStr XMPP_DOMAIN, VStr (to_attr c), VInt (uint stream_id)];
            (c2, e2) = send_raw response (c1, e1)
        in (if \<not> cl_authenticated c2 \<and> cl_tls_established c2 then c2\<lparr>cl_state := STATE_SASL\<rparr> else c2, e2))"

definition handle_handshake_logic :: "nat \<Rightarrow> world \<Rightarrow> world" where
  "handle_handshake_logic ctx w = on_client ctx handshake w"

subsection \<open>The routing table\<close>

type_synonym handler_fn = "nat \<Rightarrow> xmpp_stanza_t \<Rightarrow> world \<Rightarrow> world"

definition router :: "(string \<times> handler_fn \<times> client_state_t) list" where
  "router =
     [(''urn:ietf:params:xml:ns:xmpp-bind'', handle_core_bind, STATE_BIND),
      (''urn:ietf:params:xml:ns:xmpp-session'', handle_core_session, STATE_AUTHENTICATED),
      (''jabber:iq:roster'', handle_roster_request, STATE_SESSION),
      (''http://jabber.org/protocol/disco#info'', handle_disco_info, STATE_SESSION),
      (''http://jabber.org/protocol/disco#items'', handle_disco_items, STATE_SESSION),
      (''http://jabber.org/protocol/muc'', handle_muc_presence, STATE_SESSION),
      (''http://jabber.org/protocol/muc#owner'', handle_muc_owner, STATE_SESSION),
      (''jabber:iq:private'', handle_private_storage, STATE_SESSION),
      (''http://jabber.org/protocol/muc#admin'', handle_muc_admin, STATE_SESSION),
      (''urn:xmpp:blocking'', handle_blocklist, STATE_SESSION),
      (''vcard-temp'', handle_general_success, STATE_SESSION),
      (''jabber:iq:version'', handle_version, STATE_SESSION),
      (''jabber:iq:last'', handle_last, STATE_SESSION),
      (''urn:ietf:params:xml:ns:xmpp-ping'', handle_ping, STATE_SESSION)]"

subsection \<open>Replies of the router\<close>

definition iq_error :: "string \<Rightarrow> string \<Rightarrow> string" where
  "iq_error idpart body = ''<iq type='error' from='%s' to='%s'' @ APOS # idpart @ CHR ''>'' # body @ ''</iq>''"

definition wait_error :: string where
  "wait_error = ''<error type='wait'><unexpected-request xmlns='urn:ietf:params:xml:ns:xmpp-stanzas'/></error>''"

definition service_error :: string where
  "service_error = ''<error type='cancel' code='503'><service-unavailable xmlns='urn:ietf:params:xml:ns:xmpp-stanzas'/></error>''"

definition modify_error :: string where
  "modify_error = ''<error type='modify'><bad-request xmlns='urn:ietf:params:xml:ns:xmpp-stanzas'/></error>''"

definition id_attr :: string where
  "id_attr = '' id='%s'' @ [APOS]"

definition reply_from :: "xmpp_stanza_t \<Rightarrow> cbuf" where
  "reply_from st = (if deref (st_to st) \<noteq> NUL then st_to st else XMPP_DOMAIN)"

definition reply_to :: "xmpp_client_ctx_t \<Rightarrow> cbuf" where
  "reply_to c = (if deref (cl_full_jid c) \<noteq> NUL then cl_full_jid c else ''unknown'')"

definition route_too_early :: "nat \<Rightarrow> xmpp_stanza_t \<Rightarrow> world \<Rightarrow> world" where
  "route_too_early ctx st w =
     (if st_type st = XMPP_IQ_GET \<or> st_type st = XMPP_IQ_SET then
        (let from_jid = VStr (reply_from st); to_jid = VStr (reply_to (client w ctx)) in
         send_to ctx
           (if deref (st_id st) \<noteq> NUL
            then snprintf 512 (iq_error id_attr wait_error) [from_jid, to_jid, VStr (st_id st)]
            else snprintf 512 (iq_error [] wait_error) [from_jid, to_jid]) w)
      else w)"

definition route_unknown_iq :: "nat \<Rightarrow> xmpp_stanza_t \<Rightarrow> world \<Rightarrow> world" where
  "route_unknown_iq ctx st w =
     (let from_jid = VStr (reply_from st); to_jid = VStr (cl_full_jid (client w ctx)) in
      send_to ctx
        (if strlen (st_id st) > 0
         then snprintf 512 (iq_error id_attr service_error) [from_jid, to_jid, VStr (st_id st)]
         else snprintf 512 (iq_error [] service_error) [from_jid, to_jid]) w)"

text \<open>The last block of the router, which is also reached after \<open>route_unknown_iq\<close>.\<close>

definition route_bad_request :: "nat \<Rightarrow> xmpp_stanza_t \<Rightarrow> world \<Rightarrow> world" where
  "route_bad_request ctx st w =
     (if st_type st = XMPP_UNKNOWN \<and> deref (st_id st) \<noteq> NUL \<and> \<not> cl_state (client w ctx) < STATE_AUTHENTICATED then
        send_to ctx (snprintf 512 (iq_error id_attr modify_error)
          [VStr (reply_from st), VStr (reply_to (client w ctx)), VStr (st_id st)]) w
      else w)"

subsection \<open>Dispatch\<close>

definition is_presence :: "stanza_type_t \<Rightarrow> bool" where
  "is_presence t \<longleftrightarrow> t = XMPP_PRESENCE \<or> t = XMPP_PRESENCE_UNAVAILABLE \<or> t = XMPP_PRESENCE_SUBSCRIBE \<or>
     t = XMPP_PRESENCE_SUBSCRIBED \<or> t = XMPP_PRESENCE_UNSUBSCRIBE \<or> t = XMPP_PRESENCE_UNSUBSCRIBED \<or>
     t = XMPP_PRESENCE_PROBE"

definition route_presence :: "nat \<Rightarrow> xmpp_stanza_t \<Rightarrow> world \<Rightarrow> world" where
  "route_presence ctx st w =
     (if strstr (st_to st) ''conference.angelic.local'' \<noteq> None then handle_muc_presence ctx st w
      else if st_type st = XMPP_PRESENCE then
        if \<not> cl_initial_presence_sent (client w ctx)
        then handle_initial_presence ctx st (upd_client ctx (\<lambda>c. c\<lparr>cl_initial_presence_sent := True\<rparr>) w)
        else handle_broadcast_presence ctx st w
      else handle_broadcast_presence ctx st w)"

definition route_by_type :: "nat \<Rightarrow> xmpp_stanza_t \<Rightarrow> world \<Rightarrow> world" where
  "route_by_type ctx st w =
     (if \<not> cl_state (client w ctx) < STATE_SESSION then
        if st_type st = XMPP_MESSAGE then handle_chat_message ctx st w
        else if is_presence (st_type st) then route_presence ctx st w
        else if st_type st = XMPP_IQ_GET \<or> st_type st = XMPP_IQ_SET then
          if strstr (st_payload st) ''http://jabber.org/protocol/muc#owner'' \<noteq> None then handle_muc_owner ctx st w
          else route_bad_request ctx st (route_unknown_iq ctx st w)
        else route_bad_request ctx st w
      else route_bad_request ctx st w)"

definition route_dispatch :: "nat \<Rightarrow> xmpp_stanza_t \<Rightarrow> world \<Rightarrow> world" where
  "route_dispatch ctx st w =
     (if deref (st_xmlns st) \<noteq> NUL \<and> strstr (st_xmlns st) ''stream'' \<noteq> None then handle_handshake_logic ctx w
      else (case find (\<lambda>(ns, _). strcmp (st_xmlns st) ns = 0) router of
              Some (ns, handler, min_state) \<Rightarrow>
                if cl_state (client w ctx) < min_state then route_too_early ctx st w else handler ctx st w
            | None \<Rightarrow> route_by_type ctx st w))"

text \<open>The stanza is the object \<open>i\<close> of the pool; its sender is overwritten first.\<close>

definition stamp_from :: "xmpp_client_ctx_t \<Rightarrow> xmpp_stanza_t \<Rightarrow> xmpp_stanza_t" where
  "stamp_from c s =
     (if deref (cl_full_jid c) \<noteq> NUL then s\<lparr>st_from := strncpy_term (st_from s) (cl_full_jid c) 63\<rparr> else s)"

definition xmpp_route_stanza :: "nat \<Rightarrow> nat \<Rightarrow> world \<Rightarrow> world" where
  "xmpp_route_stanza ctx i w =
     (let s = stamp_from (client w ctx) (stanza_pool w ! i)
      in route_dispatch ctx s (w\<lparr>stanza_pool := (stanza_pool w)[i := s]\<rparr>))"

subsection \<open>What routing keeps\<close>

lemma handshake_client:
  "same_conn (c\<lparr>cl_state := (if cl_authenticated c then STATE_BIND
     else if cl_tls_established c then STATE_SASL else cl_state c)\<rparr>) (fst (handshake (c, e)))"
  by (simp add: handshake_def Let_def case_prod_beta same_conn_def)

lemma handshake_ok: "client_ok c \<Longrightarrow> client_ok (fst (handshake (c, e)))"
  using send_raw_ok [of "(c\<lparr>cl_state := STATE_BIND\<rparr>, _)"] send_raw_ok [of "(c, _)"]
  by (simp add: handshake_def Let_def case_prod_beta client_ok_sel_update)

lemma stamp_from_ok: "stanza_ok s \<Longrightarrow> stanza_ok (stamp_from c s)"
  by (simp add: stamp_from_def stanza_ok_def buf_strncpy_term buf_length)

lemma route_reply_ok [handler_ok]:
  "world_ok w \<Longrightarrow> world_ok (handle_handshake_logic ctx w)"
  "world_ok w \<Longrightarrow> world_ok (route_too_early ctx st w)"
  "world_ok w \<Longrightarrow> world_ok (route_unknown_iq ctx st w)"
  "world_ok w \<Longrightarrow> world_ok (route_bad_request ctx st w)"
  by (simp_all add: handle_handshake_logic_def world_ok_on_client handshake_ok route_too_early_def route_unknown_iq_def
      route_bad_request_def Let_def world_ok_send_to)

lemma route_presence_ok [handler_ok]: "world_ok w \<Longrightarrow> world_ok (route_presence ctx st w)"
proof -
  assume w: "world_ok w"
  then have "world_ok (upd_client ctx (\<lambda>c. c\<lparr>cl_initial_presence_sent := True\<rparr>) w)"
    by (rule world_ok_upd_client) (simp add: client_ok_def)
  with w show ?thesis by (simp add: route_presence_def handler_ok)
qed

lemma route_by_type_ok [handler_ok]: "world_ok w \<Longrightarrow> world_ok (route_by_type ctx st w)"
  by (simp add: route_by_type_def handler_ok)

lemma router_find:
  "find (\<lambda>(ns, _). strcmp b ns = 0) router = Some (ns, h, m) \<Longrightarrow> (ns, h, m) \<in> set router \<and> strcmp b ns = 0"
  by (auto simp: find_Some_iff) (metis nth_mem)

lemma router_handlers_ok: "(ns, h, m) \<in> set router \<Longrightarrow> world_ok w \<Longrightarrow> world_ok (h ctx st w)"
  by (auto simp: router_def handler_ok)

lemma xmpp_route_stanza_ok: "world_ok w \<Longrightarrow> i < 16 \<Longrightarrow> world_ok (xmpp_route_stanza ctx i w)"
proof -
  assume w: "world_ok w" and i: "i < 16"
  then have "stanza_ok (stanza_pool w ! i)" by (auto simp: world_ok_def dest: array_ok_nth)
  then have "world_ok (w\<lparr>stanza_pool := (stanza_pool w)[i := stamp_from (client w ctx) (stanza_pool w ! i)]\<rparr>)"
    using w by (auto simp: world_ok_def stamp_from_ok)
  moreover have "world_ok v \<Longrightarrow> world_ok (route_dispatch ctx st v)" for st v
    unfolding route_dispatch_def
    by (auto simp: handler_ok split: option.split dest!: router_find intro: router_handlers_ok)
  ultimately show ?thesis by (simp add: xmpp_route_stanza_def Let_def)
qed

context connection_property
begin

lemma handshake_keeps: "conn_holds P w \<Longrightarrow> conn_holds P (handle_handshake_logic ctx w)"
proof -
  assume w: "conn_holds P w"
  define c s where "c = client w ctx" and "s = (if cl_authenticated c then STATE_BIND
     else if cl_tls_established c then STATE_SASL else cl_state c)"
  have "STATE_AUTHENTICATED \<le> cl_state c \<Longrightarrow> cl_authenticated c"
    using w logged_in by (simp add: conn_holds_def c_def)
  then have "cl_authenticated c \<or> s < STATE_AUTHENTICATED"
    by (cases "STATE_AUTHENTICATED \<le> cl_state c") (auto simp: s_def less_client_state_t_def less_eq_client_state_t_def)
  then have "P ((client_registry w)[ctx := c\<lparr>cl_state := s\<rparr>]) (stanza_pool w)"
    using w set_state by (simp add: conn_holds_def c_def)
  note next_state = profile [OF this, of ctx "fst (handshake (c, env w))"]
  have "P ((client_registry w)[ctx := fst (handshake (c, env w))]) (stanza_pool w)" if "ctx < length (client_registry w)"
    using next_state that handshake_client [of c "env w"] by (simp add: s_def)
  then have "P ((client_registry w)[ctx := fst (handshake (c, env w))]) (stanza_pool w)"
    using w by (cases "ctx < length (client_registry w)") (simp_all add: conn_holds_def list_update_beyond)
  then show ?thesis
    by (simp add: conn_holds_def handle_handshake_logic_def on_client_def Let_def case_prod_beta c_def)
qed

lemma route_reply_keeps:
  "conn_holds P w \<Longrightarrow> conn_holds P (route_too_early i st w)"
  "conn_holds P w \<Longrightarrow> conn_holds P (route_unknown_iq i st w)"
  "conn_holds P w \<Longrightarrow> conn_holds P (route_bad_request i st w)"
  by (simp_all add: route_too_early_def route_unknown_iq_def route_bad_request_def Let_def send_keeps)

lemma by_type_keeps: "conn_holds P w \<Longrightarrow> conn_holds P (route_by_type ctx st w)"
  by (simp add: route_by_type_def route_presence_def chat_keeps muc_presence_keeps initial_presence_keeps
      broadcast_presence_keeps muc_owner_keeps route_reply_keeps upd_keeps)

lemma table_keeps:
  assumes "(ns, h, m) \<in> set router" and "conn_holds P w" and "length (client_registry w) = 20"
    and "\<not> cl_state (client w ctx) < m"
  shows "conn_holds P (h ctx st w)"
  using assms
  by (auto simp: router_def bind_keeps roster_keeps service_keeps muc_presence_keeps muc_owner_keeps private_keeps
      muc_admin_keeps session_keeps not_less)

lemma dispatch_keeps:
  "conn_holds P w \<Longrightarrow> length (client_registry w) = 20 \<Longrightarrow> conn_holds P (route_dispatch ctx st w)"
  unfolding route_dispatch_def
  by (auto simp: handshake_keeps by_type_keeps route_reply_keeps split: option.split dest!: router_find intro: table_keeps)

end


subsection \<open>Before the session\<close>

text \<open>The stored data, and the stanzas handed to \<open>send_raw\<close> for connections other than \<open>p\<close>.\<close>

definition confined :: "nat option \<Rightarrow> world \<Rightarrow> world \<Rightarrow> bool" where
  "confined p w w' \<longleftrightarrow> rooms w' = rooms w \<and> roster_store w' = roster_store w \<and> private_store w' = private_store w \<and>
     offline_store w' = offline_store w \<and> pending_subs w' = pending_subs w \<and> disk_dev w' = disk_dev w \<and>
     (\<exists>m. outbox (env w') = outbox (env w) @ m \<and> list_all (\<lambda>x. fst x = p) m)"

lemma confined_refl: "confined p w w"
  by (auto simp: confined_def)

lemma confined_send: "confined p w w' \<Longrightarrow> cl_pcb (client w' i) = p \<Longrightarrow> confined p w (send_to i d w')"
  unfolding confined_def by (elim conjE exE) simp

lemma confined_upd: "confined p w w' \<Longrightarrow> confined p w (upd_client i f w')"
  by (simp add: confined_def)

lemma evict_outbox: "outbox (snd (evict (c, e))) = outbox e"
proof -
  have "quiet e (snd (snd (ssl_write d (c, e))))" for d
    using ssl_write_effect(2) [of d c e] by (metis prod.collapse)
  then have "outbox (snd (snd (ssl_write d (c, e)))) = outbox e" for d by (simp add: quiet_def)
  then show ?thesis
    by (auto simp: evict_def Let_def case_prod_beta xmpp_tls_client_free_def tcp_close_def tcp_output_def tcp_write_def outbox_emit
        split: if_splits)
qed

lemma confined_evict: "confined p w w' \<Longrightarrow> confined p w (on_client i evict w')"
  by (simp add: confined_def on_client_def Let_def case_prod_beta evict_outbox)

lemma confined_conflicts:
  "confined p w w' \<Longrightarrow> cl_pcb (client w' ctx) = p \<Longrightarrow>
   confined p w (for_range n (bind_conflict ctx) w') \<and> cl_pcb (client (for_range n (bind_conflict ctx) w') ctx) = p"
  by (rule for_range_invariant [where P = "\<lambda>v. confined p w v \<and> cl_pcb (client v ctx) = p"])
    (auto simp: bind_conflict_def intro: confined_evict)

lemma confined_bind: "confined (cl_pcb (client w ctx)) w (handle_core_bind ctx st w)"
proof -
  let ?p = "cl_pcb (client w ctx)"
  let ?w2 = "\<lambda>j g. upd_client ctx (\<lambda>c. c\<lparr>cl_full_jid := j c\<rparr>) (w\<lparr>env := (env w)\<lparr>env_rng := g\<rparr>\<rparr>)"
  have "confined ?p w (?w2 j g)" for j g by (simp add: confined_def outbox_def)
  moreover have "cl_pcb (client (?w2 j g) ctx) = ?p" for j g
    by (cases "ctx < length (client_registry w)") (simp_all add: upd_client_def list_update_beyond)
  ultimately have "confined ?p w (for_range 20 (bind_conflict ctx) (?w2 j g)) \<and>
      cl_pcb (client (for_range 20 (bind_conflict ctx) (?w2 j g)) ctx) = ?p" for j g
    by (rule confined_conflicts)
  then have "confined ?p w (upd_client ctx f (send_to ctx d (for_range 20 (bind_conflict ctx) (?w2 j g))))" for f d j g
    by (intro confined_upd confined_send) simp_all
  moreover have "confined ?p w (send_to ctx d w)" for d by (rule confined_send [OF confined_refl refl])
  ultimately show ?thesis
    unfolding handle_core_bind_def bind_error_def Let_def case_prod_beta by simp
qed

lemma confined_handshake: "confined (cl_pcb (client w ctx)) w (handle_handshake_logic ctx w)"
  by (auto simp: confined_def handle_handshake_logic_def on_client_def Let_def case_prod_beta handshake_def outbox_def
      simp flip: outbox_def)

lemma confined_dispatch:
  assumes "cl_state (client w ctx) < STATE_SESSION"
  shows "confined (cl_pcb (client w ctx)) w (route_dispatch ctx st w)"
proof -
  let ?p = "cl_pcb (client w ctx)"
  have send: "confined ?p w (send_to ctx d w)" for d by (rule confined_send [OF confined_refl refl])
  have reply: "confined ?p w (route_too_early ctx st w)" "confined ?p w (route_bad_request ctx st w)"
    by (simp_all add: route_too_early_def route_bad_request_def Let_def send confined_refl)
  have "confined ?p w (handle_core_session ctx st w)"
    by (simp add: handle_core_session_def confined_upd send)
  then have table: "confined ?p w (h ctx st w)" if "(ns, h, m) \<in> set router" "\<not> cl_state (client w ctx) < m" for ns h m
    using that assms confined_bind by (auto simp: router_def)
  show ?thesis using assms reply confined_handshake table
    by (auto simp: route_dispatch_def route_by_type_def split: option.split dest!: router_find)
qed

subsection \<open>Properties\<close>


definition early_world :: world where
  "early_world = (upd_client 0 (\<lambda>c. c\<lparr>cl_state := STATE_BIND\<rparr>) (users_world [(''al'', 7), (''bob'', 8)]))
     \<lparr>stanza_pool := [zero_stanza\<lparr>st_type := XMPP_MESSAGE, st_to := strncpy (zbuf 64) ''bob@angelic.local'' 63\<rparr>]\<rparr>"


end
