(* ===== verification/Yxml.thy ===== *)
theory Yxml
  imports Libc "HOL-Library.Monad_Syntax"
begin

unbundle bit_operations_syntax

text \<open>
  The XML tokenizer \<^verbatim>\<open>src/src/xmpp/yxml.c\<close>.  The stack of names is the array given to
  \<open>yxml_init\<close>; the pointers \<open>elem\<close>, \<open>attr\<close> and \<open>pi\<close> are offsets into it.  A result \<open>None\<close> is an
  access outside that array, for which C gives no meaning; every other result is the token and the
  new parser.
\<close>

subsection \<open>Types\<close>

datatype yxml_ret_t =
    YXML_EEOF | YXML_EREF | YXML_ECLOSE | YXML_ESTACK | YXML_ESYN | YXML_OK | YXML_ELEMSTART
  | YXML_CONTENT | YXML_ELEMEND | YXML_ATTRSTART | YXML_ATTRVAL | YXML_ATTREND | YXML_PISTART
  | YXML_PICONTENT | YXML_PIEND

datatype (plugins only: size code) yxml_state_t =
  YXMLS_string | YXMLS_attr0 | YXMLS_attr1 | YXMLS_attr2 | YXMLS_attr3 | YXMLS_attr4 | YXMLS_cd0 |
  YXMLS_cd1 | YXMLS_cd2 | YXMLS_comment0 | YXMLS_comment1 | YXMLS_comment2 | YXMLS_comment3 |
  YXMLS_comment4 | YXMLS_dt0 | YXMLS_dt1 | YXMLS_dt2 | YXMLS_dt3 | YXMLS_dt4 | YXMLS_elem0 |
  YXMLS_elem1 | YXMLS_elem2 | YXMLS_elem3 | YXMLS_enc0 | YXMLS_enc1 | YXMLS_enc2 | YXMLS_enc3 |
  YXMLS_etag0 | YXMLS_etag1 | YXMLS_etag2 | YXMLS_init | YXMLS_le0 | YXMLS_le1 | YXMLS_le2 | YXMLS_le3
  | YXMLS_lee1 | YXMLS_lee2 | YXMLS_leq0 | YXMLS_misc0 | YXMLS_misc1 | YXMLS_misc2 | YXMLS_misc2a |
  YXMLS_misc3 | YXMLS_pi0 | YXMLS_pi1 | YXMLS_pi2 | YXMLS_pi3 | YXMLS_pi4 | YXMLS_std0 | YXMLS_std1 |
  YXMLS_std2 | YXMLS_std3 | YXMLS_ver0 | YXMLS_ver1 | YXMLS_ver2 | YXMLS_ver3 | YXMLS_xmldecl0 |
  YXMLS_xmldecl1 | YXMLS_xmldecl2 | YXMLS_xmldecl3 | YXMLS_xmldecl4 | YXMLS_xmldecl5 | YXMLS_xmldecl6
  | YXMLS_xmldecl7 | YXMLS_xmldecl8 | YXMLS_xmldecl9

record yxml_t =
  y_elem :: nat
  y_data :: cbuf
  y_attr :: nat
  y_pi :: nat
  y_byte :: u64
  y_total :: u64
  y_line :: u32
  y_state :: yxml_state_t
  y_stack :: cbuf
  y_stacksize :: nat
  y_stacklen :: nat
  y_reflen :: nat
  y_quote :: u32
  y_nextstate :: yxml_state_t
  y_ignore :: u32
  y_string :: string

type_synonym yxml_result = "(yxml_ret_t \<times> yxml_t) option"

abbreviation u32c :: "char \<Rightarrow> u32" where
  "u32c c \<equiv> of_char c"

abbreviation ok :: "yxml_t \<Rightarrow> yxml_result" where
  "ok x \<equiv> Some (YXML_OK, x)"

abbreviation esyn :: "yxml_t \<Rightarrow> yxml_result" where
  "esyn x \<equiv> Some (YXML_ESYN, x)"

subsection \<open>Character classes\<close>

text \<open>Unsigned arithmetic: a character below the range wraps to a large number.\<close>

definition yxml_isChar :: "u32 \<Rightarrow> bool" where
  "yxml_isChar c \<longleftrightarrow> True"

definition yxml_isSP :: "u32 \<Rightarrow> bool" where
  "yxml_isSP c \<longleftrightarrow> c = 0x20 \<or> c = 0x09 \<or> c = 0x0a"

definition yxml_isAlpha :: "u32 \<Rightarrow> bool" where
  "yxml_isAlpha c \<longleftrightarrow> (c OR 32) - u32c CHR ''a'' < 26"

definition yxml_isNum :: "u32 \<Rightarrow> bool" where
  "yxml_isNum c \<longleftrightarrow> c - u32c CHR ''0'' < 10"

definition yxml_isHex :: "u32 \<Rightarrow> bool" where
  "yxml_isHex c \<longleftrightarrow> yxml_isNum c \<or> (c OR 32) - u32c CHR ''a'' < 6"

definition yxml_isEncName :: "u32 \<Rightarrow> bool" where
  "yxml_isEncName c \<longleftrightarrow> yxml_isAlpha c \<or> yxml_isNum c \<or> c = u32c CHR ''.'' \<or> c = u32c CHR ''_'' \<or> c = u32c CHR ''-''"

definition yxml_isNameStart :: "u32 \<Rightarrow> bool" where
  "yxml_isNameStart c \<longleftrightarrow> yxml_isAlpha c \<or> c = u32c CHR '':'' \<or> c = u32c CHR ''_'' \<or> c \<ge> 128"

definition yxml_isName :: "u32 \<Rightarrow> bool" where
  "yxml_isName c \<longleftrightarrow> yxml_isNameStart c \<or> yxml_isNum c \<or> c = u32c CHR ''-'' \<or> c = u32c CHR ''.''"

definition yxml_isAttValue :: "yxml_t \<Rightarrow> u32 \<Rightarrow> bool" where
  "yxml_isAttValue x c \<longleftrightarrow> yxml_isChar c \<and> c \<noteq> y_quote x \<and> c \<noteq> u32c CHR ''<'' \<and> c \<noteq> u32c CHR ''&''"

definition yxml_isRef :: "u32 \<Rightarrow> bool" where
  "yxml_isRef c \<longleftrightarrow> yxml_isNum c \<or> yxml_isAlpha c \<or> c = u32c CHR ''#''"

subsection \<open>Data of a token\<close>

definition uchar :: "u32 \<Rightarrow> char" where
  "uchar ch = char_of (unat ch)"

definition yxml_setutf8 :: "cbuf \<Rightarrow> u32 \<Rightarrow> cbuf" where
  "yxml_setutf8 dest ch =
     (let bytes =
        (if ch \<le> 0x007F then [ch]
         else if ch \<le> 0x07FF then [0xC0 OR drop_bit 6 ch, 0x80 OR (ch AND 0x3F)]
         else if ch \<le> 0xFFFF then [0xE0 OR drop_bit 12 ch, 0x80 OR (drop_bit 6 ch AND 0x3F), 0x80 OR (ch AND 0x3F)]
         else [0xF0 OR drop_bit 18 ch, 0x80 OR (drop_bit 12 ch AND 0x3F), 0x80 OR (drop_bit 6 ch AND 0x3F),
               0x80 OR (ch AND 0x3F)])
      in memcpy dest (map uchar bytes @ [NUL]) (length bytes + 1))"

definition yxml_datacontent :: "yxml_t \<Rightarrow> u32 \<Rightarrow> yxml_result" where
  "yxml_datacontent x ch = Some (YXML_CONTENT, x\<lparr>y_data := poke (poke (y_data x) 0 (uchar ch)) 1 NUL\<rparr>)"

definition yxml_datapi1 :: "yxml_t \<Rightarrow> u32 \<Rightarrow> yxml_result" where
  "yxml_datapi1 x ch = Some (YXML_PICONTENT, x\<lparr>y_data := poke (poke (y_data x) 0 (uchar ch)) 1 NUL\<rparr>)"

definition yxml_datapi2 :: "yxml_t \<Rightarrow> u32 \<Rightarrow> yxml_result" where
  "yxml_datapi2 x ch = Some (YXML_PICONTENT, x\<lparr>y_data := poke (poke (poke (y_data x) 0 CHR ''?'') 1 (uchar ch)) 2 NUL\<rparr>)"

definition yxml_datacd1 :: "yxml_t \<Rightarrow> u32 \<Rightarrow> yxml_result" where
  "yxml_datacd1 x ch = Some (YXML_CONTENT, x\<lparr>y_data := poke (poke (poke (y_data x) 0 CHR '']'') 1 (uchar ch)) 2 NUL\<rparr>)"

definition yxml_datacd2 :: "yxml_t \<Rightarrow> u32 \<Rightarrow> yxml_result" where
  "yxml_datacd2 x ch =
     Some (YXML_CONTENT, x\<lparr>y_data := poke (poke (poke (poke (y_data x) 0 CHR '']'') 1 CHR '']'') 2 (uchar ch)) 3 NUL\<rparr>)"

definition yxml_dataattr :: "yxml_t \<Rightarrow> u32 \<Rightarrow> yxml_result" where
  "yxml_dataattr x ch =
     Some (YXML_ATTRVAL, x\<lparr>y_data := poke (poke (y_data x) 0 (uchar (if ch = 0x9 \<or> ch = 0xa then 0x20 else ch))) 1 NUL\<rparr>)"

subsection \<open>The stack of names\<close>

text \<open>Pushing the first character of a name; the second component of the result is the new name.\<close>

definition yxml_pushstack :: "yxml_t \<Rightarrow> u32 \<Rightarrow> yxml_ret_t \<times> nat option \<times> yxml_t" where
  "yxml_pushstack x ch =
     (if y_stacklen x + 2 \<ge> y_stacksize x then (YXML_ESTACK, None, x)
      else
        let n = y_stacklen x + 1 in
        (YXML_OK, Some n, x\<lparr>y_stack := poke (poke (y_stack x) n (uchar ch)) (n + 1) NUL, y_stacklen := n + 1\<rparr>))"

definition yxml_pushstackc :: "yxml_t \<Rightarrow> u32 \<Rightarrow> yxml_result" where
  "yxml_pushstackc x ch =
     (if y_stacklen x + 1 \<ge> y_stacksize x then Some (YXML_ESTACK, x)
      else
        let n = y_stacklen x in
        Some (YXML_OK, x\<lparr>y_stack := poke (poke (y_stack x) n (uchar ch)) (n + 1) NUL, y_stacklen := n + 1\<rparr>))"

text \<open>The length after removing the last name.  With length 0 the decrement wraps and the array is
  read below its start.\<close>

fun pop_len :: "cbuf \<Rightarrow> nat \<Rightarrow> nat option" where
  "pop_len s 0 = None"
| "pop_len s (Suc n) = (if s ! n = NUL then Some n else pop_len s n)"

definition yxml_popstack :: "yxml_t \<Rightarrow> yxml_t option" where
  "yxml_popstack x = do { n \<leftarrow> pop_len (y_stack x) (y_stacklen x); Some (x\<lparr>y_stacklen := n\<rparr>) }"

text \<open>A read of the stack at an offset.\<close>

definition stack_at :: "yxml_t \<Rightarrow> nat \<Rightarrow> char option" where
  "stack_at x i = (if i < length (y_stack x) then Some (y_stack x ! i) else None)"

subsection \<open>Elements\<close>

definition yxml_elemstart :: "yxml_t \<Rightarrow> u32 \<Rightarrow> yxml_result" where
  "yxml_elemstart x ch =
     (case yxml_pushstack x ch of
        (r, Some e, x') \<Rightarrow> Some (r, x'\<lparr>y_elem := e\<rparr>)
      | (r, None, x') \<Rightarrow> Some (r, x'))"

definition yxml_elemname :: "yxml_t \<Rightarrow> u32 \<Rightarrow> yxml_result" where
  "yxml_elemname x ch = yxml_pushstackc x ch"

definition yxml_elemnameend :: "yxml_t \<Rightarrow> u32 \<Rightarrow> yxml_result" where
  "yxml_elemnameend x ch = Some (YXML_ELEMSTART, x)"

text \<open>The start of the name that contains an offset.\<close>

fun name_start :: "cbuf \<Rightarrow> nat \<Rightarrow> nat option" where
  "name_start s 0 = None"
| "name_start s (Suc e) = (if s ! e = NUL then Some (Suc e) else name_start s e)"

definition yxml_selfclose :: "yxml_t \<Rightarrow> u32 \<Rightarrow> yxml_result" where
  "yxml_selfclose x ch =
     do { x1 \<leftarrow> yxml_popstack x;
          if y_stacklen x1 \<noteq> 0 then
            do { e \<leftarrow> name_start (y_stack x1) (y_stacklen x1 - 1);
                 Some (YXML_ELEMEND, x1\<lparr>y_elem := e\<rparr>) }
          else Some (YXML_ELEMEND, x1\<lparr>y_elem := 0, y_state := YXMLS_misc3\<rparr>) }"

definition yxml_elemclose :: "yxml_t \<Rightarrow> u32 \<Rightarrow> yxml_result" where
  "yxml_elemclose x ch =
     do { c \<leftarrow> stack_at x (y_elem x);
          if u32c c \<noteq> ch then Some (YXML_ECLOSE, x)
          else Some (YXML_OK, x\<lparr>y_elem := y_elem x + 1\<rparr>) }"

definition yxml_elemcloseend :: "yxml_t \<Rightarrow> u32 \<Rightarrow> yxml_result" where
  "yxml_elemcloseend x ch =
     do { c \<leftarrow> stack_at x (y_elem x);
          if c \<noteq> NUL then Some (YXML_ECLOSE, x) else yxml_selfclose x ch }"

subsection \<open>Attributes and processing instructions\<close>

definition yxml_attrstart :: "yxml_t \<Rightarrow> u32 \<Rightarrow> yxml_result" where
  "yxml_attrstart x ch =
     (case yxml_pushstack x ch of
        (r, Some a, x') \<Rightarrow> Some (r, x'\<lparr>y_attr := a\<rparr>)
      | (r, None, x') \<Rightarrow> Some (r, x'))"

definition yxml_attrname :: "yxml_t \<Rightarrow> u32 \<Rightarrow> yxml_result" where
  "yxml_attrname x ch = yxml_pushstackc x ch"

definition yxml_attrnameend :: "yxml_t \<Rightarrow> u32 \<Rightarrow> yxml_result" where
  "yxml_attrnameend x ch = Some (YXML_ATTRSTART, x)"

definition yxml_attrvalend :: "yxml_t \<Rightarrow> u32 \<Rightarrow> yxml_result" where
  "yxml_attrvalend x ch = do { x1 \<leftarrow> yxml_popstack x; Some (YXML_ATTREND, x1) }"

definition yxml_pistart :: "yxml_t \<Rightarrow> u32 \<Rightarrow> yxml_result" where
  "yxml_pistart x ch =
     (case yxml_pushstack x ch of
        (r, Some p, x') \<Rightarrow> Some (r, x'\<lparr>y_pi := p\<rparr>)
      | (r, None, x') \<Rightarrow> Some (r, x'))"

definition yxml_piname :: "yxml_t \<Rightarrow> u32 \<Rightarrow> yxml_result" where
  "yxml_piname x ch = yxml_pushstackc x ch"

definition yxml_piabort :: "yxml_t \<Rightarrow> u32 \<Rightarrow> yxml_result" where
  "yxml_piabort x ch = do { x1 \<leftarrow> yxml_popstack x; Some (YXML_OK, x1) }"

text \<open>The conjunction is evaluated from the left and stops at the first character that differs.\<close>

definition yxml_pinameend :: "yxml_t \<Rightarrow> u32 \<Rightarrow> yxml_result" where
  "yxml_pinameend x ch =
     do { a \<leftarrow> stack_at x (y_pi x);
          if u32c a OR 32 \<noteq> u32c CHR ''x'' then Some (YXML_PISTART, x)
          else do { b \<leftarrow> stack_at x (y_pi x + 1);
            if u32c b OR 32 \<noteq> u32c CHR ''m'' then Some (YXML_PISTART, x)
            else do { c \<leftarrow> stack_at x (y_pi x + 2);
              if u32c c OR 32 \<noteq> u32c CHR ''l'' then Some (YXML_PISTART, x)
              else do { d \<leftarrow> stack_at x (y_pi x + 3);
                Some (if d = NUL then YXML_ESYN else YXML_PISTART, x) } } } }"

definition yxml_pivalend :: "yxml_t \<Rightarrow> u32 \<Rightarrow> yxml_result" where
  "yxml_pivalend x ch = do { x1 \<leftarrow> yxml_popstack x; Some (YXML_PIEND, x1\<lparr>y_pi := 0\<rparr>) }"

subsection \<open>References\<close>

definition yxml_refstart :: "yxml_t \<Rightarrow> u32 \<Rightarrow> yxml_result" where
  "yxml_refstart x ch = Some (YXML_OK, x\<lparr>y_data := memset (y_data x) NUL 8, y_reflen := 0\<rparr>)"

definition yxml_ref :: "yxml_t \<Rightarrow> u32 \<Rightarrow> yxml_result" where
  "yxml_ref x ch =
     (if y_reflen x \<ge> 8 - 1 then Some (YXML_EREF, x)
      else Some (YXML_OK, x\<lparr>y_data := poke (y_data x) (y_reflen x) (uchar ch), y_reflen := y_reflen x + 1\<rparr>))"

text \<open>The digits from a position on; a run over the end of the data is an access outside it.\<close>

fun hex_digits :: "cbuf \<Rightarrow> u32 \<Rightarrow> (char \<times> u32) option" where
  "hex_digits [] ch = None"
| "hex_digits (c # r) ch =
     (if yxml_isHex (u32c c)
      then hex_digits r (push_bit 4 ch + (if u32c c \<le> u32c CHR ''9'' then u32c c - u32c CHR ''0''
                                          else (u32c c OR 32) - u32c CHR ''a'' + 10))
      else Some (c, ch))"

fun dec_digits_of :: "cbuf \<Rightarrow> u32 \<Rightarrow> (char \<times> u32) option" where
  "dec_digits_of [] ch = None"
| "dec_digits_of (c # r) ch =
     (if yxml_isNum (u32c c) then dec_digits_of r (ch * 10 + (u32c c - u32c CHR ''0'')) else Some (c, ch))"

definition named_ref :: "cbuf \<Rightarrow> u32" where
  "named_ref r =
     (let i = take 5 r in
      if i = ''lt'' @ zbuf 3 then u32c CHR ''<''
      else if i = ''gt'' @ zbuf 3 then u32c CHR ''>''
      else if i = ''amp'' @ zbuf 2 then u32c CHR ''&''
      else if i = ''apos'' @ zbuf 1 then u32c APOS
      else if i = ''quot'' @ zbuf 1 then u32c DQUOTE
      else 0)"

definition ref_char :: "cbuf \<Rightarrow> u32 option" where
  "ref_char r =
     (if deref r = CHR ''#'' then
        do { (c, ch) \<leftarrow> (if r ! 1 = CHR ''x'' then hex_digits (drop 2 r) 0 else dec_digits_of (drop 1 r) 0);
             Some (if c \<noteq> NUL then 0 else ch) }
      else Some (named_ref r))"

definition yxml_refend :: "yxml_t \<Rightarrow> yxml_ret_t \<Rightarrow> yxml_result" where
  "yxml_refend x ret =
     do { ch \<leftarrow> ref_char (y_data x);
          if ch = 0 \<or> ch > 0x10FFFF \<or> ch = 0xFFFE \<or> ch = 0xFFFF \<or> ch - 0xDFFF < 0x7FF then Some (YXML_EREF, x)
          else Some (ret, x\<lparr>y_data := yxml_setutf8 (y_data x) ch\<rparr>) }"

definition yxml_refcontent :: "yxml_t \<Rightarrow> u32 \<Rightarrow> yxml_result" where
  "yxml_refcontent x ch = yxml_refend x YXML_CONTENT"

definition yxml_refattrval :: "yxml_t \<Rightarrow> u32 \<Rightarrow> yxml_result" where
  "yxml_refattrval x ch = yxml_refend x YXML_ATTRVAL"

subsection \<open>The states\<close>

definition y_string_step :: "yxml_t \<Rightarrow> u32 \<Rightarrow> yxml_result" where
  "y_string_step x ch =
     (case y_string x of
       [] \<Rightarrow> esyn x
     | c # cs \<Rightarrow>
         if ch = u32c c then ok (x\<lparr>y_string := cs, y_state := (if cs = [] then y_nextstate x else y_state x)\<rparr>)
         else esyn x)"

definition y_attr0_step :: "yxml_t \<Rightarrow> u32 \<Rightarrow> yxml_result" where
  "y_attr0_step x ch =
     (if yxml_isName ch then yxml_attrname x ch
      else if yxml_isSP ch then yxml_attrnameend (x\<lparr>y_state := YXMLS_attr1\<rparr>) ch
      else if ch = u32c CHR ''='' then yxml_attrnameend (x\<lparr>y_state := YXMLS_attr2\<rparr>) ch
      else esyn x)"

definition y_attr1_step :: "yxml_t \<Rightarrow> u32 \<Rightarrow> yxml_result" where
  "y_attr1_step x ch =
     (if yxml_isSP ch then ok x
      else if ch = u32c CHR ''='' then ok (x\<lparr>y_state := YXMLS_attr2\<rparr>)
      else esyn x)"

definition y_attr2_step :: "yxml_t \<Rightarrow> u32 \<Rightarrow> yxml_result" where
  "y_attr2_step x ch =
     (if yxml_isSP ch then ok x
      else if ch = u32c APOS \<or> ch = u32c DQUOTE then ok (x\<lparr>y_state := YXMLS_attr3, y_quote := ch\<rparr>)
      else esyn x)"

definition y_attr3_step :: "yxml_t \<Rightarrow> u32 \<Rightarrow> yxml_result" where
  "y_attr3_step x ch =
     (if yxml_isAttValue x ch then yxml_dataattr x ch
      else if ch = u32c CHR ''&'' then yxml_refstart (x\<lparr>y_state := YXMLS_attr4\<rparr>) ch
      else if y_quote x = ch then yxml_attrvalend (x\<lparr>y_state := YXMLS_elem2\<rparr>) ch
      else esyn x)"

definition y_attr4_step :: "yxml_t \<Rightarrow> u32 \<Rightarrow> yxml_result" where
  "y_attr4_step x ch =
     (if yxml_isRef ch then yxml_ref x ch
      else if ch = u32c (CHR 0x3B) then yxml_refattrval (x\<lparr>y_state := YXMLS_attr3\<rparr>) ch
      else esyn x)"

definition y_cd0_step :: "yxml_t \<Rightarrow> u32 \<Rightarrow> yxml_result" where
  "y_cd0_step x ch =
     (if ch = u32c CHR '']'' then ok (x\<lparr>y_state := YXMLS_cd1\<rparr>)
      else if yxml_isChar ch then yxml_datacontent x ch
      else esyn x)"

definition y_cd1_step :: "yxml_t \<Rightarrow> u32 \<Rightarrow> yxml_result" where
  "y_cd1_step x ch =
     (if ch = u32c CHR '']'' then ok (x\<lparr>y_state := YXMLS_cd2\<rparr>)
      else if yxml_isChar ch then yxml_datacd1 (x\<lparr>y_state := YXMLS_cd0\<rparr>) ch
      else esyn x)"

definition y_cd2_step :: "yxml_t \<Rightarrow> u32 \<Rightarrow> yxml_result" where
  "y_cd2_step x ch =
     (if ch = u32c CHR '']'' then yxml_datacontent x ch
      else if ch = u32c CHR ''>'' then ok (x\<lparr>y_state := YXMLS_misc2\<rparr>)
      else if yxml_isChar ch then yxml_datacd2 (x\<lparr>y_state := YXMLS_cd0\<rparr>) ch
      else esyn x)"

definition y_comment0_step :: "yxml_t \<Rightarrow> u32 \<Rightarrow> yxml_result" where
  "y_comment0_step x ch =
     (if ch = u32c CHR ''-'' then ok (x\<lparr>y_state := YXMLS_comment1\<rparr>)
      else esyn x)"

definition y_comment1_step :: "yxml_t \<Rightarrow> u32 \<Rightarrow> yxml_result" where
  "y_comment1_step x ch =
     (if ch = u32c CHR ''-'' then ok (x\<lparr>y_state := YXMLS_comment2\<rparr>)
      else esyn x)"

definition y_comment2_step :: "yxml_t \<Rightarrow> u32 \<Rightarrow> yxml_result" where
  "y_comment2_step x ch =
     (if ch = u32c CHR ''-'' then ok (x\<lparr>y_state := YXMLS_comment3\<rparr>)
      else if yxml_isChar ch then ok x
      else esyn x)"

definition y_comment3_step :: "yxml_t \<Rightarrow> u32 \<Rightarrow> yxml_result" where
  "y_comment3_step x ch =
     (if ch = u32c CHR ''-'' then ok (x\<lparr>y_state := YXMLS_comment4\<rparr>)
      else if yxml_isChar ch then ok (x\<lparr>y_state := YXMLS_comment2\<rparr>)
      else esyn x)"

definition y_comment4_step :: "yxml_t \<Rightarrow> u32 \<Rightarrow> yxml_result" where
  "y_comment4_step x ch =
     (if ch = u32c CHR ''>'' then ok (x\<lparr>y_state := y_nextstate x\<rparr>)
      else esyn x)"

definition y_dt0_step :: "yxml_t \<Rightarrow> u32 \<Rightarrow> yxml_result" where
  "y_dt0_step x ch =
     (if ch = u32c CHR ''>'' then ok (x\<lparr>y_state := YXMLS_misc1\<rparr>)
      else if ch = u32c APOS \<or> ch = u32c DQUOTE then ok (x\<lparr>y_state := YXMLS_dt1, y_quote := ch, y_nextstate := YXMLS_dt0\<rparr>)
      else if ch = u32c CHR ''<'' then ok (x\<lparr>y_state := YXMLS_dt2\<rparr>)
      else if yxml_isChar ch then ok x
      else esyn x)"

definition y_dt1_step :: "yxml_t \<Rightarrow> u32 \<Rightarrow> yxml_result" where
  "y_dt1_step x ch =
     (if y_quote x = ch then ok (x\<lparr>y_state := y_nextstate x\<rparr>)
      else if yxml_isChar ch then ok x
      else esyn x)"

definition y_dt2_step :: "yxml_t \<Rightarrow> u32 \<Rightarrow> yxml_result" where
  "y_dt2_step x ch =
     (if ch = u32c CHR ''?'' then ok (x\<lparr>y_state := YXMLS_pi0, y_nextstate := YXMLS_dt0\<rparr>)
      else if ch = u32c CHR ''!'' then ok (x\<lparr>y_state := YXMLS_dt3\<rparr>)
      else esyn x)"

definition y_dt3_step :: "yxml_t \<Rightarrow> u32 \<Rightarrow> yxml_result" where
  "y_dt3_step x ch =
     (if ch = u32c CHR ''-'' then ok (x\<lparr>y_state := YXMLS_comment1, y_nextstate := YXMLS_dt0\<rparr>)
      else if yxml_isChar ch then ok (x\<lparr>y_state := YXMLS_dt4\<rparr>)
      else esyn x)"

definition y_dt4_step :: "yxml_t \<Rightarrow> u32 \<Rightarrow> yxml_result" where
  "y_dt4_step x ch =
     (if ch = u32c APOS \<or> ch = u32c DQUOTE then ok (x\<lparr>y_state := YXMLS_dt1, y_quote := ch, y_nextstate := YXMLS_dt4\<rparr>)
      else if ch = u32c CHR ''>'' then ok (x\<lparr>y_state := YXMLS_dt0\<rparr>)
      else if yxml_isChar ch then ok x
      else esyn x)"

definition y_elem0_step :: "yxml_t \<Rightarrow> u32 \<Rightarrow> yxml_result" where
  "y_elem0_step x ch =
     (if yxml_isName ch then yxml_elemname x ch
      else if yxml_isSP ch then yxml_elemnameend (x\<lparr>y_state := YXMLS_elem1\<rparr>) ch
      else if ch = u32c CHR ''/'' then yxml_elemnameend (x\<lparr>y_state := YXMLS_elem3\<rparr>) ch
      else if ch = u32c CHR ''>'' then yxml_elemnameend (x\<lparr>y_state := YXMLS_misc2\<rparr>) ch
      else esyn x)"

definition y_elem1_step :: "yxml_t \<Rightarrow> u32 \<Rightarrow> yxml_result" where
  "y_elem1_step x ch =
     (if yxml_isSP ch then ok x
      else if ch = u32c CHR ''/'' then ok (x\<lparr>y_state := YXMLS_elem3\<rparr>)
      else if ch = u32c CHR ''>'' then ok (x\<lparr>y_state := YXMLS_misc2\<rparr>)
      else if yxml_isNameStart ch then yxml_attrstart (x\<lparr>y_state := YXMLS_attr0\<rparr>) ch
      else esyn x)"

definition y_elem2_step :: "yxml_t \<Rightarrow> u32 \<Rightarrow> yxml_result" where
  "y_elem2_step x ch =
     (if yxml_isSP ch then ok (x\<lparr>y_state := YXMLS_elem1\<rparr>)
      else if ch = u32c CHR ''/'' then ok (x\<lparr>y_state := YXMLS_elem3\<rparr>)
      else if ch = u32c CHR ''>'' then ok (x\<lparr>y_state := YXMLS_misc2\<rparr>)
      else esyn x)"

definition y_elem3_step :: "yxml_t \<Rightarrow> u32 \<Rightarrow> yxml_result" where
  "y_elem3_step x ch =
     (if ch = u32c CHR ''>'' then yxml_selfclose (x\<lparr>y_state := YXMLS_misc2\<rparr>) ch
      else esyn x)"

definition y_enc0_step :: "yxml_t \<Rightarrow> u32 \<Rightarrow> yxml_result" where
  "y_enc0_step x ch =
     (if yxml_isSP ch then ok x
      else if ch = u32c CHR ''='' then ok (x\<lparr>y_state := YXMLS_enc1\<rparr>)
      else esyn x)"

definition y_enc1_step :: "yxml_t \<Rightarrow> u32 \<Rightarrow> yxml_result" where
  "y_enc1_step x ch =
     (if yxml_isSP ch then ok x
      else if ch = u32c APOS \<or> ch = u32c DQUOTE then ok (x\<lparr>y_state := YXMLS_enc2, y_quote := ch\<rparr>)
      else esyn x)"

definition y_enc2_step :: "yxml_t \<Rightarrow> u32 \<Rightarrow> yxml_result" where
  "y_enc2_step x ch =
     (if yxml_isAlpha ch then ok (x\<lparr>y_state := YXMLS_enc3\<rparr>)
      else esyn x)"

definition y_enc3_step :: "yxml_t \<Rightarrow> u32 \<Rightarrow> yxml_result" where
  "y_enc3_step x ch =
     (if yxml_isEncName ch then ok x
      else if y_quote x = ch then ok (x\<lparr>y_state := YXMLS_xmldecl6\<rparr>)
      else esyn x)"

definition y_etag0_step :: "yxml_t \<Rightarrow> u32 \<Rightarrow> yxml_result" where
  "y_etag0_step x ch =
     (if yxml_isNameStart ch then yxml_elemclose (x\<lparr>y_state := YXMLS_etag1\<rparr>) ch
      else esyn x)"

definition y_etag1_step :: "yxml_t \<Rightarrow> u32 \<Rightarrow> yxml_result" where
  "y_etag1_step x ch =
     (if yxml_isName ch then yxml_elemclose x ch
      else if yxml_isSP ch then yxml_elemcloseend (x\<lparr>y_state := YXMLS_etag2\<rparr>) ch
      else if ch = u32c CHR ''>'' then yxml_elemcloseend (x\<lparr>y_state := YXMLS_misc2\<rparr>) ch
      else esyn x)"

definition y_etag2_step :: "yxml_t \<Rightarrow> u32 \<Rightarrow> yxml_result" where
  "y_etag2_step x ch =
     (if yxml_isSP ch then ok x
      else if ch = u32c CHR ''>'' then ok (x\<lparr>y_state := YXMLS_misc2\<rparr>)
      else esyn x)"

definition y_init_step :: "yxml_t \<Rightarrow> u32 \<Rightarrow> yxml_result" where
  "y_init_step x ch =
     (if ch = u32c (CHR 0xEF) then ok (x\<lparr>y_state := YXMLS_string, y_nextstate := YXMLS_misc0, y_string := [CHR 0xBB, CHR 0xBF]\<rparr>)
      else if yxml_isSP ch then ok (x\<lparr>y_state := YXMLS_misc0\<rparr>)
      else if ch = u32c CHR ''<'' then ok (x\<lparr>y_state := YXMLS_le0\<rparr>)
      else esyn x)"

definition y_le0_step :: "yxml_t \<Rightarrow> u32 \<Rightarrow> yxml_result" where
  "y_le0_step x ch =
     (if ch = u32c CHR ''!'' then ok (x\<lparr>y_state := YXMLS_lee1\<rparr>)
      else if ch = u32c CHR ''?'' then ok (x\<lparr>y_state := YXMLS_leq0\<rparr>)
      else if yxml_isNameStart ch then yxml_elemstart (x\<lparr>y_state := YXMLS_elem0\<rparr>) ch
      else esyn x)"

definition y_le1_step :: "yxml_t \<Rightarrow> u32 \<Rightarrow> yxml_result" where
  "y_le1_step x ch =
     (if ch = u32c CHR ''!'' then ok (x\<lparr>y_state := YXMLS_lee1\<rparr>)
      else if ch = u32c CHR ''?'' then ok (x\<lparr>y_state := YXMLS_pi0, y_nextstate := YXMLS_misc1\<rparr>)
      else if yxml_isNameStart ch then yxml_elemstart (x\<lparr>y_state := YXMLS_elem0\<rparr>) ch
      else esyn x)"

definition y_le2_step :: "yxml_t \<Rightarrow> u32 \<Rightarrow> yxml_result" where
  "y_le2_step x ch =
     (if ch = u32c CHR ''!'' then ok (x\<lparr>y_state := YXMLS_lee2\<rparr>)
      else if ch = u32c CHR ''?'' then ok (x\<lparr>y_state := YXMLS_pi0, y_nextstate := YXMLS_misc2\<rparr>)
      else if ch = u32c CHR ''/'' then ok (x\<lparr>y_state := YXMLS_etag0\<rparr>)
      else if yxml_isNameStart ch then yxml_elemstart (x\<lparr>y_state := YXMLS_elem0\<rparr>) ch
      else esyn x)"

definition y_le3_step :: "yxml_t \<Rightarrow> u32 \<Rightarrow> yxml_result" where
  "y_le3_step x ch =
     (if ch = u32c CHR ''!'' then ok (x\<lparr>y_state := YXMLS_comment0, y_nextstate := YXMLS_misc3\<rparr>)
      else if ch = u32c CHR ''?'' then ok (x\<lparr>y_state := YXMLS_pi0, y_nextstate := YXMLS_misc3\<rparr>)
      else esyn x)"

definition y_lee1_step :: "yxml_t \<Rightarrow> u32 \<Rightarrow> yxml_result" where
  "y_lee1_step x ch =
     (if ch = u32c CHR ''-'' then ok (x\<lparr>y_state := YXMLS_comment1, y_nextstate := YXMLS_misc1\<rparr>)
      else if ch = u32c CHR ''D'' then ok (x\<lparr>y_state := YXMLS_string, y_nextstate := YXMLS_dt0, y_string := ''OCTYPE''\<rparr>)
      else esyn x)"

definition y_lee2_step :: "yxml_t \<Rightarrow> u32 \<Rightarrow> yxml_result" where
  "y_lee2_step x ch =
     (if ch = u32c CHR ''-'' then ok (x\<lparr>y_state := YXMLS_comment1, y_nextstate := YXMLS_misc2\<rparr>)
      else if ch = u32c CHR ''['' then ok (x\<lparr>y_state := YXMLS_string, y_nextstate := YXMLS_cd0, y_string := ''CDATA[''\<rparr>)
      else esyn x)"

definition y_leq0_step :: "yxml_t \<Rightarrow> u32 \<Rightarrow> yxml_result" where
  "y_leq0_step x ch =
     (if ch = u32c CHR ''x'' then yxml_pistart (x\<lparr>y_state := YXMLS_xmldecl0, y_nextstate := YXMLS_misc1\<rparr>) ch
      else if yxml_isNameStart ch then yxml_pistart (x\<lparr>y_state := YXMLS_pi1, y_nextstate := YXMLS_misc1\<rparr>) ch
      else esyn x)"

definition y_misc0_step :: "yxml_t \<Rightarrow> u32 \<Rightarrow> yxml_result" where
  "y_misc0_step x ch =
     (if yxml_isSP ch then ok x
      else if ch = u32c CHR ''<'' then ok (x\<lparr>y_state := YXMLS_le0\<rparr>)
      else esyn x)"

definition y_misc1_step :: "yxml_t \<Rightarrow> u32 \<Rightarrow> yxml_result" where
  "y_misc1_step x ch =
     (if yxml_isSP ch then ok x
      else if ch = u32c CHR ''<'' then ok (x\<lparr>y_state := YXMLS_le1\<rparr>)
      else esyn x)"

definition y_misc2_step :: "yxml_t \<Rightarrow> u32 \<Rightarrow> yxml_result" where
  "y_misc2_step x ch =
     (if ch = u32c CHR ''<'' then ok (x\<lparr>y_state := YXMLS_le2\<rparr>)
      else if ch = u32c CHR ''&'' then yxml_refstart (x\<lparr>y_state := YXMLS_misc2a\<rparr>) ch
      else if yxml_isChar ch then yxml_datacontent x ch
      else esyn x)"

definition y_misc2a_step :: "yxml_t \<Rightarrow> u32 \<Rightarrow> yxml_result" where
  "y_misc2a_step x ch =
     (if yxml_isRef ch then yxml_ref x ch
      else if ch = u32c (CHR 0x3B) then yxml_refcontent (x\<lparr>y_state := YXMLS_misc2\<rparr>) ch
      else esyn x)"

definition y_misc3_step :: "yxml_t \<Rightarrow> u32 \<Rightarrow> yxml_result" where
  "y_misc3_step x ch =
     (if yxml_isSP ch then ok x
      else if ch = u32c CHR ''<'' then ok (x\<lparr>y_state := YXMLS_le3\<rparr>)
      else esyn x)"

definition y_pi0_step :: "yxml_t \<Rightarrow> u32 \<Rightarrow> yxml_result" where
  "y_pi0_step x ch =
     (if yxml_isNameStart ch then yxml_pistart (x\<lparr>y_state := YXMLS_pi1\<rparr>) ch
      else esyn x)"

definition y_pi1_step :: "yxml_t \<Rightarrow> u32 \<Rightarrow> yxml_result" where
  "y_pi1_step x ch =
     (if yxml_isName ch then yxml_piname x ch
      else if ch = u32c CHR ''?'' then yxml_pinameend (x\<lparr>y_state := YXMLS_pi4\<rparr>) ch
      else if yxml_isSP ch then yxml_pinameend (x\<lparr>y_state := YXMLS_pi2\<rparr>) ch
      else esyn x)"

definition y_pi2_step :: "yxml_t \<Rightarrow> u32 \<Rightarrow> yxml_result" where
  "y_pi2_step x ch =
     (if ch = u32c CHR ''?'' then ok (x\<lparr>y_state := YXMLS_pi3\<rparr>)
      else if yxml_isChar ch then yxml_datapi1 x ch
      else esyn x)"

definition y_pi3_step :: "yxml_t \<Rightarrow> u32 \<Rightarrow> yxml_result" where
  "y_pi3_step x ch =
     (if ch = u32c CHR ''>'' then yxml_pivalend (x\<lparr>y_state := y_nextstate x\<rparr>) ch
      else if yxml_isChar ch then yxml_datapi2 (x\<lparr>y_state := YXMLS_pi2\<rparr>) ch
      else esyn x)"

definition y_pi4_step :: "yxml_t \<Rightarrow> u32 \<Rightarrow> yxml_result" where
  "y_pi4_step x ch =
     (if ch = u32c CHR ''>'' then yxml_pivalend (x\<lparr>y_state := y_nextstate x\<rparr>) ch
      else esyn x)"

definition y_std0_step :: "yxml_t \<Rightarrow> u32 \<Rightarrow> yxml_result" where
  "y_std0_step x ch =
     (if yxml_isSP ch then ok x
      else if ch = u32c CHR ''='' then ok (x\<lparr>y_state := YXMLS_std1\<rparr>)
      else esyn x)"

definition y_std1_step :: "yxml_t \<Rightarrow> u32 \<Rightarrow> yxml_result" where
  "y_std1_step x ch =
     (if yxml_isSP ch then ok x
      else if ch = u32c APOS \<or> ch = u32c DQUOTE then ok (x\<lparr>y_state := YXMLS_std2, y_quote := ch\<rparr>)
      else esyn x)"

definition y_std2_step :: "yxml_t \<Rightarrow> u32 \<Rightarrow> yxml_result" where
  "y_std2_step x ch =
     (if ch = u32c CHR ''y'' then ok (x\<lparr>y_state := YXMLS_string, y_nextstate := YXMLS_std3, y_string := ''es''\<rparr>)
      else if ch = u32c CHR ''n'' then ok (x\<lparr>y_state := YXMLS_string, y_nextstate := YXMLS_std3, y_string := ''o''\<rparr>)
      else esyn x)"

definition y_std3_step :: "yxml_t \<Rightarrow> u32 \<Rightarrow> yxml_result" where
  "y_std3_step x ch =
     (if y_quote x = ch then ok (x\<lparr>y_state := YXMLS_xmldecl8\<rparr>)
      else esyn x)"

definition y_ver0_step :: "yxml_t \<Rightarrow> u32 \<Rightarrow> yxml_result" where
  "y_ver0_step x ch =
     (if yxml_isSP ch then ok x
      else if ch = u32c CHR ''='' then ok (x\<lparr>y_state := YXMLS_ver1\<rparr>)
      else esyn x)"

definition y_ver1_step :: "yxml_t \<Rightarrow> u32 \<Rightarrow> yxml_result" where
  "y_ver1_step x ch =
     (if yxml_isSP ch then ok x
      else if ch = u32c APOS \<or> ch = u32c DQUOTE then ok (x\<lparr>y_state := YXMLS_string, y_quote := ch, y_nextstate := YXMLS_ver2, y_string := ''1.''\<rparr>)
      else esyn x)"

definition y_ver2_step :: "yxml_t \<Rightarrow> u32 \<Rightarrow> yxml_result" where
  "y_ver2_step x ch =
     (if yxml_isNum ch then ok (x\<lparr>y_state := YXMLS_ver3\<rparr>)
      else esyn x)"

definition y_ver3_step :: "yxml_t \<Rightarrow> u32 \<Rightarrow> yxml_result" where
  "y_ver3_step x ch =
     (if yxml_isNum ch then ok x
      else if y_quote x = ch then ok (x\<lparr>y_state := YXMLS_xmldecl4\<rparr>)
      else esyn x)"

definition y_xmldecl0_step :: "yxml_t \<Rightarrow> u32 \<Rightarrow> yxml_result" where
  "y_xmldecl0_step x ch =
     (if ch = u32c CHR ''m'' then yxml_piname (x\<lparr>y_state := YXMLS_xmldecl1\<rparr>) ch
      else if yxml_isName ch then yxml_piname (x\<lparr>y_state := YXMLS_pi1\<rparr>) ch
      else if ch = u32c CHR ''?'' then yxml_pinameend (x\<lparr>y_state := YXMLS_pi4\<rparr>) ch
      else if yxml_isSP ch then yxml_pinameend (x\<lparr>y_state := YXMLS_pi2\<rparr>) ch
      else esyn x)"

definition y_xmldecl1_step :: "yxml_t \<Rightarrow> u32 \<Rightarrow> yxml_result" where
  "y_xmldecl1_step x ch =
     (if ch = u32c CHR ''l'' then yxml_piname (x\<lparr>y_state := YXMLS_xmldecl2\<rparr>) ch
      else if yxml_isName ch then yxml_piname (x\<lparr>y_state := YXMLS_pi1\<rparr>) ch
      else if ch = u32c CHR ''?'' then yxml_pinameend (x\<lparr>y_state := YXMLS_pi4\<rparr>) ch
      else if yxml_isSP ch then yxml_pinameend (x\<lparr>y_state := YXMLS_pi2\<rparr>) ch
      else esyn x)"

definition y_xmldecl2_step :: "yxml_t \<Rightarrow> u32 \<Rightarrow> yxml_result" where
  "y_xmldecl2_step x ch =
     (if yxml_isSP ch then yxml_piabort (x\<lparr>y_state := YXMLS_xmldecl3\<rparr>) ch
      else if yxml_isName ch then yxml_piname (x\<lparr>y_state := YXMLS_pi1\<rparr>) ch
      else esyn x)"

definition y_xmldecl3_step :: "yxml_t \<Rightarrow> u32 \<Rightarrow> yxml_result" where
  "y_xmldecl3_step x ch =
     (if yxml_isSP ch then ok x
      else if ch = u32c CHR ''v'' then ok (x\<lparr>y_state := YXMLS_string, y_nextstate := YXMLS_ver0, y_string := ''ersion''\<rparr>)
      else esyn x)"

definition y_xmldecl4_step :: "yxml_t \<Rightarrow> u32 \<Rightarrow> yxml_result" where
  "y_xmldecl4_step x ch =
     (if yxml_isSP ch then ok (x\<lparr>y_state := YXMLS_xmldecl5\<rparr>)
      else if ch = u32c CHR ''?'' then ok (x\<lparr>y_state := YXMLS_xmldecl9\<rparr>)
      else esyn x)"

definition y_xmldecl5_step :: "yxml_t \<Rightarrow> u32 \<Rightarrow> yxml_result" where
  "y_xmldecl5_step x ch =
     (if yxml_isSP ch then ok x
      else if ch = u32c CHR ''?'' then ok (x\<lparr>y_state := YXMLS_xmldecl9\<rparr>)
      else if ch = u32c CHR ''e'' then ok (x\<lparr>y_state := YXMLS_string, y_nextstate := YXMLS_enc0, y_string := ''ncoding''\<rparr>)
      else if ch = u32c CHR ''s'' then ok (x\<lparr>y_state := YXMLS_string, y_nextstate := YXMLS_std0, y_string := ''tandalone''\<rparr>)
      else esyn x)"

definition y_xmldecl6_step :: "yxml_t \<Rightarrow> u32 \<Rightarrow> yxml_result" where
  "y_xmldecl6_step x ch =
     (if yxml_isSP ch then ok (x\<lparr>y_state := YXMLS_xmldecl7\<rparr>)
      else if ch = u32c CHR ''?'' then ok (x\<lparr>y_state := YXMLS_xmldecl9\<rparr>)
      else esyn x)"

definition y_xmldecl7_step :: "yxml_t \<Rightarrow> u32 \<Rightarrow> yxml_result" where
  "y_xmldecl7_step x ch =
     (if yxml_isSP ch then ok x
      else if ch = u32c CHR ''?'' then ok (x\<lparr>y_state := YXMLS_xmldecl9\<rparr>)
      else if ch = u32c CHR ''s'' then ok (x\<lparr>y_state := YXMLS_string, y_nextstate := YXMLS_std0, y_string := ''tandalone''\<rparr>)
      else esyn x)"

definition y_xmldecl8_step :: "yxml_t \<Rightarrow> u32 \<Rightarrow> yxml_result" where
  "y_xmldecl8_step x ch =
     (if yxml_isSP ch then ok x
      else if ch = u32c CHR ''?'' then ok (x\<lparr>y_state := YXMLS_xmldecl9\<rparr>)
      else esyn x)"

definition y_xmldecl9_step :: "yxml_t \<Rightarrow> u32 \<Rightarrow> yxml_result" where
  "y_xmldecl9_step x ch =
     (if ch = u32c CHR ''>'' then ok (x\<lparr>y_state := YXMLS_misc1\<rparr>)
      else esyn x)"

definition yxml_switch :: "yxml_t \<Rightarrow> u32 \<Rightarrow> yxml_result" where
  "yxml_switch x ch =
     (case y_state x of
        YXMLS_string \<Rightarrow> y_string_step x ch
      | YXMLS_attr0 \<Rightarrow> y_attr0_step x ch
      | YXMLS_attr1 \<Rightarrow> y_attr1_step x ch
      | YXMLS_attr2 \<Rightarrow> y_attr2_step x ch
      | YXMLS_attr3 \<Rightarrow> y_attr3_step x ch
      | YXMLS_attr4 \<Rightarrow> y_attr4_step x ch
      | YXMLS_cd0 \<Rightarrow> y_cd0_step x ch
      | YXMLS_cd1 \<Rightarrow> y_cd1_step x ch
      | YXMLS_cd2 \<Rightarrow> y_cd2_step x ch
      | YXMLS_comment0 \<Rightarrow> y_comment0_step x ch
      | YXMLS_comment1 \<Rightarrow> y_comment1_step x ch
      | YXMLS_comment2 \<Rightarrow> y_comment2_step x ch
      | YXMLS_comment3 \<Rightarrow> y_comment3_step x ch
      | YXMLS_comment4 \<Rightarrow> y_comment4_step x ch
      | YXMLS_dt0 \<Rightarrow> y_dt0_step x ch
      | YXMLS_dt1 \<Rightarrow> y_dt1_step x ch
      | YXMLS_dt2 \<Rightarrow> y_dt2_step x ch
      | YXMLS_dt3 \<Rightarrow> y_dt3_step x ch
      | YXMLS_dt4 \<Rightarrow> y_dt4_step x ch
      | YXMLS_elem0 \<Rightarrow> y_elem0_step x ch
      | YXMLS_elem1 \<Rightarrow> y_elem1_step x ch
      | YXMLS_elem2 \<Rightarrow> y_elem2_step x ch
      | YXMLS_elem3 \<Rightarrow> y_elem3_step x ch
      | YXMLS_enc0 \<Rightarrow> y_enc0_step x ch
      | YXMLS_enc1 \<Rightarrow> y_enc1_step x ch
      | YXMLS_enc2 \<Rightarrow> y_enc2_step x ch
      | YXMLS_enc3 \<Rightarrow> y_enc3_step x ch
      | YXMLS_etag0 \<Rightarrow> y_etag0_step x ch
      | YXMLS_etag1 \<Rightarrow> y_etag1_step x ch
      | YXMLS_etag2 \<Rightarrow> y_etag2_step x ch
      | YXMLS_init \<Rightarrow> y_init_step x ch
      | YXMLS_le0 \<Rightarrow> y_le0_step x ch
      | YXMLS_le1 \<Rightarrow> y_le1_step x ch
      | YXMLS_le2 \<Rightarrow> y_le2_step x ch
      | YXMLS_le3 \<Rightarrow> y_le3_step x ch
      | YXMLS_lee1 \<Rightarrow> y_lee1_step x ch
      | YXMLS_lee2 \<Rightarrow> y_lee2_step x ch
      | YXMLS_leq0 \<Rightarrow> y_leq0_step x ch
      | YXMLS_misc0 \<Rightarrow> y_misc0_step x ch
      | YXMLS_misc1 \<Rightarrow> y_misc1_step x ch
      | YXMLS_misc2 \<Rightarrow> y_misc2_step x ch
      | YXMLS_misc2a \<Rightarrow> y_misc2a_step x ch
      | YXMLS_misc3 \<Rightarrow> y_misc3_step x ch
      | YXMLS_pi0 \<Rightarrow> y_pi0_step x ch
      | YXMLS_pi1 \<Rightarrow> y_pi1_step x ch
      | YXMLS_pi2 \<Rightarrow> y_pi2_step x ch
      | YXMLS_pi3 \<Rightarrow> y_pi3_step x ch
      | YXMLS_pi4 \<Rightarrow> y_pi4_step x ch
      | YXMLS_std0 \<Rightarrow> y_std0_step x ch
      | YXMLS_std1 \<Rightarrow> y_std1_step x ch
      | YXMLS_std2 \<Rightarrow> y_std2_step x ch
      | YXMLS_std3 \<Rightarrow> y_std3_step x ch
      | YXMLS_ver0 \<Rightarrow> y_ver0_step x ch
      | YXMLS_ver1 \<Rightarrow> y_ver1_step x ch
      | YXMLS_ver2 \<Rightarrow> y_ver2_step x ch
      | YXMLS_ver3 \<Rightarrow> y_ver3_step x ch
      | YXMLS_xmldecl0 \<Rightarrow> y_xmldecl0_step x ch
      | YXMLS_xmldecl1 \<Rightarrow> y_xmldecl1_step x ch
      | YXMLS_xmldecl2 \<Rightarrow> y_xmldecl2_step x ch
      | YXMLS_xmldecl3 \<Rightarrow> y_xmldecl3_step x ch
      | YXMLS_xmldecl4 \<Rightarrow> y_xmldecl4_step x ch
      | YXMLS_xmldecl5 \<Rightarrow> y_xmldecl5_step x ch
      | YXMLS_xmldecl6 \<Rightarrow> y_xmldecl6_step x ch
      | YXMLS_xmldecl7 \<Rightarrow> y_xmldecl7_step x ch
      | YXMLS_xmldecl8 \<Rightarrow> y_xmldecl8_step x ch
      | YXMLS_xmldecl9 \<Rightarrow> y_xmldecl9_step x ch)"

lemmas yxml_step_defs =
  y_string_step_def y_attr0_step_def y_attr1_step_def y_attr2_step_def y_attr3_step_def
  y_attr4_step_def y_cd0_step_def y_cd1_step_def y_cd2_step_def y_comment0_step_def
  y_comment1_step_def y_comment2_step_def y_comment3_step_def y_comment4_step_def y_dt0_step_def
  y_dt1_step_def y_dt2_step_def y_dt3_step_def y_dt4_step_def y_elem0_step_def y_elem1_step_def
  y_elem2_step_def y_elem3_step_def y_enc0_step_def y_enc1_step_def y_enc2_step_def
  y_enc3_step_def y_etag0_step_def y_etag1_step_def y_etag2_step_def y_init_step_def
  y_le0_step_def y_le1_step_def y_le2_step_def y_le3_step_def y_lee1_step_def y_lee2_step_def
  y_leq0_step_def y_misc0_step_def y_misc1_step_def y_misc2_step_def y_misc2a_step_def
  y_misc3_step_def y_pi0_step_def y_pi1_step_def y_pi2_step_def y_pi3_step_def y_pi4_step_def
  y_std0_step_def y_std1_step_def y_std2_step_def y_std3_step_def y_ver0_step_def y_ver1_step_def
  y_ver2_step_def y_ver3_step_def y_xmldecl0_step_def y_xmldecl1_step_def y_xmldecl2_step_def
  y_xmldecl3_step_def y_xmldecl4_step_def y_xmldecl5_step_def y_xmldecl6_step_def
  y_xmldecl7_step_def y_xmldecl8_step_def y_xmldecl9_step_def

subsection \<open>Interface\<close>

text \<open>\<open>stack\<close> is the array of the caller, of which only the first byte is written.\<close>

definition yxml_init :: "cbuf \<Rightarrow> nat \<Rightarrow> yxml_t" where
  "yxml_init stack stacksize =
     \<lparr>y_elem = 0, y_data = zbuf 8, y_attr = 0, y_pi = 0, y_byte = 0, y_total = 0, y_line = 1, y_state = YXMLS_init,
      y_stack = poke stack 0 NUL, y_stacksize = stacksize, y_stacklen = 0, y_reflen = 0, y_quote = 0,
      y_nextstate = YXMLS_string, y_ignore = 0, y_string = []\<rparr>"

definition yxml_parse :: "yxml_t \<Rightarrow> char \<Rightarrow> yxml_result" where
  "yxml_parse x c =
     (let ch = u32c c in
      if ch = 0 then Some (YXML_ESYN, x)
      else
        let x1 = x\<lparr>y_total := y_total x + 1\<rparr> in
        if y_ignore x1 = ch then Some (YXML_OK, x1\<lparr>y_ignore := 0\<rparr>)
        else
          let x2 = x1\<lparr>y_ignore := (if ch = 0xd then 0xa else 0)\<rparr>;
              nl = (ch = 0xa \<or> ch = 0xd);
              x3 = (if nl then x2\<lparr>y_line := y_line x2 + 1, y_byte := 0\<rparr> else x2);
              x4 = x3\<lparr>y_byte := y_byte x3 + 1\<rparr>
          in yxml_switch x4 (if nl then 0xa else ch))"

definition yxml_eof :: "yxml_t \<Rightarrow> yxml_ret_t" where
  "yxml_eof x = (if y_state x \<noteq> YXMLS_misc3 then YXML_EEOF else YXML_OK)"

end
