(* ===== verification/Yxml_Stack.thy ===== *)
theory Yxml_Stack
  imports Yxml
begin

text \<open>
  The name stack of the tokenizer stays inside its array: for any input of at most 1023 bytes, well
  formed or not, and with the errors ignored as the stanza parser ignores them, no access of yxml
  leaves the array and the stack never fills up.  The stack is abstracted to the list of the names of
  the open elements, followed by the name of the attribute or processing instruction being read.
\<close>

subsection \<open>The layout of the names\<close>

definition layout :: "string list \<Rightarrow> string" where
  "layout ns = concat (map (\<lambda>n. NUL # n) ns) @ [NUL]"

lemma layout_nil [simp]: "layout [] = [NUL]"
  by (simp add: layout_def)

lemma layout_snoc: "layout (ns @ [n]) = layout ns @ n @ [NUL]"
  by (simp add: layout_def)

lemma layout_length [simp]: "0 < length (layout ns)" "layout ns \<noteq> []"
  by (simp_all add: layout_def)

lemma layout_last: "layout ns ! (length (layout ns) - 1) = NUL"
  by (simp add: layout_def nth_append)

definition name_ok :: "string \<Rightarrow> bool" where
  "name_ok n \<longleftrightarrow> n \<noteq> [] \<and> NUL \<notin> set n"

text \<open>The stack \<open>s\<close> of length \<open>k\<close> holds the names \<open>ns\<close>.\<close>

definition holds_names :: "cbuf \<Rightarrow> nat \<Rightarrow> string list \<Rightarrow> bool" where
  "holds_names s k ns \<longleftrightarrow> length s = 1024 \<and> k < 1024 \<and> take (Suc k) s = layout ns \<and> list_all name_ok ns"

lemma holds_length: "holds_names s k ns \<Longrightarrow> Suc k = length (layout ns)"
  unfolding holds_names_def by (metis Suc_leI length_take min.absorb2)

lemma holds_nth: "holds_names s k ns \<Longrightarrow> i \<le> k \<Longrightarrow> s ! i = layout ns ! i"
  unfolding holds_names_def by (metis le_imp_less_Suc nth_take)

lemma holds_end: "holds_names s k ns \<Longrightarrow> s ! k = NUL"
  using holds_nth [of s k ns k] holds_length [of s k ns] layout_last [of ns] by (metis diff_Suc_1 order_refl)

lemma two_pokes:
  assumes "Suc k < length s"
  shows "take (Suc (Suc k)) (poke (poke s k c) (Suc k) d) = take k s @ [c, d]"
    and "length (poke (poke s k c) (Suc k) d) = length s"
  using assms by (simp_all add: poke_def min_def)

lemma holds_push:
  assumes "holds_names s k ns" and "k + 2 < 1024" and "c \<noteq> NUL"
  shows "holds_names (poke (poke s (Suc k) c) (Suc (Suc k)) NUL) (Suc (Suc k)) (ns @ [[c]])"
  using assms two_pokes [of "Suc k" s c NUL] by (simp add: holds_names_def layout_snoc name_ok_def)

lemma holds_extend:
  assumes "holds_names s k (ns @ [n])" and "k + 1 < 1024" and "c \<noteq> NUL"
  shows "holds_names (poke (poke s k c) (Suc k) NUL) (Suc k) (ns @ [n @ [c]])"
proof -
  have "length s = 1024" and t: "take (Suc k) s = (layout ns @ n) @ [NUL]"
    using assms(1) by (simp_all add: holds_names_def layout_snoc)
  then have "take k s = layout ns @ n"
    using assms(2) by (metis Suc_leD Suc_le_eq Suc_eq_plus1 butlast_snoc butlast_take diff_Suc_1)
  then show ?thesis
    using assms two_pokes [of k s c NUL] by (simp add: holds_names_def layout_snoc name_ok_def)
qed

lemma pop_len_eq: "s ! k = NUL \<Longrightarrow> k < n \<Longrightarrow> (\<And>i. k < i \<Longrightarrow> i < n \<Longrightarrow> s ! i \<noteq> NUL) \<Longrightarrow> pop_len s n = Some k"
  by (induction n) (auto simp: less_Suc_eq)

lemma name_start_pop: "name_start s n = map_option Suc (pop_len s n)"
  by (induction n) auto

lemma holds_top:
  assumes "holds_names s k (ns @ [n])"
  obtains j where "Suc j = length (layout ns)" "k = j + 1 + length n" "0 < length n" "s ! j = NUL"
    "\<And>i. j < i \<Longrightarrow> i < k \<Longrightarrow> s ! i \<noteq> NUL"
proof -
  define j where "j = length (layout ns) - 1"
  have j: "Suc j = length (layout ns)" using layout_length(1) [of ns] by (simp add: j_def)
  have k: "k = j + 1 + length n" using holds_length [OF assms] j by (simp add: layout_snoc)
  have n: "n \<noteq> []" "NUL \<notin> set n" using assms by (simp_all add: holds_names_def name_ok_def)
  have nth: "s ! i = (layout ns @ n @ [NUL]) ! i" if "i \<le> k" for i
    using holds_nth [OF assms that] by (simp add: layout_snoc)
  have "s ! j = NUL" using nth [of j] j k layout_last [of ns] by (simp add: nth_append j_def)
  moreover have "s ! i \<noteq> NUL" if "j < i" "i < k" for i
  proof -
    have i: "i - length (layout ns) < length n" "\<not> i < length (layout ns)" "i - length (layout ns) = i - Suc j"
      using that j k by linarith+
    have "s ! i = n ! (i - Suc j)" using nth [of i] that i by (simp add: nth_append)
    then show ?thesis using n(2) nth_mem [of "i - Suc j" n] i by metis
  qed
  ultimately show thesis using that [of j] j k n(1) by auto
qed

lemma holds_pop:
  assumes "holds_names s k (ns @ [n])"
  shows "\<exists>j. pop_len s k = Some j \<and> holds_names s j ns \<and> j < k"
proof -
  obtain j where j: "Suc j = length (layout ns)" "k = j + 1 + length n" "s ! j = NUL"
    "\<And>i. j < i \<Longrightarrow> i < k \<Longrightarrow> s ! i \<noteq> NUL"
    using holds_top [OF assms] by blast
  have "take (Suc k) s = layout ns @ n @ [NUL]" using assms by (simp add: holds_names_def layout_snoc)
  then have "take (Suc j) (take (Suc k) s) = layout ns" by (simp add: j(1))
  then have "holds_names s j ns" using assms j(2) by (auto simp: holds_names_def)
  moreover have "pop_len s k = Some j" using j by (intro pop_len_eq) auto
  ultimately show ?thesis using j(2) by auto
qed

lemma holds_name_start:
  assumes "holds_names s k (ns @ [n])"
  shows "\<exists>j. name_start s (k - 1) = Some j \<and> j \<le> k"
proof -
  obtain j where j: "k = j + 1 + length n" "0 < length n" "s ! j = NUL" "\<And>i. j < i \<Longrightarrow> i < k \<Longrightarrow> s ! i \<noteq> NUL"
    using holds_top [OF assms] by blast
  then have "pop_len s (k - 1) = Some j" by (intro pop_len_eq) auto
  then show ?thesis using j by (simp add: name_start_pop)
qed


subsection \<open>The invariant\<close>

text \<open>The states inside an element, the states that read an attribute or a processing instruction, and
  the states that continue in \<open>nextstate\<close>, which is then one of the resting states.\<close>

definition inside :: "yxml_state_t \<Rightarrow> bool" where
  "inside st \<longleftrightarrow> st \<in> {YXMLS_elem0, YXMLS_elem1, YXMLS_elem2, YXMLS_elem3, YXMLS_misc2, YXMLS_misc2a, YXMLS_cd0,
     YXMLS_cd1, YXMLS_cd2, YXMLS_le2, YXMLS_lee2, YXMLS_etag0, YXMLS_etag1, YXMLS_etag2, YXMLS_attr0, YXMLS_attr1,
     YXMLS_attr2, YXMLS_attr3, YXMLS_attr4}"

definition in_attr :: "yxml_state_t \<Rightarrow> bool" where
  "in_attr st \<longleftrightarrow> st \<in> {YXMLS_attr0, YXMLS_attr1, YXMLS_attr2, YXMLS_attr3, YXMLS_attr4}"

definition in_pi :: "yxml_state_t \<Rightarrow> bool" where
  "in_pi st \<longleftrightarrow> st \<in> {YXMLS_pi1, YXMLS_pi2, YXMLS_pi3, YXMLS_pi4, YXMLS_xmldecl0, YXMLS_xmldecl1, YXMLS_xmldecl2}"

definition uses_next :: "yxml_state_t \<Rightarrow> bool" where
  "uses_next st \<longleftrightarrow> in_pi st \<or> st \<in> {YXMLS_string, YXMLS_comment0, YXMLS_comment1, YXMLS_comment2, YXMLS_comment3,
     YXMLS_comment4, YXMLS_dt1, YXMLS_pi0}"

definition resting :: "yxml_state_t \<Rightarrow> bool" where
  "resting st \<longleftrightarrow> st \<in> {YXMLS_misc0, YXMLS_misc1, YXMLS_misc2, YXMLS_misc3, YXMLS_dt0, YXMLS_dt4, YXMLS_cd0,
     YXMLS_std3, YXMLS_ver0, YXMLS_ver2, YXMLS_enc0, YXMLS_std0}"

text \<open>The states in which the last byte did not grow the stack and the next one may push a name.\<close>

definition before_name :: "yxml_state_t \<Rightarrow> bool" where
  "before_name st \<longleftrightarrow> st \<in> {YXMLS_le0, YXMLS_le1, YXMLS_le2, YXMLS_le3, YXMLS_elem1, YXMLS_pi0, YXMLS_leq0}"

definition shape :: "yxml_state_t \<Rightarrow> yxml_state_t \<Rightarrow> string list \<Rightarrow> string list \<Rightarrow> bool" where
  "shape st nx es xs \<longleftrightarrow> length xs = (if in_attr st \<or> in_pi st then 1 else 0) \<and>
     (inside st \<or> uses_next st \<and> inside nx \<longrightarrow> es \<noteq> []) \<and> (uses_next st \<longrightarrow> resting nx)"

lemma inside_class [simp]:
  "inside YXMLS_attr0" "inside YXMLS_attr1" "inside YXMLS_attr2" "inside YXMLS_attr3" "inside YXMLS_attr4"
  "inside YXMLS_cd0" "inside YXMLS_cd1" "inside YXMLS_cd2" "inside YXMLS_elem0" "inside YXMLS_elem1"
  "inside YXMLS_elem2" "inside YXMLS_elem3" "inside YXMLS_etag0" "inside YXMLS_etag1" "inside YXMLS_etag2"
  "inside YXMLS_le2" "inside YXMLS_lee2" "inside YXMLS_misc2" "inside YXMLS_misc2a" "\<not> inside YXMLS_string"
  "\<not> inside YXMLS_comment0" "\<not> inside YXMLS_comment1" "\<not> inside YXMLS_comment2"
  "\<not> inside YXMLS_comment3" "\<not> inside YXMLS_comment4" "\<not> inside YXMLS_dt0" "\<not> inside YXMLS_dt1"
  "\<not> inside YXMLS_dt2" "\<not> inside YXMLS_dt3" "\<not> inside YXMLS_dt4" "\<not> inside YXMLS_enc0"
  "\<not> inside YXMLS_enc1" "\<not> inside YXMLS_enc2" "\<not> inside YXMLS_enc3" "\<not> inside YXMLS_init"
  "\<not> inside YXMLS_le0" "\<not> inside YXMLS_le1" "\<not> inside YXMLS_le3" "\<not> inside YXMLS_lee1"
  "\<not> inside YXMLS_leq0" "\<not> inside YXMLS_misc0" "\<not> inside YXMLS_misc1" "\<not> inside YXMLS_misc3"
  "\<not> inside YXMLS_pi0" "\<not> inside YXMLS_pi1" "\<not> inside YXMLS_pi2" "\<not> inside YXMLS_pi3"
  "\<not> inside YXMLS_pi4" "\<not> inside YXMLS_std0" "\<not> inside YXMLS_std1" "\<not> inside YXMLS_std2"
  "\<not> inside YXMLS_std3" "\<not> inside YXMLS_ver0" "\<not> inside YXMLS_ver1" "\<not> inside YXMLS_ver2"
  "\<not> inside YXMLS_ver3" "\<not> inside YXMLS_xmldecl0" "\<not> inside YXMLS_xmldecl1"
  "\<not> inside YXMLS_xmldecl2" "\<not> inside YXMLS_xmldecl3" "\<not> inside YXMLS_xmldecl4"
  "\<not> inside YXMLS_xmldecl5" "\<not> inside YXMLS_xmldecl6" "\<not> inside YXMLS_xmldecl7"
  "\<not> inside YXMLS_xmldecl8" "\<not> inside YXMLS_xmldecl9"
  by (simp_all add: inside_def)

lemma in_attr_class [simp]:
  "in_attr YXMLS_attr0" "in_attr YXMLS_attr1" "in_attr YXMLS_attr2" "in_attr YXMLS_attr3" "in_attr YXMLS_attr4"
  "\<not> in_attr YXMLS_string" "\<not> in_attr YXMLS_cd0" "\<not> in_attr YXMLS_cd1" "\<not> in_attr YXMLS_cd2"
  "\<not> in_attr YXMLS_comment0" "\<not> in_attr YXMLS_comment1" "\<not> in_attr YXMLS_comment2"
  "\<not> in_attr YXMLS_comment3" "\<not> in_attr YXMLS_comment4" "\<not> in_attr YXMLS_dt0"
  "\<not> in_attr YXMLS_dt1" "\<not> in_attr YXMLS_dt2" "\<not> in_attr YXMLS_dt3" "\<not> in_attr YXMLS_dt4"
  "\<not> in_attr YXMLS_elem0" "\<not> in_attr YXMLS_elem1" "\<not> in_attr YXMLS_elem2" "\<not> in_attr YXMLS_elem3"
  "\<not> in_attr YXMLS_enc0" "\<not> in_attr YXMLS_enc1" "\<not> in_attr YXMLS_enc2" "\<not> in_attr YXMLS_enc3"
  "\<not> in_attr YXMLS_etag0" "\<not> in_attr YXMLS_etag1" "\<not> in_attr YXMLS_etag2" "\<not> in_attr YXMLS_init"
  "\<not> in_attr YXMLS_le0" "\<not> in_attr YXMLS_le1" "\<not> in_attr YXMLS_le2" "\<not> in_attr YXMLS_le3"
  "\<not> in_attr YXMLS_lee1" "\<not> in_attr YXMLS_lee2" "\<not> in_attr YXMLS_leq0" "\<not> in_attr YXMLS_misc0"
  "\<not> in_attr YXMLS_misc1" "\<not> in_attr YXMLS_misc2" "\<not> in_attr YXMLS_misc2a" "\<not> in_attr YXMLS_misc3"
  "\<not> in_attr YXMLS_pi0" "\<not> in_attr YXMLS_pi1" "\<not> in_attr YXMLS_pi2" "\<not> in_attr YXMLS_pi3"
  "\<not> in_attr YXMLS_pi4" "\<not> in_attr YXMLS_std0" "\<not> in_attr YXMLS_std1" "\<not> in_attr YXMLS_std2"
  "\<not> in_attr YXMLS_std3" "\<not> in_attr YXMLS_ver0" "\<not> in_attr YXMLS_ver1" "\<not> in_attr YXMLS_ver2"
  "\<not> in_attr YXMLS_ver3" "\<not> in_attr YXMLS_xmldecl0" "\<not> in_attr YXMLS_xmldecl1"
  "\<not> in_attr YXMLS_xmldecl2" "\<not> in_attr YXMLS_xmldecl3" "\<not> in_attr YXMLS_xmldecl4"
  "\<not> in_attr YXMLS_xmldecl5" "\<not> in_attr YXMLS_xmldecl6" "\<not> in_attr YXMLS_xmldecl7"
  "\<not> in_attr YXMLS_xmldecl8" "\<not> in_attr YXMLS_xmldecl9"
  by (simp_all add: in_attr_def)

lemma in_pi_class [simp]:
  "in_pi YXMLS_pi1" "in_pi YXMLS_pi2" "in_pi YXMLS_pi3" "in_pi YXMLS_pi4" "in_pi YXMLS_xmldecl0"
  "in_pi YXMLS_xmldecl1" "in_pi YXMLS_xmldecl2" "\<not> in_pi YXMLS_string" "\<not> in_pi YXMLS_attr0"
  "\<not> in_pi YXMLS_attr1" "\<not> in_pi YXMLS_attr2" "\<not> in_pi YXMLS_attr3" "\<not> in_pi YXMLS_attr4"
  "\<not> in_pi YXMLS_cd0" "\<not> in_pi YXMLS_cd1" "\<not> in_pi YXMLS_cd2" "\<not> in_pi YXMLS_comment0"
  "\<not> in_pi YXMLS_comment1" "\<not> in_pi YXMLS_comment2" "\<not> in_pi YXMLS_comment3"
  "\<not> in_pi YXMLS_comment4" "\<not> in_pi YXMLS_dt0" "\<not> in_pi YXMLS_dt1" "\<not> in_pi YXMLS_dt2"
  "\<not> in_pi YXMLS_dt3" "\<not> in_pi YXMLS_dt4" "\<not> in_pi YXMLS_elem0" "\<not> in_pi YXMLS_elem1"
  "\<not> in_pi YXMLS_elem2" "\<not> in_pi YXMLS_elem3" "\<not> in_pi YXMLS_enc0" "\<not> in_pi YXMLS_enc1"
  "\<not> in_pi YXMLS_enc2" "\<not> in_pi YXMLS_enc3" "\<not> in_pi YXMLS_etag0" "\<not> in_pi YXMLS_etag1"
  "\<not> in_pi YXMLS_etag2" "\<not> in_pi YXMLS_init" "\<not> in_pi YXMLS_le0" "\<not> in_pi YXMLS_le1"
  "\<not> in_pi YXMLS_le2" "\<not> in_pi YXMLS_le3" "\<not> in_pi YXMLS_lee1" "\<not> in_pi YXMLS_lee2"
  "\<not> in_pi YXMLS_leq0" "\<not> in_pi YXMLS_misc0" "\<not> in_pi YXMLS_misc1" "\<not> in_pi YXMLS_misc2"
  "\<not> in_pi YXMLS_misc2a" "\<not> in_pi YXMLS_misc3" "\<not> in_pi YXMLS_pi0" "\<not> in_pi YXMLS_std0"
  "\<not> in_pi YXMLS_std1" "\<not> in_pi YXMLS_std2" "\<not> in_pi YXMLS_std3" "\<not> in_pi YXMLS_ver0"
  "\<not> in_pi YXMLS_ver1" "\<not> in_pi YXMLS_ver2" "\<not> in_pi YXMLS_ver3" "\<not> in_pi YXMLS_xmldecl3"
  "\<not> in_pi YXMLS_xmldecl4" "\<not> in_pi YXMLS_xmldecl5" "\<not> in_pi YXMLS_xmldecl6"
  "\<not> in_pi YXMLS_xmldecl7" "\<not> in_pi YXMLS_xmldecl8" "\<not> in_pi YXMLS_xmldecl9"
  by (simp_all add: in_pi_def)

lemma uses_next_class [simp]:
  "uses_next YXMLS_string" "uses_next YXMLS_comment0" "uses_next YXMLS_comment1" "uses_next YXMLS_comment2"
  "uses_next YXMLS_comment3" "uses_next YXMLS_comment4" "uses_next YXMLS_dt1" "uses_next YXMLS_pi0"
  "uses_next YXMLS_pi1" "uses_next YXMLS_pi2" "uses_next YXMLS_pi3" "uses_next YXMLS_pi4" "uses_next YXMLS_xmldecl0"
  "uses_next YXMLS_xmldecl1" "uses_next YXMLS_xmldecl2" "\<not> uses_next YXMLS_attr0" "\<not> uses_next YXMLS_attr1"
  "\<not> uses_next YXMLS_attr2" "\<not> uses_next YXMLS_attr3" "\<not> uses_next YXMLS_attr4"
  "\<not> uses_next YXMLS_cd0" "\<not> uses_next YXMLS_cd1" "\<not> uses_next YXMLS_cd2" "\<not> uses_next YXMLS_dt0"
  "\<not> uses_next YXMLS_dt2" "\<not> uses_next YXMLS_dt3" "\<not> uses_next YXMLS_dt4"
  "\<not> uses_next YXMLS_elem0" "\<not> uses_next YXMLS_elem1" "\<not> uses_next YXMLS_elem2"
  "\<not> uses_next YXMLS_elem3" "\<not> uses_next YXMLS_enc0" "\<not> uses_next YXMLS_enc1"
  "\<not> uses_next YXMLS_enc2" "\<not> uses_next YXMLS_enc3" "\<not> uses_next YXMLS_etag0"
  "\<not> uses_next YXMLS_etag1" "\<not> uses_next YXMLS_etag2" "\<not> uses_next YXMLS_init"
  "\<not> uses_next YXMLS_le0" "\<not> uses_next YXMLS_le1" "\<not> uses_next YXMLS_le2" "\<not> uses_next YXMLS_le3"
  "\<not> uses_next YXMLS_lee1" "\<not> uses_next YXMLS_lee2" "\<not> uses_next YXMLS_leq0"
  "\<not> uses_next YXMLS_misc0" "\<not> uses_next YXMLS_misc1" "\<not> uses_next YXMLS_misc2"
  "\<not> uses_next YXMLS_misc2a" "\<not> uses_next YXMLS_misc3" "\<not> uses_next YXMLS_std0"
  "\<not> uses_next YXMLS_std1" "\<not> uses_next YXMLS_std2" "\<not> uses_next YXMLS_std3"
  "\<not> uses_next YXMLS_ver0" "\<not> uses_next YXMLS_ver1" "\<not> uses_next YXMLS_ver2"
  "\<not> uses_next YXMLS_ver3" "\<not> uses_next YXMLS_xmldecl3" "\<not> uses_next YXMLS_xmldecl4"
  "\<not> uses_next YXMLS_xmldecl5" "\<not> uses_next YXMLS_xmldecl6" "\<not> uses_next YXMLS_xmldecl7"
  "\<not> uses_next YXMLS_xmldecl8" "\<not> uses_next YXMLS_xmldecl9"
  by (simp_all add: uses_next_def in_pi_def)

lemma resting_class [simp]:
  "resting YXMLS_cd0" "resting YXMLS_dt0" "resting YXMLS_dt4" "resting YXMLS_enc0" "resting YXMLS_misc0"
  "resting YXMLS_misc1" "resting YXMLS_misc2" "resting YXMLS_misc3" "resting YXMLS_std0" "resting YXMLS_std3"
  "resting YXMLS_ver0" "resting YXMLS_ver2" "\<not> resting YXMLS_string" "\<not> resting YXMLS_attr0"
  "\<not> resting YXMLS_attr1" "\<not> resting YXMLS_attr2" "\<not> resting YXMLS_attr3" "\<not> resting YXMLS_attr4"
  "\<not> resting YXMLS_cd1" "\<not> resting YXMLS_cd2" "\<not> resting YXMLS_comment0"
  "\<not> resting YXMLS_comment1" "\<not> resting YXMLS_comment2" "\<not> resting YXMLS_comment3"
  "\<not> resting YXMLS_comment4" "\<not> resting YXMLS_dt1" "\<not> resting YXMLS_dt2" "\<not> resting YXMLS_dt3"
  "\<not> resting YXMLS_elem0" "\<not> resting YXMLS_elem1" "\<not> resting YXMLS_elem2" "\<not> resting YXMLS_elem3"
  "\<not> resting YXMLS_enc1" "\<not> resting YXMLS_enc2" "\<not> resting YXMLS_enc3" "\<not> resting YXMLS_etag0"
  "\<not> resting YXMLS_etag1" "\<not> resting YXMLS_etag2" "\<not> resting YXMLS_init" "\<not> resting YXMLS_le0"
  "\<not> resting YXMLS_le1" "\<not> resting YXMLS_le2" "\<not> resting YXMLS_le3" "\<not> resting YXMLS_lee1"
  "\<not> resting YXMLS_lee2" "\<not> resting YXMLS_leq0" "\<not> resting YXMLS_misc2a" "\<not> resting YXMLS_pi0"
  "\<not> resting YXMLS_pi1" "\<not> resting YXMLS_pi2" "\<not> resting YXMLS_pi3" "\<not> resting YXMLS_pi4"
  "\<not> resting YXMLS_std1" "\<not> resting YXMLS_std2" "\<not> resting YXMLS_ver1" "\<not> resting YXMLS_ver3"
  "\<not> resting YXMLS_xmldecl0" "\<not> resting YXMLS_xmldecl1" "\<not> resting YXMLS_xmldecl2"
  "\<not> resting YXMLS_xmldecl3" "\<not> resting YXMLS_xmldecl4" "\<not> resting YXMLS_xmldecl5"
  "\<not> resting YXMLS_xmldecl6" "\<not> resting YXMLS_xmldecl7" "\<not> resting YXMLS_xmldecl8"
  "\<not> resting YXMLS_xmldecl9"
  by (simp_all add: resting_def)

lemma before_name_class [simp]:
  "before_name YXMLS_elem1" "before_name YXMLS_le0" "before_name YXMLS_le1" "before_name YXMLS_le2"
  "before_name YXMLS_le3" "before_name YXMLS_leq0" "before_name YXMLS_pi0" "\<not> before_name YXMLS_string"
  "\<not> before_name YXMLS_attr0" "\<not> before_name YXMLS_attr1" "\<not> before_name YXMLS_attr2"
  "\<not> before_name YXMLS_attr3" "\<not> before_name YXMLS_attr4" "\<not> before_name YXMLS_cd0"
  "\<not> before_name YXMLS_cd1" "\<not> before_name YXMLS_cd2" "\<not> before_name YXMLS_comment0"
  "\<not> before_name YXMLS_comment1" "\<not> before_name YXMLS_comment2" "\<not> before_name YXMLS_comment3"
  "\<not> before_name YXMLS_comment4" "\<not> before_name YXMLS_dt0" "\<not> before_name YXMLS_dt1"
  "\<not> before_name YXMLS_dt2" "\<not> before_name YXMLS_dt3" "\<not> before_name YXMLS_dt4"
  "\<not> before_name YXMLS_elem0" "\<not> before_name YXMLS_elem2" "\<not> before_name YXMLS_elem3"
  "\<not> before_name YXMLS_enc0" "\<not> before_name YXMLS_enc1" "\<not> before_name YXMLS_enc2"
  "\<not> before_name YXMLS_enc3" "\<not> before_name YXMLS_etag0" "\<not> before_name YXMLS_etag1"
  "\<not> before_name YXMLS_etag2" "\<not> before_name YXMLS_init" "\<not> before_name YXMLS_lee1"
  "\<not> before_name YXMLS_lee2" "\<not> before_name YXMLS_misc0" "\<not> before_name YXMLS_misc1"
  "\<not> before_name YXMLS_misc2" "\<not> before_name YXMLS_misc2a" "\<not> before_name YXMLS_misc3"
  "\<not> before_name YXMLS_pi1" "\<not> before_name YXMLS_pi2" "\<not> before_name YXMLS_pi3"
  "\<not> before_name YXMLS_pi4" "\<not> before_name YXMLS_std0" "\<not> before_name YXMLS_std1"
  "\<not> before_name YXMLS_std2" "\<not> before_name YXMLS_std3" "\<not> before_name YXMLS_ver0"
  "\<not> before_name YXMLS_ver1" "\<not> before_name YXMLS_ver2" "\<not> before_name YXMLS_ver3"
  "\<not> before_name YXMLS_xmldecl0" "\<not> before_name YXMLS_xmldecl1" "\<not> before_name YXMLS_xmldecl2"
  "\<not> before_name YXMLS_xmldecl3" "\<not> before_name YXMLS_xmldecl4" "\<not> before_name YXMLS_xmldecl5"
  "\<not> before_name YXMLS_xmldecl6" "\<not> before_name YXMLS_xmldecl7" "\<not> before_name YXMLS_xmldecl8"
  "\<not> before_name YXMLS_xmldecl9"
  by (simp_all add: before_name_def)

definition base :: "yxml_t \<Rightarrow> string list \<Rightarrow> string list \<Rightarrow> bool" where
  "base x es xs \<longleftrightarrow> y_stacksize x = 1024 \<and> holds_names (y_stack x) (y_stacklen x) (es @ xs) \<and>
     y_elem x < length (layout es) \<and> length (y_data x) = 8 \<and> y_data x ! 7 = NUL \<and> y_reflen x \<le> 7"

text \<open>After \<open>n\<close> bytes.\<close>

definition good :: "nat \<Rightarrow> yxml_t \<Rightarrow> string list \<Rightarrow> string list \<Rightarrow> bool" where
  "good n x es xs \<longleftrightarrow> base x es xs \<and> shape (y_state x) (y_nextstate x) es xs \<and>
     y_stacklen x + (if before_name (y_state x) then 1 else 0) \<le> n \<and>
     (in_attr (y_state x) \<longrightarrow> y_attr x \<le> y_stacklen x) \<and> (in_pi (y_state x) \<longrightarrow> y_pi x \<le> y_stacklen x)"

definition step_ok :: "nat \<Rightarrow> yxml_result \<Rightarrow> bool" where
  "step_ok n r \<longleftrightarrow> (\<exists>t x es xs. r = Some (t, x) \<and> t \<noteq> YXML_ESTACK \<and> good n x es xs)"

lemma base_frame [simp]:
  "base (x\<lparr>y_state := a\<rparr>) es xs = base x es xs" "base (x\<lparr>y_nextstate := a\<rparr>) es xs = base x es xs"
  "base (x\<lparr>y_quote := q\<rparr>) es xs = base x es xs" "base (x\<lparr>y_string := s\<rparr>) es xs = base x es xs"
  "base (x\<lparr>y_attr := k\<rparr>) es xs = base x es xs" "base (x\<lparr>y_pi := k\<rparr>) es xs = base x es xs"
  "base (x\<lparr>y_total := b\<rparr>) es xs = base x es xs" "base (x\<lparr>y_byte := b\<rparr>) es xs = base x es xs"
  "base (x\<lparr>y_line := l\<rparr>) es xs = base x es xs" "base (x\<lparr>y_ignore := q\<rparr>) es xs = base x es xs"
  by (simp_all add: base_def)

lemma good_frame [simp]:
  "good n (x\<lparr>y_total := b\<rparr>) es xs = good n x es xs" "good n (x\<lparr>y_byte := b\<rparr>) es xs = good n x es xs"
  "good n (x\<lparr>y_line := l\<rparr>) es xs = good n x es xs" "good n (x\<lparr>y_ignore := q\<rparr>) es xs = good n x es xs"
  by (simp_all add: good_def)

lemma good_mono: "good n x es xs \<Longrightarrow> n \<le> m \<Longrightarrow> good m x es xs"
  by (auto simp: good_def)

lemma base_data: "base x es xs \<Longrightarrow> length d = 8 \<Longrightarrow> d ! 7 = NUL \<Longrightarrow> base (x\<lparr>y_data := d\<rparr>) es xs"
  by (simp add: base_def)

lemma base_len: "base x es xs \<Longrightarrow> y_stacklen x < 1024" "base x es xs \<Longrightarrow> length (y_stack x) = 1024"
  by (simp_all add: base_def holds_names_def)

subsection \<open>The operations\<close>

lemma step_okI: "good n x es xs \<Longrightarrow> t \<noteq> YXML_ESTACK \<Longrightarrow> step_ok n (Some (t, x))"
  by (auto simp: step_ok_def)

lemma poke_data:
  assumes "length d = 8" "d ! 7 = NUL" "i < 7"
  shows "length (poke d i c) = 8 \<and> poke d i c ! 7 = NUL"
  using assms by (simp add: poke_def nth_append nth_Cons' min_def)

lemma data_ok:
  assumes "good n x es xs"
  shows "step_ok n (yxml_datacontent x ch)" "step_ok n (yxml_datapi1 x ch)" "step_ok n (yxml_datapi2 x ch)"
    "step_ok n (yxml_datacd1 x ch)" "step_ok n (yxml_datacd2 x ch)" "step_ok n (yxml_dataattr x ch)"
proof -
  have d: "length (y_data x) = 8" "y_data x ! 7 = NUL" using assms by (simp_all add: good_def base_def)
  have g: "good n (x\<lparr>y_data := d\<rparr>) es xs" if "length d = 8 \<and> d ! 7 = NUL" for d
    using assms that by (simp add: good_def base_data)
  note p = poke_data [OF d] poke_data
  show "step_ok n (yxml_datacontent x ch)" "step_ok n (yxml_datapi1 x ch)" "step_ok n (yxml_datapi2 x ch)"
    "step_ok n (yxml_datacd1 x ch)" "step_ok n (yxml_datacd2 x ch)" "step_ok n (yxml_dataattr x ch)"
    unfolding yxml_datacontent_def yxml_datapi1_def yxml_datapi2_def yxml_datacd1_def yxml_datacd2_def yxml_dataattr_def
    by (rule step_okI [OF g]; simp add: p)+
qed

lemma ref_ok:
  assumes "good n x es xs"
  shows "step_ok n (yxml_refstart x ch)" "step_ok n (yxml_ref x ch)"
  using assms poke_data [of "y_data x" "y_reflen x" "uchar ch"]
  by (auto simp: yxml_refstart_def yxml_ref_def good_def base_def memset_eq intro!: step_okI [of _ _ es xs])

lemma digits_end: "NUL \<in> set r \<Longrightarrow> hex_digits r ch \<noteq> None" "NUL \<in> set r \<Longrightarrow> dec_digits_of r ch \<noteq> None"
proof -
  have "\<not> yxml_isHex 0" "\<not> yxml_isNum 0" by (simp_all add: yxml_isHex_def yxml_isNum_def)
  then show "NUL \<in> set r \<Longrightarrow> hex_digits r ch \<noteq> None" "NUL \<in> set r \<Longrightarrow> dec_digits_of r ch \<noteq> None"
    by (induction r arbitrary: ch) auto
qed

lemma utf8_data: "length d = 8 \<Longrightarrow> d ! 7 = NUL \<Longrightarrow> length (yxml_setutf8 d ch) = 8 \<and> yxml_setutf8 d ch ! 7 = NUL"
  by (simp add: yxml_setutf8_def Let_def memcpy_eq nth_append)

lemma refend_ok:
  assumes "good n x es xs"
  shows "step_ok n (yxml_refcontent x ch)" "step_ok n (yxml_refattrval x ch)"
proof -
  have d: "length (y_data x) = 8" "y_data x ! 7 = NUL" using assms by (simp_all add: good_def base_def)
  have "NUL \<in> set (drop i (y_data x))" if "i \<le> 7" for i
    using d that nth_mem [of "7 - i" "drop i (y_data x)"] by simp
  then have "hex_digits (drop 2 (y_data x)) 0 \<noteq> None" "dec_digits_of (drop 1 (y_data x)) 0 \<noteq> None"
    by (intro digits_end; simp)+
  then have "\<exists>c. ref_char (y_data x) = Some c" by (auto simp: ref_char_def)
  then obtain c where c: "ref_char (y_data x) = Some c" by auto
  have "good n (x\<lparr>y_data := yxml_setutf8 (y_data x) c\<rparr>) es xs"
    using assms utf8_data [OF d] by (simp add: good_def base_data)
  then show "step_ok n (yxml_refcontent x ch)" "step_ok n (yxml_refattrval x ch)"
    using assms by (auto simp: yxml_refcontent_def yxml_refattrval_def yxml_refend_def c intro!: step_okI)
qed

lemma push_base:
  assumes "base x es xs" and "y_stacklen x + 2 < 1024" and "uchar ch \<noteq> NUL"
  shows "holds_names (poke (poke (y_stack x) (Suc (y_stacklen x)) (uchar ch)) (Suc (Suc (y_stacklen x))) NUL)
    (Suc (Suc (y_stacklen x))) ((es @ xs) @ [[uchar ch]])"
  using assms by (intro holds_push) (simp_all add: base_def)

lemma start_ok:
  assumes b: "base x es []" and n: "y_stacklen x + 1 \<le> n" "n < 1023" and c: "uchar ch \<noteq> NUL"
  shows "y_state x = YXMLS_elem0 \<Longrightarrow> step_ok (Suc n) (yxml_elemstart x ch)"
    and "y_state x = YXMLS_attr0 \<Longrightarrow> es \<noteq> [] \<Longrightarrow> step_ok (Suc n) (yxml_attrstart x ch)"
    and "y_state x \<in> {YXMLS_pi1, YXMLS_xmldecl0} \<Longrightarrow> resting (y_nextstate x) \<Longrightarrow> inside (y_nextstate x) \<longrightarrow> es \<noteq> [] \<Longrightarrow>
      step_ok (Suc n) (yxml_pistart x ch)"
proof -
  have s: "y_stacksize x = 1024" "\<not> 1022 \<le> y_stacklen x" using b n by (simp_all add: base_def)
  note h = push_base [OF b _ c, simplified]
  have l: "Suc (length (layout es)) < length (layout (es @ [[uchar ch]]))" by (simp add: layout_snoc)
  have k: "Suc (y_stacklen x) = length (layout es)" using b holds_length by (auto simp: base_def)
  show "y_state x = YXMLS_elem0 \<Longrightarrow> step_ok (Suc n) (yxml_elemstart x ch)"
    using b n s h k l by (auto simp: yxml_elemstart_def yxml_pushstack_def Let_def good_def base_def shape_def
        intro!: step_okI [of _ _ "es @ [[uchar ch]]" "[]"])
  show "y_state x = YXMLS_attr0 \<Longrightarrow> es \<noteq> [] \<Longrightarrow> step_ok (Suc n) (yxml_attrstart x ch)"
    using b n s h by (auto simp: yxml_attrstart_def yxml_pushstack_def Let_def good_def base_def shape_def
        intro!: step_okI [of _ _ es "[[uchar ch]]"])
  show "y_state x \<in> {YXMLS_pi1, YXMLS_xmldecl0} \<Longrightarrow> resting (y_nextstate x) \<Longrightarrow> inside (y_nextstate x) \<longrightarrow> es \<noteq> [] \<Longrightarrow>
      step_ok (Suc n) (yxml_pistart x ch)"
    using b n s h
    by (auto simp: yxml_pistart_def yxml_pushstack_def Let_def good_def base_def shape_def
        intro!: step_okI [of _ _ es "[[uchar ch]]"])
qed

lemma name_char_ok:
  assumes n: "y_stacklen x \<le> n" "n < 1023" and c: "uchar ch \<noteq> NUL"
  shows "base x es [] \<Longrightarrow> es \<noteq> [] \<Longrightarrow> y_state x = YXMLS_elem0 \<Longrightarrow> step_ok (Suc n) (yxml_elemname x ch)"
    and "base x es xs \<Longrightarrow> xs \<noteq> [] \<Longrightarrow> es \<noteq> [] \<Longrightarrow> y_state x = YXMLS_attr0 \<Longrightarrow> length xs = 1 \<Longrightarrow> y_attr x \<le> y_stacklen x \<Longrightarrow>
      step_ok (Suc n) (yxml_attrname x ch)"
    and "base x es xs \<Longrightarrow> xs \<noteq> [] \<Longrightarrow> shape (y_state x) (y_nextstate x) es xs \<Longrightarrow> in_pi (y_state x) \<Longrightarrow> y_pi x \<le> y_stacklen x \<Longrightarrow>
      step_ok (Suc n) (yxml_piname x ch)"
proof -
  have s: "y_stacksize x = 1024" "\<not> 1023 \<le> y_stacklen x" if "base x es xs" for es xs using that n by (simp_all add: base_def)
  have h: "holds_names (poke (poke (y_stack x) (y_stacklen x) (uchar ch)) (Suc (y_stacklen x)) NUL) (Suc (y_stacklen x))
      (es @ butlast xs @ [last xs @ [uchar ch]])" if "base x es xs" "xs \<noteq> []" for es xs
    using holds_extend [of "y_stack x" "y_stacklen x" "es @ butlast xs" "last xs" "uchar ch"] that n c
    by (simp add: base_def)
  have h0: "holds_names (poke (poke (y_stack x) (y_stacklen x) (uchar ch)) (Suc (y_stacklen x)) NUL) (Suc (y_stacklen x))
      (butlast es @ [last es @ [uchar ch]])" if "base x es []" "es \<noteq> []" for es
    using holds_extend [of "y_stack x" "y_stacklen x" "butlast es" "last es" "uchar ch"] that n c
    by (simp add: base_def)
  have l: "length (layout es) < length (layout (butlast es @ [last es @ [uchar ch]]))" if "es \<noteq> []" for es
    using that by (cases es rule: rev_cases) (simp_all add: layout_snoc)
  show "base x es [] \<Longrightarrow> es \<noteq> [] \<Longrightarrow> y_state x = YXMLS_elem0 \<Longrightarrow> step_ok (Suc n) (yxml_elemname x ch)"
    using n s [of es "[]"] h0 [of es] l [of es]
    by (auto simp: yxml_elemname_def yxml_pushstackc_def Let_def good_def base_def shape_def
        intro!: step_okI [of _ _ "butlast es @ [last es @ [uchar ch]]" "[]"])
  show "base x es xs \<Longrightarrow> xs \<noteq> [] \<Longrightarrow> es \<noteq> [] \<Longrightarrow> y_state x = YXMLS_attr0 \<Longrightarrow> length xs = 1 \<Longrightarrow> y_attr x \<le> y_stacklen x \<Longrightarrow>
      step_ok (Suc n) (yxml_attrname x ch)"
    using n s [of es xs] h [of es xs]
    by (auto simp: yxml_attrname_def yxml_pushstackc_def Let_def good_def base_def shape_def
        intro!: step_okI [of _ _ es "butlast xs @ [last xs @ [uchar ch]]"])
  show "base x es xs \<Longrightarrow> xs \<noteq> [] \<Longrightarrow> shape (y_state x) (y_nextstate x) es xs \<Longrightarrow> in_pi (y_state x) \<Longrightarrow> y_pi x \<le> y_stacklen x \<Longrightarrow>
      step_ok (Suc n) (yxml_piname x ch)"
    using n s [of es xs] h [of es xs]
    by (auto simp: yxml_piname_def yxml_pushstackc_def Let_def good_def base_def shape_def in_pi_def before_name_def in_attr_def
        intro!: step_okI [of _ _ es "butlast xs @ [last xs @ [uchar ch]]"])
qed


lemma resting_plain: "resting st \<Longrightarrow> \<not> in_attr st \<and> \<not> in_pi st \<and> \<not> uses_next st \<and> \<not> before_name st"
  unfolding resting_def by (elim insertE emptyE) simp_all

lemma popstack_ok:
  assumes "base x es xs" and "xs = [a]"
  obtains j where "yxml_popstack x = Some (x\<lparr>y_stacklen := j\<rparr>)" "base (x\<lparr>y_stacklen := j\<rparr>) es []" "j < y_stacklen x"
  using assms holds_pop [of "y_stack x" "y_stacklen x" es a] by (auto simp: yxml_popstack_def base_def)

lemma pop_ok:
  assumes b: "base x es xs" and xs: "length xs = 1" and n: "y_stacklen x \<le> n"
  shows "y_state x = YXMLS_elem2 \<Longrightarrow> es \<noteq> [] \<Longrightarrow> step_ok n (yxml_attrvalend x ch)"
    and "y_state x = YXMLS_xmldecl3 \<Longrightarrow> step_ok n (yxml_piabort x ch)"
    and "resting (y_state x) \<Longrightarrow> inside (y_state x) \<longrightarrow> es \<noteq> [] \<Longrightarrow> step_ok n (yxml_pivalend x ch)"
proof -
  obtain a where a: "xs = [a]" using xs by (auto simp: length_Suc_conv)
  obtain j where j: "yxml_popstack x = Some (x\<lparr>y_stacklen := j\<rparr>)" "base (x\<lparr>y_stacklen := j\<rparr>) es []" "j < y_stacklen x"
    by (rule popstack_ok [OF b a])
  show "y_state x = YXMLS_elem2 \<Longrightarrow> es \<noteq> [] \<Longrightarrow> step_ok n (yxml_attrvalend x ch)"
    using j n by (auto simp: yxml_attrvalend_def good_def shape_def intro!: step_okI [of _ _ es "[]"])
  show "y_state x = YXMLS_xmldecl3 \<Longrightarrow> step_ok n (yxml_piabort x ch)"
    using j n by (auto simp: yxml_piabort_def good_def shape_def intro!: step_okI [of _ _ es "[]"])
  show "resting (y_state x) \<Longrightarrow> inside (y_state x) \<longrightarrow> es \<noteq> [] \<Longrightarrow> step_ok n (yxml_pivalend x ch)"
    using j n resting_plain [of "y_state x"]
    by (auto simp: yxml_pivalend_def good_def shape_def intro!: step_okI [of _ _ es "[]"])
qed

lemma close_ok:
  assumes b: "base x es []" and e: "es \<noteq> []" and n: "y_stacklen x \<le> n" and st: "y_state x \<in> {YXMLS_misc2, YXMLS_etag2}"
  shows "step_ok n (yxml_selfclose x ch)"
proof -
  obtain fs a where es: "es = fs @ [a]" using e by (cases es rule: rev_cases) auto
  obtain j where p: "pop_len (y_stack x) (y_stacklen x) = Some j" and h: "holds_names (y_stack x) j fs" and j: "j < y_stacklen x"
    using holds_pop [of "y_stack x" "y_stacklen x" fs a] b by (auto simp: base_def es)
  let ?x = "x\<lparr>y_stacklen := j\<rparr>"
  have pop: "yxml_popstack x = Some ?x" by (simp add: yxml_popstack_def p)
  have base: "base (?x\<lparr>y_elem := k\<rparr>) fs []" if "k \<le> j" for k
    using b h that holds_length [OF h] by (auto simp: base_def)
  show ?thesis
  proof (cases fs rule: rev_cases)
    case Nil
    then have "j = 0" using holds_length [OF h] by simp
    moreover have "good n (?x\<lparr>y_elem := 0, y_state := YXMLS_misc3\<rparr>) fs []"
      using base [of 0] by (simp add: good_def shape_def \<open>j = 0\<close>)
    ultimately show ?thesis using pop by (auto simp: yxml_selfclose_def intro!: step_okI)
  next
    case (snoc gs c)
    then have "j \<noteq> 0" using holds_length [OF h] by (simp add: layout_snoc)
    obtain k where k: "name_start (y_stack x) (j - 1) = Some k" "k \<le> j"
      using holds_name_start [of "y_stack x" j gs c] h snoc by auto
    have "good n (?x\<lparr>y_elem := k\<rparr>) fs []" using base [OF k(2)] st n j snoc by (auto simp: good_def shape_def)
    then show ?thesis using pop k \<open>j \<noteq> 0\<close> by (auto simp: yxml_selfclose_def intro!: step_okI)
  qed
qed

lemma stack_at_elem: "base x es xs \<Longrightarrow> stack_at x (y_elem x) = Some (y_stack x ! y_elem x)"
proof -
  assume b: "base x es xs"
  have "length (layout es) \<le> length (layout (es @ xs))" by (simp add: layout_def)
  moreover have "Suc (y_stacklen x) = length (layout (es @ xs))" "y_elem x < length (layout es)"
    using b holds_length [of "y_stack x" "y_stacklen x" "es @ xs"] by (simp_all add: base_def)
  ultimately have "y_elem x < 1024" using base_len(1) [OF b] by linarith
  then show ?thesis using base_len(2) [OF b] by (simp add: stack_at_def)
qed

lemma elemclose_ok:
  assumes b: "base x es []" and e: "es \<noteq> []" and n: "y_stacklen x \<le> n" and st: "y_state x = YXMLS_etag1" and c: "ch \<noteq> 0"
  shows "step_ok n (yxml_elemclose x ch)"
proof -
  have g: "good n x es []" using b e n st by (simp add: good_def shape_def)
  have "good n (x\<lparr>y_elem := y_elem x + 1\<rparr>) es []" if "u32c (y_stack x ! y_elem x) = ch"
  proof -
    have "y_elem x \<noteq> y_stacklen x" using that c b holds_end [of "y_stack x" "y_stacklen x" es] by (auto simp: base_def)
    moreover have "Suc (y_stacklen x) = length (layout es)" using b holds_length by (auto simp: base_def)
    ultimately have "base (x\<lparr>y_elem := y_elem x + 1\<rparr>) es []" using b by (simp add: base_def)
    then show ?thesis using g by (simp add: good_def)
  qed
  then show ?thesis using g stack_at_elem [OF b] by (auto simp: yxml_elemclose_def intro!: step_okI)
qed

lemma elemcloseend_ok:
  assumes b: "base x es []" and e: "es \<noteq> []" and n: "y_stacklen x \<le> n" and st: "y_state x \<in> {YXMLS_misc2, YXMLS_etag2}"
  shows "step_ok n (yxml_elemcloseend x ch)"
proof -
  have "good n x es []" using b e n st by (auto simp: good_def shape_def)
  then show ?thesis using close_ok [OF assms] stack_at_elem [OF b]
    by (auto simp: yxml_elemcloseend_def intro!: step_okI)
qed

lemma pinameend_ok:
  assumes g: "good n x es xs" and st: "in_pi (y_state x)"
  shows "step_ok n (yxml_pinameend x ch)"
proof -
  have b: "base x es xs" and p: "y_pi x \<le> y_stacklen x" using g st by (simp_all add: good_def)
  have z: "y_stack x ! y_stacklen x = NUL" using b holds_end by (auto simp: base_def)
  have at: "stack_at x i = Some (y_stack x ! i)" if "i \<le> y_stacklen x" for i
    using that base_len [OF b] by (simp add: stack_at_def)
  have more: "Suc i \<le> y_stacklen x" if "i \<le> y_stacklen x" "u32c (y_stack x ! i) OR 32 \<noteq> 32" for i
    using that z by (cases "i = y_stacklen x") auto
  have ok: "step_ok n (Some (t, x))" if "t \<noteq> YXML_ESTACK" for t by (rule step_okI [OF g that])
  let ?c = "\<lambda>i. u32c (y_stack x ! (y_pi x + i)) OR 32"
  consider "?c 0 \<noteq> u32c CHR ''x''" | "?c 0 = u32c CHR ''x''" "?c 1 \<noteq> u32c CHR ''m''"
    | "?c 0 = u32c CHR ''x''" "?c 1 = u32c CHR ''m''" "?c 2 \<noteq> u32c CHR ''l''"
    | "?c 0 = u32c CHR ''x''" "?c 1 = u32c CHR ''m''" "?c 2 = u32c CHR ''l''" by blast
  then show ?thesis
  proof cases
    case 1
    then show ?thesis using at [OF p] by (simp add: yxml_pinameend_def ok)
  next
    case 2
    then have "y_pi x + 1 \<le> y_stacklen x" using more [OF p] by simp
    then show ?thesis using 2 at [OF p] at [of "y_pi x + 1"] by (simp add: yxml_pinameend_def ok)
  next
    case 3
    then have 1: "y_pi x + 1 \<le> y_stacklen x" using more [OF p] by simp
    then have "y_pi x + 2 \<le> y_stacklen x" using 3 more [of "y_pi x + 1"] by simp
    then show ?thesis using 1 3 at [OF p] at [of "y_pi x + 1"] at [of "y_pi x + 2"] by (simp add: yxml_pinameend_def ok)
  next
    case 4
    then have 1: "y_pi x + 1 \<le> y_stacklen x" using more [OF p] by simp
    then have 2: "y_pi x + 2 \<le> y_stacklen x" using 4 more [of "y_pi x + 1"] by simp
    then have "y_pi x + 3 \<le> y_stacklen x" using 4 more [of "y_pi x + 2"] by simp
    then show ?thesis
      using 1 2 4 at [OF p] at [of "y_pi x + 1"] at [of "y_pi x + 2"] at [of "y_pi x + 3"] by (simp add: yxml_pinameend_def ok)
  qed
qed

lemma step_if: "step_ok n r \<Longrightarrow> step_ok n s \<Longrightarrow> step_ok n (if b then r else s)"
  by simp

lemma next_steps:
  assumes g: "good n x es xs"
  shows "y_state x = YXMLS_comment4 \<Longrightarrow> step_ok (Suc n) (y_comment4_step x ch)"
    and "y_state x = YXMLS_dt1 \<Longrightarrow> step_ok (Suc n) (y_dt1_step x ch)"
    and "y_state x = YXMLS_string \<Longrightarrow> step_ok (Suc n) (y_string_step x ch)"
  using g resting_plain [of "y_nextstate x"]
  by (auto simp: y_comment4_step_def y_dt1_step_def y_string_step_def good_def shape_def split: list.split
      intro!: step_okI [of _ _ es xs])

lemma data_steps:
  assumes g: "good n x es xs"
  shows "y_state x = YXMLS_cd0 \<Longrightarrow> step_ok (Suc n) (y_cd0_step x ch)"
    and "y_state x = YXMLS_cd1 \<Longrightarrow> step_ok (Suc n) (y_cd1_step x ch)"
    and "y_state x = YXMLS_cd2 \<Longrightarrow> step_ok (Suc n) (y_cd2_step x ch)"
    and "y_state x = YXMLS_misc2 \<Longrightarrow> step_ok (Suc n) (y_misc2_step x ch)"
    and "y_state x = YXMLS_misc2a \<Longrightarrow> step_ok (Suc n) (y_misc2a_step x ch)"
    and "y_state x = YXMLS_attr4 \<Longrightarrow> step_ok (Suc n) (y_attr4_step x ch)"
    and "y_state x = YXMLS_pi2 \<Longrightarrow> step_ok (Suc n) (y_pi2_step x ch)"
  using g good_mono [OF g, of "Suc n"]
  unfolding yxml_step_defs
  by (intro step_if step_okI [of _ _ es xs] data_ok [of _ _ es xs] ref_ok [of _ _ es xs] refend_ok [of _ _ es xs];
      simp add: good_def shape_def)+

lemma pop_steps:
  assumes g: "good n x es xs" and c: "ch \<noteq> 0"
  shows "y_state x = YXMLS_attr3 \<Longrightarrow> step_ok (Suc n) (y_attr3_step x ch)"
    and "y_state x = YXMLS_pi3 \<Longrightarrow> step_ok (Suc n) (y_pi3_step x ch)"
    and "y_state x = YXMLS_pi4 \<Longrightarrow> step_ok (Suc n) (y_pi4_step x ch)"
    and "y_state x = YXMLS_elem3 \<Longrightarrow> step_ok (Suc n) (y_elem3_step x ch)"
    and "y_state x = YXMLS_etag0 \<Longrightarrow> step_ok (Suc n) (y_etag0_step x ch)"
    and "y_state x = YXMLS_etag1 \<Longrightarrow> step_ok (Suc n) (y_etag1_step x ch)"
  using g good_mono [OF g, of "Suc n"] c
  unfolding yxml_step_defs
  by (intro step_if step_okI [of _ _ es xs] data_ok [of _ _ es xs] ref_ok [of _ _ es xs]
      pop_ok [of _ es xs] close_ok [of _ es] elemclose_ok [of _ es] elemcloseend_ok [of _ es];
      simp add: good_def shape_def)+

lemma name_steps:
  assumes g: "good n x es xs" and n: "n < 1023" and c: "uchar ch \<noteq> NUL"
  shows "y_state x = YXMLS_elem0 \<Longrightarrow> step_ok (Suc n) (y_elem0_step x ch)"
    and "y_state x = YXMLS_attr0 \<Longrightarrow> step_ok (Suc n) (y_attr0_step x ch)"
    and "y_state x = YXMLS_elem1 \<Longrightarrow> step_ok (Suc n) (y_elem1_step x ch)"
    and "y_state x = YXMLS_le0 \<Longrightarrow> step_ok (Suc n) (y_le0_step x ch)"
    and "y_state x = YXMLS_le1 \<Longrightarrow> step_ok (Suc n) (y_le1_step x ch)"
    and "y_state x = YXMLS_le2 \<Longrightarrow> step_ok (Suc n) (y_le2_step x ch)"
    and "y_state x = YXMLS_leq0 \<Longrightarrow> step_ok (Suc n) (y_leq0_step x ch)"
    and "y_state x = YXMLS_pi0 \<Longrightarrow> step_ok (Suc n) (y_pi0_step x ch)"
  using g good_mono [OF g, of "Suc n"] n c
  unfolding yxml_step_defs yxml_elemnameend_def yxml_attrnameend_def
  by (intro step_if step_okI [of _ _ es xs] start_ok [of _ es] name_char_ok(1) [of _ _ _ es] name_char_ok(2) [of _ _ _ es xs];
      auto simp: good_def shape_def)+

lemma pi_steps:
  assumes g: "good n x es xs" and n: "n < 1023" and c: "uchar ch \<noteq> NUL"
  shows "y_state x = YXMLS_pi1 \<Longrightarrow> step_ok (Suc n) (y_pi1_step x ch)"
    and "y_state x = YXMLS_xmldecl0 \<Longrightarrow> step_ok (Suc n) (y_xmldecl0_step x ch)"
    and "y_state x = YXMLS_xmldecl1 \<Longrightarrow> step_ok (Suc n) (y_xmldecl1_step x ch)"
    and "y_state x = YXMLS_xmldecl2 \<Longrightarrow> step_ok (Suc n) (y_xmldecl2_step x ch)"
  using g good_mono [OF g, of "Suc n"] n c
  unfolding yxml_step_defs
  by (intro step_if step_okI [of _ _ es xs] name_char_ok(3) [of _ _ _ es xs] pinameend_ok [of _ _ es xs] pop_ok(2) [of _ es xs];
      auto simp: good_def shape_def)+

lemma quiet_steps:
  assumes g: "good n x es xs"
  shows "y_state x = YXMLS_attr1 \<Longrightarrow> step_ok (Suc n) (y_attr1_step x ch)"
    and "y_state x = YXMLS_attr2 \<Longrightarrow> step_ok (Suc n) (y_attr2_step x ch)"
    and "y_state x = YXMLS_comment0 \<Longrightarrow> step_ok (Suc n) (y_comment0_step x ch)"
    and "y_state x = YXMLS_comment1 \<Longrightarrow> step_ok (Suc n) (y_comment1_step x ch)"
    and "y_state x = YXMLS_comment2 \<Longrightarrow> step_ok (Suc n) (y_comment2_step x ch)"
    and "y_state x = YXMLS_comment3 \<Longrightarrow> step_ok (Suc n) (y_comment3_step x ch)"
    and "y_state x = YXMLS_dt0 \<Longrightarrow> step_ok (Suc n) (y_dt0_step x ch)"
    and "y_state x = YXMLS_dt2 \<Longrightarrow> step_ok (Suc n) (y_dt2_step x ch)"
    and "y_state x = YXMLS_dt3 \<Longrightarrow> step_ok (Suc n) (y_dt3_step x ch)"
    and "y_state x = YXMLS_dt4 \<Longrightarrow> step_ok (Suc n) (y_dt4_step x ch)"
    and "y_state x = YXMLS_elem2 \<Longrightarrow> step_ok (Suc n) (y_elem2_step x ch)"
    and "y_state x = YXMLS_enc0 \<Longrightarrow> step_ok (Suc n) (y_enc0_step x ch)"
    and "y_state x = YXMLS_enc1 \<Longrightarrow> step_ok (Suc n) (y_enc1_step x ch)"
    and "y_state x = YXMLS_enc2 \<Longrightarrow> step_ok (Suc n) (y_enc2_step x ch)"
    and "y_state x = YXMLS_enc3 \<Longrightarrow> step_ok (Suc n) (y_enc3_step x ch)"
    and "y_state x = YXMLS_etag2 \<Longrightarrow> step_ok (Suc n) (y_etag2_step x ch)"
    and "y_state x = YXMLS_init \<Longrightarrow> step_ok (Suc n) (y_init_step x ch)"
    and "y_state x = YXMLS_le3 \<Longrightarrow> step_ok (Suc n) (y_le3_step x ch)"
    and "y_state x = YXMLS_lee1 \<Longrightarrow> step_ok (Suc n) (y_lee1_step x ch)"
    and "y_state x = YXMLS_lee2 \<Longrightarrow> step_ok (Suc n) (y_lee2_step x ch)"
    and "y_state x = YXMLS_misc0 \<Longrightarrow> step_ok (Suc n) (y_misc0_step x ch)"
    and "y_state x = YXMLS_misc1 \<Longrightarrow> step_ok (Suc n) (y_misc1_step x ch)"
    and "y_state x = YXMLS_misc3 \<Longrightarrow> step_ok (Suc n) (y_misc3_step x ch)"
    and "y_state x = YXMLS_std0 \<Longrightarrow> step_ok (Suc n) (y_std0_step x ch)"
    and "y_state x = YXMLS_std1 \<Longrightarrow> step_ok (Suc n) (y_std1_step x ch)"
    and "y_state x = YXMLS_std2 \<Longrightarrow> step_ok (Suc n) (y_std2_step x ch)"
    and "y_state x = YXMLS_std3 \<Longrightarrow> step_ok (Suc n) (y_std3_step x ch)"
    and "y_state x = YXMLS_ver0 \<Longrightarrow> step_ok (Suc n) (y_ver0_step x ch)"
    and "y_state x = YXMLS_ver1 \<Longrightarrow> step_ok (Suc n) (y_ver1_step x ch)"
    and "y_state x = YXMLS_ver2 \<Longrightarrow> step_ok (Suc n) (y_ver2_step x ch)"
    and "y_state x = YXMLS_ver3 \<Longrightarrow> step_ok (Suc n) (y_ver3_step x ch)"
    and "y_state x = YXMLS_xmldecl3 \<Longrightarrow> step_ok (Suc n) (y_xmldecl3_step x ch)"
    and "y_state x = YXMLS_xmldecl4 \<Longrightarrow> step_ok (Suc n) (y_xmldecl4_step x ch)"
    and "y_state x = YXMLS_xmldecl5 \<Longrightarrow> step_ok (Suc n) (y_xmldecl5_step x ch)"
    and "y_state x = YXMLS_xmldecl6 \<Longrightarrow> step_ok (Suc n) (y_xmldecl6_step x ch)"
    and "y_state x = YXMLS_xmldecl7 \<Longrightarrow> step_ok (Suc n) (y_xmldecl7_step x ch)"
    and "y_state x = YXMLS_xmldecl8 \<Longrightarrow> step_ok (Suc n) (y_xmldecl8_step x ch)"
    and "y_state x = YXMLS_xmldecl9 \<Longrightarrow> step_ok (Suc n) (y_xmldecl9_step x ch)"
  using g unfolding yxml_step_defs
  by (intro step_if step_okI [of _ _ es xs]; simp add: good_def shape_def)+


subsection \<open>The tokenizer\<close>

lemma switch_ok:
  assumes "good n x es xs" and "n < 1023" and "uchar ch \<noteq> NUL" and "ch \<noteq> 0"
  shows "step_ok (Suc n) (yxml_switch x ch)"
  using quiet_steps [OF assms(1)] next_steps [OF assms(1)] data_steps [OF assms(1)] pop_steps [OF assms(1,4)]
    name_steps [OF assms(1-3)] pi_steps [OF assms(1-3)]
  by (cases "y_state x") (simp_all only: yxml_switch_def yxml_state_t.case)

lemma uchar_u32c [simp]: "uchar (u32c c) = c"
proof -
  have "unat (u32c c) = of_char c"
    by (simp add: unat_of_nat of_char_def flip: of_nat_of_char) 
  then show ?thesis by (simp add: uchar_def)
qed

lemma u32c_eq_0: "u32c c = 0 \<longleftrightarrow> c = NUL"
proof
  assume "u32c c = 0"
  then have "uchar (u32c c) = uchar (u32c NUL)" by simp
  then show "c = NUL" by (simp only: uchar_u32c)
qed simp

lemma yxml_parse_ok:
  assumes "good n x es xs" and "n < 1023"
  shows "step_ok (Suc n) (yxml_parse x c)"
proof (cases "c = NUL")
  case False
  define ch where "ch = (if u32c c = 0xa \<or> u32c c = 0xd then 0xa else u32c c)"
  have "uchar 0xa \<noteq> NUL" using uchar_u32c [of "CHR 0x0A"] by simp
  then have ch: "uchar ch \<noteq> NUL" "ch \<noteq> 0" using False by (auto simp: ch_def u32c_eq_0)
  have sw: "step_ok (Suc n) (yxml_switch y ch)" if "good n y es xs" for y by (rule switch_ok [OF that assms(2) ch])
  have "good (Suc n) (x\<lparr>y_total := t, y_ignore := i\<rparr>) es xs" for t i using good_mono [OF assms(1)] by simp
  note ok = step_okI [OF this, of YXML_OK]
  show ?thesis unfolding yxml_parse_def Let_def ch_def [symmetric]
    using False assms(1) ok by (auto simp: u32c_eq_0 intro!: sw)
qed (use step_okI [OF good_mono [OF assms(1)]] in \<open>simp add: yxml_parse_def\<close>)

text \<open>Feeding bytes and ignoring what is reported, as the stanza parser does.\<close>

fun yxml_feed :: "string \<Rightarrow> yxml_t \<Rightarrow> yxml_t option" where
  "yxml_feed [] x = Some x"
| "yxml_feed (c # cs) x = do { (r, x') \<leftarrow> yxml_parse x c; yxml_feed cs x' }"

lemma yxml_feed_append: "yxml_feed (a @ b) x = do { x' \<leftarrow> yxml_feed a x; yxml_feed b x' }"
  by (induction a arbitrary: x) (auto split: Option.bind_splits)

lemma good_init: "length stack = 1024 \<Longrightarrow> good 0 (yxml_init stack 1024) [] []"
  by (simp add: good_def base_def shape_def yxml_init_def holds_names_def poke_def zbuf_def)

lemma yxml_feed_ok: "good n x es xs \<Longrightarrow> n + length cs \<le> 1023 \<Longrightarrow> \<exists>x' es' xs'. yxml_feed cs x = Some x' \<and> good (n + length cs) x' es' xs'"
proof (induction cs arbitrary: n x es xs)
  case (Cons c cs)
  then obtain t y es' xs' where "yxml_parse x c = Some (t, y)" "good (Suc n) y es' xs'"
    using yxml_parse_ok [of n x es xs c] by (auto simp: step_ok_def)
  then show ?case using Cons.IH [of "Suc n" y es' xs'] Cons.prems by simp
qed auto

subsection \<open>A name that fills the stack\<close>

text \<open>Reading on in a name.\<close>

lemma feed_name:
  assumes "y_state x = YXMLS_elem0" and "y_ignore x = 0" and "y_stacksize x = 1024"
    and "holds_names (y_stack x) (y_stacklen x) [n]" and "y_stacklen x + k < 1024"
  shows "\<exists>x'. yxml_feed (replicate k CHR ''a'') x = Some x' \<and> y_state x' = YXMLS_elem0 \<and> y_ignore x' = 0 \<and>
    y_stacksize x' = 1024 \<and> holds_names (y_stack x') (y_stacklen x') [n @ replicate k CHR ''a''] \<and>
    y_stacklen x' = y_stacklen x + k"
  using assms
proof (induction k arbitrary: x n)
  case (Suc k)
  let ?y = "x\<lparr>y_total := y_total x + 1, y_ignore := 0, y_byte := y_byte x + 1,
    y_stack := poke (poke (y_stack x) (y_stacklen x) CHR ''a'') (Suc (y_stacklen x)) NUL, y_stacklen := Suc (y_stacklen x)\<rparr>"
  have "yxml_isName (u32c CHR ''a'')" by (simp add: yxml_isName_def yxml_isNameStart_def yxml_isAlpha_def)
  moreover have "uchar 97 = CHR ''a''" using uchar_u32c [of "CHR ''a''"] by simp
  ultimately have step: "yxml_parse x CHR ''a'' = Some (YXML_OK, ?y)"
    using Suc.prems by (simp add: yxml_parse_def yxml_switch_def y_elem0_step_def yxml_elemname_def yxml_pushstackc_def Let_def)
  have "holds_names (y_stack ?y) (y_stacklen ?y) [n @ ''a'']"
    using holds_extend [of "y_stack x" "y_stacklen x" "[]" n "CHR ''a''"] Suc.prems by simp
  then show ?case using Suc.IH [of ?y "n @ ''a''"] Suc.prems step by simp
qed simp

lemmas yxml_class_defs = yxml_isSP_def yxml_isName_def yxml_isNameStart_def yxml_isAlpha_def yxml_isNum_def
  yxml_isAttValue_def yxml_isChar_def

text \<open>With a name of 1021 bytes the stack has no room for the name of an attribute: the push fails, the
  error is ignored, and the end of the value pops the name of the element instead.\<close>

lemma feed_overrun:
  assumes "length stack = 1024"
  shows "yxml_feed (''<a'' @ replicate 1020 CHR ''a'' @ '' b='c'/>'') (yxml_init stack 1024) = None"
proof -
  have u: "uchar 97 = CHR ''a''" "uchar 99 = CHR ''c''" using uchar_u32c [of "CHR ''a''"] uchar_u32c [of "CHR ''c''"] by simp_all
  obtain x where x: "yxml_feed ''<a'' (yxml_init stack 1024) = Some x" "y_state x = YXMLS_elem0" "y_ignore x = 0"
    "y_stacksize x = 1024" "y_stack x = poke (poke (poke stack 0 NUL) (Suc 0) CHR ''a'') (Suc (Suc 0)) NUL" "y_stacklen x = Suc (Suc 0)"
    by (simp add: yxml_parse_def yxml_switch_def yxml_init_def y_init_step_def y_le0_step_def yxml_elemstart_def
        yxml_pushstack_def yxml_class_defs Let_def u)
  have "holds_names (poke stack 0 NUL) 0 []" using assms by (simp add: holds_names_def poke_def)
  then have "holds_names (y_stack x) (y_stacklen x) [''a'']"
    using holds_push [of "poke stack 0 NUL" 0 "[]" "CHR ''a''"] x by simp
  then obtain y where y: "yxml_feed (replicate 1020 CHR ''a'') x = Some y" "y_state y = YXMLS_elem0" "y_ignore y = 0"
    "y_stacksize y = 1024" "holds_names (y_stack y) (y_stacklen y) [''a'' @ replicate 1020 CHR ''a'']" "y_stacklen y = 1022"
    using feed_name [of x "''a''" 1020] x by auto
  have pop: "pop_len (y_stack y) 1022 = Some 0"
    using holds_pop [of "y_stack y" 1022 "[]" "''a'' @ replicate 1020 CHR ''a''"] holds_length [of "y_stack y" _ "[]"] y by fastforce
  have "yxml_feed '' b='c'/>'' y = None"
    using y pop
    by (simp add: yxml_parse_def yxml_switch_def y_elem0_step_def y_elem1_step_def y_attr0_step_def y_attr2_step_def
        y_attr3_step_def y_elem2_step_def y_elem3_step_def yxml_elemnameend_def yxml_attrstart_def yxml_pushstack_def
        yxml_attrnameend_def yxml_dataattr_def yxml_attrvalend_def yxml_popstack_def yxml_selfclose_def yxml_class_defs Let_def)
  then show ?thesis using x(1) y(1) by (simp only: yxml_feed_append bind.bind_lunit append_assoc)
qed

end
