(* ===== verification/Scan.thy ===== *)
theory Scan
  imports Libc
begin

text \<open>
  The stanza framing of \<^verbatim>\<open>src/src/xmpp/yxml_sse.c\<close>: the search for the end of the first
  complete stanza in the receive buffer, in its three implementations.  The bytes from \<open>p\<close> to
  \<open>end\<close> are a list, \<open>pos\<close> is \<open>p - xml\<close>, and -1 is the code's "no complete stanza yet".
  The reference is a tree printer: a printed element is framed exactly at its own end.
\<close>

definition XML_NEEDLE :: "char list" where
  "XML_NEEDLE = ''<>/!?'' @ replicate 11 NUL"

text \<open>\<open>_mm_cmpistri\<close> with \<open>_SIDD_CMP_EQUAL_ANY | _SIDD_LEAST_SIGNIFICANT\<close>: both operands end
  at their first NUL; the result is the first index of \<open>b\<close> holding a byte of \<open>a\<close>, or 16.\<close>

definition cmpistri :: "char list \<Rightarrow> char list \<Rightarrow> nat" where
  "cmpistri a b =
     (case first_index (length (cstr b)) (\<lambda>i. cstr b ! i \<in> set (cstr a)) of
        Some i \<Rightarrow> i | None \<Rightarrow> 16)"

lemma memchr_less [simp]: "memchr s c (length s) = Some g \<Longrightarrow> g < length s"
  by (simp add: memchr_Some)

function scan_scalar :: "char list \<Rightarrow> nat \<Rightarrow> int \<Rightarrow> int" where
  "scan_scalar s pos depth =
     (if s = [] then -1
      else if hd s \<noteq> CHR ''<'' then scan_scalar (tl s) (pos + 1) depth
      else if tl s \<noteq> [] \<and> (hd (tl s) = CHR ''?'' \<or> hd (tl s) = CHR ''!'') then
        (case memchr s CHR ''>'' (length s) of
           None \<Rightarrow> -1
         | Some gt \<Rightarrow> scan_scalar (drop (gt + 1) s) (pos + gt + 1) depth)
      else if tl s \<noteq> [] \<and> hd (tl s) = CHR ''/'' then
        (case memchr s CHR ''>'' (length s) of
           None \<Rightarrow> -1
         | Some gt \<Rightarrow>
             if depth - 1 = 0 then int (pos + gt + 1)
             else scan_scalar (drop (gt + 1) s) (pos + gt + 1) (depth - 1))
      else
        (case memchr s CHR ''>'' (length s) of
           None \<Rightarrow> -1
         | Some gt \<Rightarrow>
             if s ! (gt - 1) = CHR ''/'' then
               (if depth = 0 then int (pos + gt + 1)
                else scan_scalar (drop (gt + 1) s) (pos + gt + 1) depth)
             else scan_scalar (drop (gt + 1) s) (pos + gt + 1) (depth + 1)))"
  by pat_completeness auto
termination
  by (relation "measure (\<lambda>(s, pos, depth). length s)") auto

definition find_stanza_end_scalar :: "char list \<Rightarrow> int" where
  "find_stanza_end_scalar xml = scan_scalar xml 0 0"

text \<open>The SSE4.2 loop: a 16-byte step over text without any of the needle's characters, then
  the same decisions at the byte found.\<close>

function scan_sse :: "char list \<Rightarrow> nat \<Rightarrow> int \<Rightarrow> int" where
  "scan_sse s0 pos0 depth =
     (if s0 = [] then -1
      else
        let idx = (if length s0 \<ge> 16 then cmpistri XML_NEEDLE (take 16 s0) else 0) in
        if idx = 16 then scan_sse (drop 16 s0) (pos0 + 16) depth
        else
          let s = drop idx s0; pos = pos0 + idx in
          if deref s \<noteq> CHR ''<'' then scan_sse (drop (idx + 1) s0) (pos + 1) depth
          else if length s < 2 then -1
          else if hd (tl s) = CHR ''?'' \<or> hd (tl s) = CHR ''!'' then
            (case memchr s CHR ''>'' (length s) of
               None \<Rightarrow> -1
             | Some gt \<Rightarrow> scan_sse (drop (idx + gt + 1) s0) (pos + gt + 1) depth)
          else if hd (tl s) = CHR ''/'' then
            (case memchr s CHR ''>'' (length s) of
               None \<Rightarrow> -1
             | Some gt \<Rightarrow>
                 if depth - 1 = 0 then int (pos + gt + 1)
                 else scan_sse (drop (idx + gt + 1) s0) (pos + gt + 1) (depth - 1))
          else
            (case memchr s CHR ''>'' (length s) of
               None \<Rightarrow> -1
             | Some gt \<Rightarrow>
                 if s ! (gt - 1) = CHR ''/'' then
                   (if depth = 0 then int (pos + gt + 1)
                    else scan_sse (drop (idx + gt + 1) s0) (pos + gt + 1) depth)
                 else scan_sse (drop (idx + gt + 1) s0) (pos + gt + 1) (depth + 1)))"
  by pat_completeness auto
termination
  by (relation "measure (\<lambda>(s, pos, depth). length s)") auto

definition find_stanza_end_sse :: "char list \<Rightarrow> int" where
  "find_stanza_end_sse xml = scan_sse xml 0 0"

text \<open>The choice made once, on the CPU's SSE4.2 bit.\<close>

definition find_stanza_end_dispatch :: "bool \<Rightarrow> char list \<Rightarrow> int" where
  "find_stanza_end_dispatch has_sse42 xml =
     (if has_sse42 then find_stanza_end_sse xml else find_stanza_end_scalar xml)"

text \<open>The build without SSE4.2: the closing bracket is searched by a loop from \<open>p + 1\<close>.\<close>

fun find_gt :: "char list \<Rightarrow> nat option" where
  "find_gt [] = None"
| "find_gt (c # s) = (if c \<noteq> CHR ''>'' then map_option Suc (find_gt s) else Some 0)"

lemma find_gt_less: "find_gt s = Some g \<Longrightarrow> g < length s"
  by (induction s arbitrary: g) (auto split: if_splits)

function scan_portable :: "char list \<Rightarrow> nat \<Rightarrow> int \<Rightarrow> int" where
  "scan_portable s pos depth =
     (if s = [] then -1
      else if hd s \<noteq> CHR ''<'' then scan_portable (tl s) (pos + 1) depth
      else if tl s \<noteq> [] \<and> (hd (tl s) = CHR ''?'' \<or> hd (tl s) = CHR ''!'') then
        (case find_gt (tl s) of
           None \<Rightarrow> -1
         | Some k \<Rightarrow> scan_portable (drop (k + 2) s) (pos + k + 2) depth)
      else if tl s \<noteq> [] \<and> hd (tl s) = CHR ''/'' then
        (case find_gt (tl s) of
           None \<Rightarrow> -1
         | Some k \<Rightarrow>
             if depth - 1 = 0 then int (pos + k + 2)
             else scan_portable (drop (k + 2) s) (pos + k + 2) (depth - 1))
      else
        (case find_gt (tl s) of
           None \<Rightarrow> -1
         | Some k \<Rightarrow>
             if s ! k = CHR ''/'' then
               (if depth = 0 then int (pos + k + 2)
                else scan_portable (drop (k + 2) s) (pos + k + 2) depth)
             else scan_portable (drop (k + 2) s) (pos + k + 2) (depth + 1)))"
  by pat_completeness auto
termination
  by (relation "measure (\<lambda>(s, pos, depth). length s)") (auto dest: find_gt_less)

definition find_stanza_end_portable :: "char list \<Rightarrow> int" where
  "find_stanza_end_portable xml = scan_portable xml 0 0"

declare scan_scalar.simps [simp del] scan_sse.simps [simp del] scan_portable.simps [simp del]

subsection \<open>One step of the scan\<close>

text \<open>What a tag does to the nesting depth: \<open>None\<close> when the stanza ends with it.  \<open>r\<close> is the
  text after the opening bracket and \<open>k\<close> the place of the closing one in it.\<close>

definition tag_depth :: "char list \<Rightarrow> nat \<Rightarrow> int \<Rightarrow> int option" where
  "tag_depth r k depth =
     (if hd r = CHR ''?'' \<or> hd r = CHR ''!'' then Some depth
      else if hd r = CHR ''/'' then (if depth = 1 then None else Some (depth - 1))
      else if (CHR ''<'' # r) ! k = CHR ''/'' then (if depth = 0 then None else Some depth)
      else Some (depth + 1))"

lemma find_gt_memchr: "find_gt s = memchr s CHR ''>'' (length s)"
  by (induction s) auto

lemma memchr_gt: "memchr (CHR ''<'' # r) CHR ''>'' (Suc (length r)) = map_option Suc (find_gt r)"
  by (simp add: find_gt_memchr)

lemma find_gt_Some: "find_gt s = Some k \<longleftrightarrow> k < length s \<and> s ! k = CHR ''>'' \<and> (\<forall>j<k. s ! j \<noteq> CHR ''>'')"
  by (simp add: find_gt_memchr memchr_Some)

lemma find_gt_append [simp]: "find_gt s = Some k \<Longrightarrow> find_gt (s @ t) = Some k"
  by (auto simp: find_gt_Some nth_append)

lemma scan_scalar_nil [simp]: "scan_scalar [] pos depth = -1"
  by (simp add: scan_scalar.simps)

lemma scan_scalar_text [simp]:
  "c \<noteq> CHR ''<'' \<Longrightarrow> scan_scalar (c # r) pos depth = scan_scalar r (Suc pos) depth"
  by (simp add: scan_scalar.simps [of "c # r"])

lemma scan_scalar_tag:
  "scan_scalar (CHR ''<'' # r) pos depth =
     (case find_gt r of None \<Rightarrow> -1
      | Some k \<Rightarrow> (case tag_depth r k depth of
            None \<Rightarrow> int (pos + k + 2)
          | Some d \<Rightarrow> scan_scalar (drop (Suc k) r) (pos + k + 2) d))"
proof (cases "find_gt r")
  case None
  then show ?thesis
    by (cases "r = []")
      (simp add: scan_scalar.simps [of "''<''"],
       simp add: scan_scalar.simps [of "CHR ''<'' # r"] memchr_gt del: memchr.simps)
next
  case (Some k)
  then have "r \<noteq> []" by auto
  with Some show ?thesis
    by (simp add: scan_scalar.simps [of "CHR ''<'' # r"] memchr_gt tag_depth_def del: memchr.simps)
qed

subsection \<open>The three implementations agree\<close>

lemma scan_portable_tag:
  "scan_portable (CHR ''<'' # r) pos depth =
     (case find_gt r of None \<Rightarrow> -1
      | Some k \<Rightarrow> (case tag_depth r k depth of
            None \<Rightarrow> int (pos + k + 2)
          | Some d \<Rightarrow> scan_portable (drop (Suc k) r) (pos + k + 2) d))"
proof (cases "find_gt r")
  case None
  then show ?thesis
    by (cases "r = []") (simp_all add: scan_portable.simps [of "CHR ''<'' # _"])
next
  case (Some k)
  then have "r \<noteq> []" by auto
  with Some show ?thesis
    by (simp add: scan_portable.simps [of "CHR ''<'' # r"] tag_depth_def)
qed

lemma scan_portable_eq: "scan_portable s pos depth = scan_scalar s pos depth"
proof (induction s arbitrary: pos depth rule: measure_induct_rule [of length])
  case (less s)
  show ?case
  proof (cases s)
    case Nil
    then show ?thesis by (simp add: scan_portable.simps)
  next
    case (Cons c r)
    have IH: "scan_portable (drop n r) q d = scan_scalar (drop n r) q d" for n q d
      using less.IH Cons by simp
    show ?thesis
    proof (cases "c = CHR ''<''")
      case True
      then show ?thesis by (simp add: Cons scan_portable_tag scan_scalar_tag IH split: option.split)
    next
      case False
      then show ?thesis using IH [of 0] by (simp add: Cons scan_portable.simps [of "c # r"])
    qed
  qed
qed

lemma scan_scalar_skip:
  "CHR ''<'' \<notin> set (take k s) \<Longrightarrow> k \<le> length s \<Longrightarrow>
     scan_scalar s pos depth = scan_scalar (drop k s) (pos + k) depth"
proof (induction k arbitrary: s pos)
  case (Suc k)
  then obtain c r where s: "s = c # r" by (cases s) auto
  with Suc.prems have "c \<noteq> CHR ''<''" by auto
  with s Suc.prems Suc.IH [of r "Suc pos"] show ?case by simp
qed simp

lemma cmpistri_needle:
  assumes "NUL \<notin> set b" and "length b = 16"
  shows "cmpistri XML_NEEDLE b \<le> 16 \<and> CHR ''<'' \<notin> set (take (cmpistri XML_NEEDLE b) b)"
proof -
  have b: "cstr b = b" using assms by (simp add: cstr_NUL_free)
  have lt: "CHR ''<'' \<in> set (cstr XML_NEEDLE)" by (simp add: XML_NEEDLE_def)
  consider i where "first_index 16 (\<lambda>i. b ! i \<in> set (cstr XML_NEEDLE)) = Some i"
      "cmpistri XML_NEEDLE b = i"
    | "first_index 16 (\<lambda>i. b ! i \<in> set (cstr XML_NEEDLE)) = None" "cmpistri XML_NEEDLE b = 16"
    using assms by (auto simp: cmpistri_def b split: option.splits)
  then have "cmpistri XML_NEEDLE b \<le> 16 \<and> (\<forall>j < cmpistri XML_NEEDLE b. b ! j \<noteq> CHR ''<'')"
    by cases (use lt in \<open>auto simp: first_index_Some first_index_None\<close>)
  then show ?thesis
    using assms(2) by (auto simp: in_set_conv_nth)
qed

definition sse_skip :: "char list \<Rightarrow> nat" where
  "sse_skip s = (if length s \<ge> 16 then cmpistri XML_NEEDLE (take 16 s) else 0)"

lemma sse_skip:
  assumes "NUL \<notin> set s"
  shows "sse_skip s \<le> 16 \<and> sse_skip s \<le> length s \<and> CHR ''<'' \<notin> set (take (sse_skip s) s)"
proof (cases "16 \<le> length s")
  case True
  let ?k = "cmpistri XML_NEEDLE (take 16 s)"
  have "NUL \<notin> set (take 16 s)" using assms by (meson in_set_takeD)
  then have k: "?k \<le> 16" "CHR ''<'' \<notin> set (take ?k (take 16 s))"
    using True cmpistri_needle [of "take 16 s"] by auto
  moreover from k(1) have "take ?k (take 16 s) = take ?k s" by (simp add: min_absorb1)
  ultimately show ?thesis using True by (simp add: sse_skip_def)
qed (simp add: sse_skip_def)

lemma scan_sse_nil [simp]: "scan_sse [] pos depth = -1"
  by (simp add: scan_sse.simps)

lemma scan_sse_tag:
  assumes "drop (sse_skip s) s = CHR ''<'' # r" and "sse_skip s \<noteq> 16"
  shows "scan_sse s pos depth =
     (case find_gt r of None \<Rightarrow> -1
      | Some k \<Rightarrow> (case tag_depth r k depth of
            None \<Rightarrow> int (pos + sse_skip s + k + 2)
          | Some d \<Rightarrow> scan_sse (drop (sse_skip s + k + 2) s) (pos + sse_skip s + k + 2) d))"
proof -
  have "s \<noteq> []" using assms by auto
  note eq = scan_sse.simps [of s pos depth, folded sse_skip_def, unfolded Let_def assms(1)]
  show ?thesis
  proof (cases "find_gt r")
    case None
    with \<open>s \<noteq> []\<close> assms show ?thesis
      by (simp add: eq memchr_gt del: memchr.simps)
  next
    case (Some k)
    then have "r \<noteq> []" by auto
    with Some \<open>s \<noteq> []\<close> assms show ?thesis
      by (simp add: eq memchr_gt tag_depth_def del: memchr.simps)
  qed
qed

lemma scan_sse_eq: "NUL \<notin> set s \<Longrightarrow> scan_sse s pos depth = scan_scalar s pos depth"
proof (induction s arbitrary: pos depth rule: measure_induct_rule [of length])
  case (less s)
  let ?k = "sse_skip s"
  have IH: "scan_sse (drop n s) q d = scan_scalar (drop n s) q d" if "0 < n" "s \<noteq> []" for n q d
    using that less.IH [of "drop n s"] less.prems by (auto dest: in_set_dropD)
  note eq = scan_sse.simps [of s pos depth, folded sse_skip_def, unfolded Let_def]
  note skip = sse_skip [OF less.prems]
  have sca: "scan_scalar s pos depth = scan_scalar (drop ?k s) (pos + ?k) depth"
    using skip scan_scalar_skip by blast
  consider "s = []" | "s \<noteq> []" "?k = 16" | r where "?k \<noteq> 16" "drop ?k s = CHR ''<'' # r" |
    c r where "?k \<noteq> 16" "c \<noteq> CHR ''<''" "drop ?k s = c # r" | "s \<noteq> []" "?k \<noteq> 16" "drop ?k s = []"
    by (cases "drop ?k s") auto
  then show ?case
  proof cases
    case 1
    then show ?thesis by simp
  next
    case 2
    with IH [of 16] show ?thesis by (simp add: eq sca)
  next
    case 3
    have dr: "drop (?k + k + 2) s = drop (Suc k) r" for k
      using 3(2) drop_drop [of "k + 2" ?k s] by (simp add: add.commute add.left_commute)
    moreover have "s \<noteq> []" using 3 by auto
    ultimately have "scan_sse (drop (Suc k) r) q d = scan_scalar (drop (Suc k) r) q d" for k q d
      using IH [of "?k + k + 2"] by simp
    then show ?thesis
      unfolding scan_sse_tag [OF 3(2,1)] dr sca 3(2) scan_scalar_tag by (simp split: option.split)
  next
    case 4
    have "drop (Suc ?k) s = r" "s \<noteq> []" using 4(3) by (auto simp: drop_Suc tl_drop [symmetric])
    with 4 IH [of "Suc ?k"] show ?thesis by (simp add: eq sca)
  next
    case 5
    with skip have "?k = length s" by auto
    with 5 show ?thesis by (simp add: eq sca)
  qed
qed

subsection \<open>Framing does not depend on how the stream is cut\<close>

lemma tag_step_take:
  assumes "find_gt r = Some k"
  shows "find_gt (take (Suc k) r @ t) = Some k"
    and "tag_depth (take (Suc k) r @ t) k depth = tag_depth r k depth"
proof -
  have k: "k < length r" using assms by (simp add: find_gt_Some)
  with assms show "find_gt (take (Suc k) r @ t) = Some k"
    by (auto simp: find_gt_Some nth_append)
  show "tag_depth (take (Suc k) r @ t) k depth = tag_depth r k depth"
    using k by (cases r) (auto simp: tag_depth_def nth_Cons' nth_append)
qed

lemma scan_scalar_prefix:
  assumes "scan_scalar s pos depth = v" and "v \<noteq> -1"
  shows "\<exists>n. v = int (pos + n) \<and> 0 < n \<and> n \<le> length s \<and> s ! (n - 1) = CHR ''>'' \<and>
    (\<forall>t. scan_scalar (take n s @ t) pos depth = v)"
  using assms
proof (induction s arbitrary: pos depth rule: measure_induct_rule [of length])
  case (less s)
  obtain c r where s: "s = c # r" using less.prems by (cases s) auto
  show ?case
  proof (cases "c = CHR ''<''")
    case False
    then obtain n where "v = int (Suc pos + n)" "0 < n" "n \<le> length r" "r ! (n - 1) = CHR ''>''"
      "\<forall>t. scan_scalar (take n r @ t) (Suc pos) depth = v"
      using less.IH [of r "Suc pos" depth] less.prems s by auto
    with False show ?thesis by (intro exI [of _ "Suc n"]) (simp add: s)
  next
    case True
    then obtain k where k: "find_gt r = Some k"
      using less.prems s by (auto simp: scan_scalar_tag split: option.splits)
    then have len: "k < length r" "r ! k = CHR ''>''" by (auto simp: find_gt_Some)
    show ?thesis
    proof (cases "tag_depth r k depth")
      case None
      with True k s len less.prems show ?thesis
        by (intro exI [of _ "k + 2"]) (auto simp: scan_scalar_tag tag_step_take)
    next
      case (Some d)
      with True k s less.prems have v: "scan_scalar (drop (Suc k) r) (pos + k + 2) d = v"
        by (simp add: scan_scalar_tag)
      have "length (drop (Suc k) r) < length s" using s by simp
      from less.IH [OF this v less.prems(2)]
      obtain n where n: "v = int (pos + k + 2 + n)" "0 < n" "n \<le> length (drop (Suc k) r)"
        "drop (Suc k) r ! (n - 1) = CHR ''>''"
        "\<forall>t. scan_scalar (take n (drop (Suc k) r) @ t) (pos + k + 2) d = v"
        by blast
      have "take (k + 2 + n) s @ t = CHR ''<'' # take (Suc k) r @ take n (drop (Suc k) r) @ t" for t
        using s True take_add [of "Suc k" n r] by simp
      then have "scan_scalar (take (k + 2 + n) s @ t) pos depth = v" for t
        using n(5) k Some len by (simp add: scan_scalar_tag tag_step_take)
      with n len show ?thesis
        by (intro exI [of _ "k + 2 + n"]) (auto simp: s nth_Cons' add_ac)
    qed
  qed
qed

subsection \<open>A printed element is framed at its own end\<close>

text \<open>XML text as the scanner understands it: character data, empty-element tags, elements with
  their start tag, children and end-tag name, and declarations or comments without a \<open>>\<close>.\<close>

datatype xml = Text string | Empty string | Node string "xml list" string | Misc string

fun print_xml :: "xml \<Rightarrow> string" where
  "print_xml (Text t) = t"
| "print_xml (Empty t) = ''<'' @ t @ ''/>''"
| "print_xml (Node t cs n) = ''<'' @ t @ ''>'' @ concat (map print_xml cs) @ ''</'' @ n @ ''>''"
| "print_xml (Misc t) = ''<'' @ t @ ''>''"

definition tag_name_ok :: "string \<Rightarrow> bool" where
  "tag_name_ok t \<longleftrightarrow> t \<noteq> [] \<and> CHR ''>'' \<notin> set t \<and> hd t \<notin> set ''?!/''"

fun xml_ok :: "xml \<Rightarrow> bool" where
  "xml_ok (Text t) \<longleftrightarrow> CHR ''<'' \<notin> set t"
| "xml_ok (Empty t) \<longleftrightarrow> tag_name_ok t"
| "xml_ok (Node t cs n) \<longleftrightarrow> tag_name_ok t \<and> last t \<noteq> CHR ''/'' \<and> list_all xml_ok cs \<and> CHR ''>'' \<notin> set n"
| "xml_ok (Misc t) \<longleftrightarrow> t \<noteq> [] \<and> CHR ''>'' \<notin> set t \<and> hd t \<in> set ''?!''"

fun is_element :: "xml \<Rightarrow> bool" where
  "is_element (Empty t) = True"
| "is_element (Node t cs n) = True"
| "is_element _ = False"

lemma find_gt_first: "CHR ''>'' \<notin> set t \<Longrightarrow> find_gt (t @ CHR ''>'' # r) = Some (length t)"
  by (induction t) auto

lemma scan_tag:
  assumes "CHR ''>'' \<notin> set t"
  shows "scan_scalar (CHR ''<'' # t @ CHR ''>'' # r) pos depth =
     (case tag_depth (t @ CHR ''>'' # r) (length t) depth of
        None \<Rightarrow> int (pos + length t + 2)
      | Some d \<Rightarrow> scan_scalar r (pos + length t + 2) d)"
  by (simp add: scan_scalar_tag find_gt_first [OF assms] split: option.split)

lemma tag_depth_open:
  assumes "tag_name_ok t"
  shows "tag_depth (t @ CHR ''>'' # r) (length t) depth =
    (if last t = CHR ''/'' then (if depth = 0 then None else Some depth) else Some (depth + 1))"
proof -
  have "(CHR ''<'' # t @ CHR ''>'' # r) ! length t = last t"
    using assms by (cases t rule: rev_cases) (auto simp: tag_name_ok_def nth_append)
  with assms show ?thesis by (auto simp: tag_depth_def tag_name_ok_def hd_append)
qed

lemma scan_text: "CHR ''<'' \<notin> set t \<Longrightarrow> scan_scalar (t @ r) pos depth = scan_scalar r (pos + length t) depth"
  by (induction t arbitrary: pos) auto

lemma scan_close:
  assumes "CHR ''>'' \<notin> set n"
  shows "scan_scalar (CHR ''<'' # CHR ''/'' # n @ CHR ''>'' # r) pos depth =
     (if depth = 1 then int (pos + length n + 3) else scan_scalar r (pos + length n + 3) (depth - 1))"
  using scan_tag [of "CHR ''/'' # n" r pos depth] assms by (simp add: tag_depth_def numeral_3_eq_3)

lemma scan_empty_tag:
  assumes "tag_name_ok t"
  shows "scan_scalar (CHR ''<'' # t @ CHR ''/'' # CHR ''>'' # r) pos depth =
     (if depth = 0 then int (pos + length t + 3) else scan_scalar r (pos + length t + 3) depth)"
proof -
  have "tag_name_ok (t @ ''/'')" using assms by (auto simp: tag_name_ok_def hd_append)
  with tag_depth_open [OF this] scan_tag [of "t @ ''/''" r pos depth] show ?thesis
    by (auto simp: tag_name_ok_def numeral_3_eq_3)
qed

lemma scan_inner:
  "xml_ok e \<Longrightarrow> 0 < depth \<Longrightarrow>
     scan_scalar (print_xml e @ r) pos depth = scan_scalar r (pos + length (print_xml e)) depth"
proof (induction e arbitrary: pos depth r)
  case (Text t)
  then show ?case by (simp add: scan_text)
next
  case (Empty t)
  then show ?case using scan_empty_tag [of t r pos depth] by (simp add: add_ac numeral_3_eq_3)
next
  case (Misc t)
  then show ?case using scan_tag [of t r pos depth] by (auto simp: tag_depth_def hd_append)
next
  case (Node t cs n)
  have children: "scan_scalar (concat (map print_xml ds) @ q) p (depth + 1) =
      scan_scalar q (p + length (concat (map print_xml ds))) (depth + 1)" if "set ds \<subseteq> set cs" for ds q p
    using that Node by (induction ds arbitrary: p) (auto simp: list_all_iff add_ac)
  from Node.prems show ?case
    using scan_tag [of t "concat (map print_xml cs) @ ''</'' @ n @ ''>'' @ r" pos depth]
      tag_depth_open [of t _ depth]
      children [of cs "''</'' @ n @ ''>'' @ r" "pos + length t + 2"]
      scan_close [of n r _ "depth + 1"]
    by (simp add: tag_name_ok_def add_ac numeral_3_eq_3)
qed

lemma scan_element:
  assumes "xml_ok e" and "is_element e"
  shows "scan_scalar (print_xml e @ r) pos 0 = int (pos + length (print_xml e))"
proof (cases e)
  case (Empty t)
  with assms scan_empty_tag [of t r pos 0] show ?thesis by simp
next
  case (Node t cs n)
  have children: "scan_scalar (concat (map print_xml ds) @ q) p 1 =
      scan_scalar q (p + length (concat (map print_xml ds))) 1" if "list_all xml_ok ds" for ds q p
    using that by (induction ds arbitrary: p) (auto simp: scan_inner add_ac)
  from Node assms show ?thesis
    using scan_tag [of t "concat (map print_xml cs) @ ''</'' @ n @ ''>'' @ r" pos 0]
      tag_depth_open [of t _ 0]
      children [of cs "''</'' @ n @ ''>'' @ r" "pos + length t + 2"]
      scan_close [of n r _ 1]
    by (simp add: tag_name_ok_def)
qed (use assms in simp_all)

subsection \<open>Properties\<close>

lemmas stanza_end_defs =
  find_stanza_end_dispatch_def find_stanza_end_sse_def find_stanza_end_scalar_def
  find_stanza_end_portable_def

text \<open>C31: The vectorised scan, the scalar scan and the portable build agree: on every input
  without a NUL byte the SSE4.2 routine returns what the scalar routine returns, so the CPU
  feature that selects one cannot change where stanzas end; and the portable routine agrees with
  the scalar one on every input.\<close>

theorem find_stanza_end_equivalent:
  "(NUL \<notin> set xml \<longrightarrow> find_stanza_end_dispatch True xml = find_stanza_end_dispatch False xml) \<and>
   find_stanza_end_portable xml = find_stanza_end_scalar xml"
  by (simp add: stanza_end_defs scan_sse_eq scan_portable_eq)

theorem find_stanza_end_equivalent_witness:
  "find_stanza_end_dispatch True ''<a><b/>hello, long character data</a><c>'' =
   find_stanza_end_dispatch False ''<a><b/>hello, long character data</a><c>''"
  using find_stanza_end_equivalent [of "''<a><b/>hello, long character data</a><c>''"] by simp



text \<open>C32: A stanza end, once found, is final.  The result lies inside the buffer, just after
  a \<open>>\<close>, and depends only on the bytes before it: whatever arrives later, the scan of the
  longer buffer returns the same end.\<close>

theorem find_stanza_end_incremental:
  assumes "find_stanza_end_scalar xml = v" and "v \<noteq> -1"
  shows "0 < v \<and> v \<le> int (length xml) \<and> xml ! (nat v - 1) = CHR ''>'' \<and>
    find_stanza_end_scalar (take (nat v) xml @ later) = v \<and>
    find_stanza_end_scalar (xml @ later) = v"
proof -
  from scan_scalar_prefix [OF assms [unfolded find_stanza_end_scalar_def]]
  obtain n where n: "v = int n" "0 < n" "n \<le> length xml" "xml ! (n - 1) = CHR ''>''"
    "\<And>t. scan_scalar (take n xml @ t) 0 0 = v"
    by auto
  have "scan_scalar (xml @ later) 0 0 = v"
    using n(5) [of "drop n xml @ later"] by (simp flip: append_assoc)
  with n show ?thesis
    by (simp add: find_stanza_end_scalar_def)
qed

theorem find_stanza_end_incremental_witness:
  "find_stanza_end_scalar (''<a/><b'' @ '' c=d/>'') = 4"
proof -
  have "find_stanza_end_scalar ''<a/><b'' = 4"
    by (simp add: find_stanza_end_scalar_def scan_scalar_tag tag_depth_def)
  from find_stanza_end_incremental [OF this, of "'' c=d/>''"] show ?thesis by simp
qed

subsection \<open>The end lies in the buffer\<close>

lemma scan_sse_step:
  assumes "scan_sse s pos depth \<noteq> -1"
  obtains k d where "0 < k" "k \<le> length s"
    "scan_sse s pos depth = int (pos + k) \<or> scan_sse s pos depth = scan_sse (drop k s) (pos + k) d"
proof -
  define idx where "idx = (if length s \<ge> 16 then cmpistri XML_NEEDLE (take 16 s) else 0)"
  have s: "s \<noteq> []" using assms by (auto simp: scan_sse.simps)
  have "cmpistri XML_NEEDLE (take 16 s) \<le> 16"
    using length_cstr_le [of "take 16 s"] by (auto simp: cmpistri_def first_index_Some split: option.splits)
  then have "length s \<ge> 16 \<Longrightarrow> idx \<le> 16" "\<not> length s \<ge> 16 \<Longrightarrow> idx = 0" by (simp_all add: idx_def)
  then have idx: "idx = 16 \<and> 16 \<le> length s \<or> idx < length s" using s by (cases "length s \<ge> 16") auto
  have gt: "idx + g + 1 \<le> length s" if "memchr (drop idx s) CHR ''>'' (length s - idx) = Some g" for g
    using memchr_less [of "drop idx s" "CHR ''>''" g] that by simp
  note eq = scan_sse.simps [of s pos depth, folded idx_def, unfolded Let_def]
  have "\<exists>k d. 0 < k \<and> k \<le> length s \<and>
    (scan_sse s pos depth = int (pos + k) \<or> scan_sse s pos depth = scan_sse (drop k s) (pos + k) d)"
  proof (cases "idx = 16")
    case True
    then show ?thesis using idx s by (intro exI [of _ 16] exI [of _ depth]) (auto simp: eq)
  next
    case F: False
    show ?thesis
    proof (cases "memchr (drop idx s) CHR ''>'' (length s - idx)")
      case None
      then show ?thesis using assms F s idx by (intro exI [of _ "idx + 1"] exI [of _ depth]) (auto simp: eq split: if_splits)
    next
      case (Some g)
      have "scan_sse s pos depth = int (pos + (idx + g + 1)) \<or>
          (\<exists>d. scan_sse s pos depth = scan_sse (drop (idx + g + 1) s) (pos + (idx + g + 1)) d) \<or>
          scan_sse s pos depth = scan_sse (drop (idx + 1) s) (pos + (idx + 1)) depth"
        using assms F s Some by (auto simp: eq ac_simps split: if_splits)
      then show ?thesis using gt [OF Some] idx F
        by (elim disjE exE) (fastforce intro: exI [of _ "idx + g + 1"] exI [of _ "idx + 1"])+
    qed
  qed
  then show thesis using that by blast
qed

lemma scan_sse_bound:
  "scan_sse s pos depth \<noteq> -1 \<Longrightarrow> int pos < scan_sse s pos depth \<and> scan_sse s pos depth \<le> int (pos + length s)"
proof (induction s arbitrary: pos depth rule: measure_induct_rule [of length])
  case (less s)
  from scan_sse_step [OF less.prems] obtain k d where k: "0 < k" "k \<le> length s"
    and "scan_sse s pos depth = int (pos + k) \<or> scan_sse s pos depth = scan_sse (drop k s) (pos + k) d" by blast
  then show ?case
    using less.IH [of "drop k s" "pos + k" d] less.prems by (elim disjE) (simp_all, linarith)
qed

lemma find_stanza_end_bound:
  assumes "find_stanza_end_dispatch h xml \<noteq> -1"
  shows "0 < find_stanza_end_dispatch h xml \<and> find_stanza_end_dispatch h xml \<le> int (length xml)"
  using assms scan_sse_bound [of xml 0 0] scan_scalar_prefix [of xml 0 0]
  by (auto simp: find_stanza_end_dispatch_def find_stanza_end_sse_def find_stanza_end_scalar_def)

end
