(* ===== verification/Stanza_Pool.thy ===== *)
theory Stanza_Pool
  imports Xmpp_Types
begin

text \<open>
  The pool of stanza objects of \<^verbatim>\<open>src/src/xmpp/xmpp_memory.c\<close>.  A pointer into the pool is its
  index.  The locale \<open>slot_pool\<close> is what the callers rely on.
\<close>

abbreviation (input) MAX_POOL_STANZAS :: nat where
  "MAX_POOL_STANZAS \<equiv> 16"

definition xmpp_alloc_stanza :: "xmpp_stanza_t list \<Rightarrow> (nat \<times> xmpp_stanza_t list) option" where
  "xmpp_alloc_stanza pool =
     (case first_index MAX_POOL_STANZAS (\<lambda>i. \<not> st_is_used (pool ! i)) of
        Some i \<Rightarrow> Some (i, pool[i := zero_stanza\<lparr>st_is_used := True\<rparr>])
      | None \<Rightarrow> None)"

definition xmpp_free_stanza :: "nat option \<Rightarrow> xmpp_stanza_t list \<Rightarrow> xmpp_stanza_t list" where
  "xmpp_free_stanza s pool =
     (case s of Some i \<Rightarrow> pool[i := (pool ! i)\<lparr>st_is_used := False\<rparr>] | None \<Rightarrow> pool)"

definition pool_used :: "xmpp_stanza_t list \<Rightarrow> nat set" where
  "pool_used pool = {i. i < length pool \<and> st_is_used (pool ! i)}"

definition pool_ok :: "xmpp_stanza_t list \<Rightarrow> bool" where
  "pool_ok pool \<longleftrightarrow> array_ok MAX_POOL_STANZAS stanza_ok pool"

locale slot_pool =
  fixes alloc :: "'s \<Rightarrow> (nat \<times> 's) option"
    and release :: "nat \<Rightarrow> 's \<Rightarrow> 's"
    and used :: "'s \<Rightarrow> nat set"
    and inv :: "'s \<Rightarrow> bool"
    and cap :: nat
  assumes used_bound: "inv s \<Longrightarrow> used s \<subseteq> {..<cap}"
    and alloc_fresh: "inv s \<Longrightarrow> alloc s = Some (i, s') \<Longrightarrow>
      i < cap \<and> i \<notin> used s \<and> used s' = insert i (used s) \<and> inv s'"
    and alloc_full: "inv s \<Longrightarrow> alloc s = None \<Longrightarrow> used s = {..<cap}"
    and release_used: "inv s \<Longrightarrow> used (release i s) = used s - {i} \<and> inv (release i s)"
begin

lemma finite_used: "inv s \<Longrightarrow> finite (used s)"
  by (rule finite_subset [OF used_bound finite_lessThan])

lemma alloc_iff_space: "inv s \<Longrightarrow> (\<exists>r. alloc s = Some r) \<longleftrightarrow> card (used s) < cap"
proof (cases "alloc s")
  case None
  assume "inv s"
  with None show ?thesis using alloc_full [of s] by simp
next
  case (Some r)
  assume inv: "inv s"
  from Some obtain i s' where "alloc s = Some (i, s')" by (cases r) auto
  with inv have "i < cap" "i \<notin> used s" using alloc_fresh by auto
  then have "used s \<subset> {..<cap}" using used_bound [OF inv] by auto
  from psubset_card_mono [OF finite_lessThan this] have "card (used s) < cap" by simp
  with Some show ?thesis by simp
qed

lemma alloc_release: "inv s \<Longrightarrow> alloc s = Some (i, s') \<Longrightarrow> used (release i s') = used s"
  using alloc_fresh [of s i s'] release_used [of s' i] by auto

end

interpretation stanzas: slot_pool xmpp_alloc_stanza "\<lambda>i. xmpp_free_stanza (Some i)" pool_used pool_ok
  MAX_POOL_STANZAS
proof unfold_locales
  fix s :: "xmpp_stanza_t list" and i s'
  assume inv: "pool_ok s"
  then have len: "length s = 16" by (auto simp: pool_ok_def dest: array_ok_length)
  show "pool_used s \<subseteq> {..<16}" using len by (auto simp: pool_used_def)
  show "pool_used s = {..<16}" if "xmpp_alloc_stanza s = None"
    using that len by (auto simp: xmpp_alloc_stanza_def pool_used_def first_index_None split: option.splits)
  show "i < 16 \<and> i \<notin> pool_used s \<and> pool_used s' = insert i (pool_used s) \<and> pool_ok s'"
    if "xmpp_alloc_stanza s = Some (i, s')"
  proof -
    from that have i: "i < 16" "\<not> st_is_used (s ! i)"
      and s': "s' = s[i := zero_stanza\<lparr>st_is_used := True\<rparr>]"
      by (auto simp: xmpp_alloc_stanza_def first_index_Some split: option.splits)
    have "stanza_ok (zero_stanza\<lparr>st_is_used := True\<rparr>)" by (simp add: stanza_ok_def zero_stanza_def)
    with i s' inv len show ?thesis
      by (auto simp: pool_used_def pool_ok_def nth_list_update_if split: if_splits)
  qed
  show "pool_used (xmpp_free_stanza (Some i) s) = pool_used s - {i} \<and> pool_ok (xmpp_free_stanza (Some i) s)"
  proof
    show "pool_used (xmpp_free_stanza (Some i) s) = pool_used s - {i}"
      using len by (auto simp: xmpp_free_stanza_def pool_used_def nth_list_update_if split: if_splits)
    show "pool_ok (xmpp_free_stanza (Some i) s)"
      using array_ok_nth [of 16 stanza_ok s i] inv
      by (auto simp: xmpp_free_stanza_def pool_ok_def stanza_ok_def)
  qed
qed

text \<open>C39: The stanza pool neither leaks nor shares: allocation succeeds exactly when fewer than
  16 stanzas are in use, it returns a slot that was free, zeroed and now marked used, every other
  slot keeps its contents, and freeing the slot restores the set of used slots.\<close>

theorem stanza_pool_correct:
  assumes "pool_ok pool"
  shows "((\<exists>r. xmpp_alloc_stanza pool = Some r) \<longleftrightarrow> card (pool_used pool) < MAX_POOL_STANZAS) \<and>
    (\<forall>i pool'. xmpp_alloc_stanza pool = Some (i, pool') \<longrightarrow>
       i \<notin> pool_used pool \<and> pool' ! i = zero_stanza\<lparr>st_is_used := True\<rparr> \<and>
       (\<forall>j < MAX_POOL_STANZAS. j \<noteq> i \<longrightarrow> pool' ! j = pool ! j) \<and>
       pool_used (xmpp_free_stanza (Some i) pool') = pool_used pool)"
proof -
  have "length pool = 16" using assms by (auto simp: pool_ok_def dest: array_ok_length)
  then have slot: "pool' ! i = zero_stanza\<lparr>st_is_used := True\<rparr> \<and> (\<forall>j < 16. j \<noteq> i \<longrightarrow> pool' ! j = pool ! j)"
    if "xmpp_alloc_stanza pool = Some (i, pool')" for i pool'
    using that by (auto simp: xmpp_alloc_stanza_def first_index_Some split: option.splits)
  show ?thesis
    using slot stanzas.alloc_release [OF assms] stanzas.alloc_fresh [OF assms]
    by (intro conjI stanzas.alloc_iff_space [OF assms]) simp
qed

theorem stanza_pool_correct_witness:
  "\<exists>r. xmpp_alloc_stanza (replicate 16 zero_stanza) = Some r"
proof -
  have ok: "pool_ok (replicate 16 zero_stanza)" by (simp add: pool_ok_def)
  have "pool_used (replicate 16 zero_stanza) = {}"
    by (auto simp: pool_used_def zero_stanza_def)
  with stanza_pool_correct [OF ok] show ?thesis by simp
qed

end
