(* ===== verification/Parser.thy ===== *)
theory Parser
  imports Yxml_Stack Scan Stanza_Pool Persist
begin

text \<open>
  The stanza parser \<^verbatim>\<open>src/src/xmpp/xmpp_parser.c\<close>: it frames one stanza with the stanza-end scan,
  takes an object of the pool and fills it from the tokens of yxml.  Tokens that report an error are
  skipped, as in the code, which goes on with the next byte.
\<close>

subsection \<open>Tokens\<close>

text \<open>The locals of \<open>parse_xml_stream\<close> that live over the loop, with the stanza being filled.\<close>

record parse_t =
  p_x :: yxml_t
  p_s :: xmpp_stanza_t
  p_depth :: nat
  p_current_attr :: cbuf
  p_iq_type :: cbuf
  p_pres_type :: cbuf
  p_is_iq :: bool
  p_is_pres :: bool
  p_locked :: bool

definition parse_start :: "yxml_t \<Rightarrow> xmpp_stanza_t \<Rightarrow> parse_t" where
  "parse_start x s =
     \<lparr>p_x = x, p_s = s, p_depth = 0, p_current_attr = zbuf 64, p_iq_type = zbuf 16, p_pres_type = zbuf 16,
      p_is_iq = False, p_is_pres = False, p_locked = False\<rparr>"

abbreviation elem_is :: "yxml_t \<Rightarrow> string \<Rightarrow> bool" where
  "elem_is x name \<equiv> strcmp (drop (y_elem x) (y_stack x)) name = 0"

abbreviation set_xmlns :: "string \<Rightarrow> xmpp_stanza_t \<Rightarrow> xmpp_stanza_t" where
  "set_xmlns ns s \<equiv> s\<lparr>st_xmlns := strcpy (st_xmlns s) ns\<rparr>"

definition token_elemstart :: "parse_t \<Rightarrow> parse_t" where
  "token_elemstart p0 =
     (let p = p0\<lparr>p_depth := p_depth p0 + 1\<rparr>; s = p_s p in
      if p_depth p = 1 then
        if elem_is (p_x p) ''message'' then p\<lparr>p_s := set_xmlns ''jabber:client'' (s\<lparr>st_type := XMPP_MESSAGE\<rparr>)\<rparr>
        else if elem_is (p_x p) ''iq'' then p\<lparr>p_s := s\<lparr>st_type := XMPP_UNKNOWN\<rparr>, p_is_iq := True\<rparr>
        else if elem_is (p_x p) ''presence'' then
          p\<lparr>p_s := set_xmlns ''jabber:client'' (s\<lparr>st_type := XMPP_PRESENCE\<rparr>), p_is_pres := True\<rparr>
        else if elem_is (p_x p) ''auth'' then p\<lparr>p_s := set_xmlns ''urn:ietf:params:xml:ns:xmpp-sasl'' s\<rparr>
        else p
      else if p_depth p = 2 then
        if elem_is (p_x p) ''bind'' then p\<lparr>p_s := set_xmlns ''urn:ietf:params:xml:ns:xmpp-bind'' s, p_locked := True\<rparr>
        else if elem_is (p_x p) ''session'' then
          p\<lparr>p_s := set_xmlns ''urn:ietf:params:xml:ns:xmpp-session'' s, p_locked := True\<rparr>
        else p
      else p)"

text \<open>\<open>strncat(d, x.data, sizeof(d) - strlen(d) - 1)\<close>.\<close>

definition cat_data :: "nat \<Rightarrow> yxml_t \<Rightarrow> cbuf \<Rightarrow> cbuf" where
  "cat_data n x d = strncat d (y_data x) (n - strlen d - 1)"

definition token_attrval :: "parse_t \<Rightarrow> parse_t" where
  "token_attrval p =
     (let s = p_s p; x = p_x p; attr = (\<lambda>a. strcmp (p_current_attr p) a = 0) in
      if p_depth p = 1 then
        if attr ''to'' then p\<lparr>p_s := s\<lparr>st_to := cat_data 64 x (st_to s)\<rparr>\<rparr>
        else if attr ''from'' then p\<lparr>p_s := s\<lparr>st_from := cat_data 64 x (st_from s)\<rparr>\<rparr>
        else if attr ''id'' then p\<lparr>p_s := s\<lparr>st_id := cat_data 64 x (st_id s)\<rparr>\<rparr>
        else if attr ''type'' \<and> p_is_iq p then p\<lparr>p_iq_type := cat_data 16 x (p_iq_type p)\<rparr>
        else if attr ''type'' \<and> p_is_pres p then p\<lparr>p_pres_type := cat_data 16 x (p_pres_type p)\<rparr>
        else if attr ''mechanism'' \<and> elem_is x ''auth'' then p\<lparr>p_s := s\<lparr>st_mechanism := cat_data 32 x (st_mechanism s)\<rparr>\<rparr>
        else p
      else if p_depth p = 2 then
        if attr ''xmlns'' \<and> \<not> p_locked p then p\<lparr>p_s := s\<lparr>st_xmlns := cat_data 128 x (st_xmlns s)\<rparr>\<rparr> else p
      else p)"

definition parse_token :: "yxml_ret_t \<Rightarrow> parse_t \<Rightarrow> parse_t" where
  "parse_token r p =
     (if r = YXML_ELEMSTART then token_elemstart p
      else if r = YXML_ATTRSTART then
        p\<lparr>p_current_attr := strncpy_term (p_current_attr p) (drop (y_attr (p_x p)) (y_stack (p_x p))) 63\<rparr>
      else if r = YXML_ATTRVAL then token_attrval p
      else p)"

fun parse_loop :: "string \<Rightarrow> parse_t \<Rightarrow> parse_t option" where
  "parse_loop [] p = Some p"
| "parse_loop (c # cs) p =
     do { (r, x) \<leftarrow> yxml_parse (p_x p) c; parse_loop cs (parse_token r (p\<lparr>p_x := x\<rparr>)) }"

subsection \<open>Type, namespace and payload\<close>

definition iq_type_of :: "cbuf \<Rightarrow> stanza_type_t \<Rightarrow> stanza_type_t" where
  "iq_type_of b t =
     (if strcmp b ''get'' = 0 then XMPP_IQ_GET
      else if strcmp b ''set'' = 0 then XMPP_IQ_SET
      else if strcmp b ''result'' = 0 then XMPP_IQ_RESULT
      else if strcmp b ''error'' = 0 then XMPP_IQ_ERROR
      else t)"

definition pres_type_of :: "cbuf \<Rightarrow> stanza_type_t \<Rightarrow> stanza_type_t" where
  "pres_type_of b t =
     (if strcmp b ''unavailable'' = 0 then XMPP_PRESENCE_UNAVAILABLE
      else if strcmp b ''subscribe'' = 0 then XMPP_PRESENCE_SUBSCRIBE
      else if strcmp b ''subscribed'' = 0 then XMPP_PRESENCE_SUBSCRIBED
      else if strcmp b ''unsubscribe'' = 0 then XMPP_PRESENCE_UNSUBSCRIBE
      else if strcmp b ''unsubscribed'' = 0 then XMPP_PRESENCE_UNSUBSCRIBED
      else if strcmp b ''probe'' = 0 then XMPP_PRESENCE_PROBE
      else t)"

definition set_type :: "parse_t \<Rightarrow> xmpp_stanza_t" where
  "set_type p =
     (let s = p_s p; s1 = (if p_is_iq p then s\<lparr>st_type := iq_type_of (p_iq_type p) (st_type s)\<rparr> else s)
      in if p_is_pres p \<and> deref (p_pres_type p) \<noteq> NUL
         then s1\<lparr>st_type := pres_type_of (p_pres_type p) (st_type s1)\<rparr> else s1)"

definition guess_xmlns :: "cbuf \<Rightarrow> xmpp_stanza_t \<Rightarrow> xmpp_stanza_t" where
  "guess_xmlns temp s =
     (let has = (\<lambda>t. strstr temp t \<noteq> None) in
      if deref (st_xmlns s) = NUL then
        if has ''jabber:iq:roster'' then set_xmlns ''jabber:iq:roster'' s
        else if has ''muc#owner'' then set_xmlns ''http://jabber.org/protocol/muc#owner'' s
        else if has ''muc#admin'' then set_xmlns ''http://jabber.org/protocol/muc#admin'' s
        else if has ''disco#info'' then set_xmlns ''http://jabber.org/protocol/disco#info'' s
        else if has ''disco#items'' then set_xmlns ''http://jabber.org/protocol/disco#items'' s
        else if has ''urn:xmpp:blocking'' then set_xmlns ''urn:xmpp:blocking'' s
        else if has ''http://jabber.org/protocol/pubsub'' then set_xmlns ''http://jabber.org/protocol/pubsub'' s
        else if has ''http://jabber.org/protocol/muc'' then set_xmlns ''http://jabber.org/protocol/muc'' s
        else s
      else if st_type s = XMPP_PRESENCE \<or> st_type s = XMPP_PRESENCE_UNAVAILABLE then
        if has ''muc#owner'' then set_xmlns ''http://jabber.org/protocol/muc#owner'' s
        else if has ''muc#admin'' then set_xmlns ''http://jabber.org/protocol/muc#admin'' s
        else if has ''http://jabber.org/protocol/muc'' then set_xmlns ''http://jabber.org/protocol/muc'' s
        else s
      else s)"

text \<open>The name of the outer element, as the closing tag is searched.\<close>

definition tag_name :: "cbuf \<Rightarrow> string" where
  "tag_name temp = take 31 (takeWhile (\<lambda>c. c \<noteq> NUL \<and> c \<noteq> CHR '' '' \<and> c \<noteq> CHR ''>'') (drop 1 temp))"

definition set_payload :: "cbuf \<Rightarrow> nat \<Rightarrow> xmpp_stanza_t \<Rightarrow> xmpp_stanza_t" where
  "set_payload temp copy_len s =
     (case strchr temp CHR ''>'' of
        None \<Rightarrow> s
      | Some h \<Rightarrow>
          if h > 0 \<and> temp ! (h - 1) = CHR ''/'' then s\<lparr>st_payload := poke (st_payload s) 0 NUL\<rparr>
          else if h < copy_len then
            let inner = drop (h + 1) temp; closer = snprintf 40 ''</%s>'' [VStr (tag_name temp)] in
            (case strstr inner closer of
               Some n \<Rightarrow>
                 let payload_len = (if n \<ge> 4096 then 4096 - 1 else n)
                 in s\<lparr>st_payload := strncpy_term (st_payload s) inner payload_len\<rparr>
             | None \<Rightarrow> s\<lparr>st_payload := poke (st_payload s) 0 NUL\<rparr>)
          else s)"

subsection \<open>The parser\<close>

definition is_xml_space :: "char \<Rightarrow> bool" where
  "is_xml_space c \<longleftrightarrow> c = CHR '' '' \<or> c = CHR 0x0D \<or> c = CHR 0x0A \<or> c = CHR 0x09"

text \<open>Filling a fresh stanza from the framed text.  \<open>e\<close> gives the contents of the two local arrays
  that have no initialiser.\<close>

definition fill_stanza :: "string \<Rightarrow> env \<Rightarrow> xmpp_stanza_t \<Rightarrow> xmpp_stanza_t option" where
  "fill_stanza xml e s =
     do { p \<leftarrow> parse_loop xml (parse_start (yxml_init (uninit 1024 e) 1024) s);
          let copy_len = (if length xml < 1023 then length xml else 1023);
              temp = poke (memcpy (uninit 1024 e) xml copy_len) copy_len NUL
          in Some (set_payload temp copy_len (guess_xmlns temp (set_type p))) }"

text \<open>The result: the index of the stanza or NULL, the number of consumed bytes, the reason where the
  code writes one, and the world.  \<open>None\<close> is an access of yxml outside its stack.\<close>

definition parse_xml_stream ::
  "bool \<Rightarrow> cbuf \<Rightarrow> nat \<Rightarrow> world \<Rightarrow> (nat option \<times> nat \<times> parse_null_reason_t option \<times> world) option" where
  "parse_xml_stream has_sse42 payload len w =
     (let offset = length (takeWhile is_xml_space (take len payload)) in
      if offset \<ge> len then Some (None, offset, Some PARSE_INCOMPLETE, w)
      else
        let remaining_len = len - offset in
        if remaining_len < 4 then Some (None, offset, Some PARSE_INCOMPLETE, w)
        else
          let xml_start = take remaining_len (drop offset payload);
              stanza_len = find_stanza_end_dispatch has_sse42 xml_start
          in if stanza_len < 0 then Some (None, offset, Some PARSE_INCOMPLETE, w)
             else
               let bytes_consumed = offset + nat stanza_len in
               (case xmpp_alloc_stanza (stanza_pool w) of
                  None \<Rightarrow> Some (None, bytes_consumed, Some PARSE_NO_MEMORY, w)
                | Some (i, pool) \<Rightarrow>
                    do { s \<leftarrow> fill_stanza (take (nat stanza_len) xml_start) (env w) (pool ! i);
                         Some (Some i, bytes_consumed, None, w\<lparr>stanza_pool := pool[i := s]\<rparr>) }))"

subsection \<open>Memory safety of the stanza\<close>

lemma buf_cat_data: "buf n d \<Longrightarrow> buf n (cat_data n x d)"
  using length_cstr_less [of d]
  by (auto simp: cat_data_def buf_def strncat_eq strlen_eq min_def)

lemma buf_strcpy: "buf n d \<Longrightarrow> length (cstr t) < n \<Longrightarrow> buf n (strcpy d t)"
  by (auto simp: buf_def strcpy_eq)

lemma stanza_ok_xmlns:
  "stanza_ok s \<Longrightarrow> length (cstr ns) < 128 \<Longrightarrow> stanza_ok (set_xmlns ns s)"
  "stanza_ok s \<Longrightarrow> length (cstr ns) < 128 \<Longrightarrow> stanza_ok (s\<lparr>st_type := t, st_xmlns := strcpy (st_xmlns s) ns\<rparr>)"
  by (simp_all add: stanza_ok_def buf_strcpy)

lemma stanza_ok_type [simp]: "stanza_ok (s\<lparr>st_type := t\<rparr>) = stanza_ok s"
  by (simp add: stanza_ok_def)

text \<open>The strings the parser fills stay inside their arrays, whatever yxml reports.\<close>

definition parse_ok :: "parse_t \<Rightarrow> bool" where
  "parse_ok p \<longleftrightarrow> stanza_ok (p_s p) \<and> buf 64 (p_current_attr p) \<and> buf 16 (p_iq_type p) \<and> buf 16 (p_pres_type p) \<and>
     st_is_used (p_s p)"

lemma token_elemstart_ok: "parse_ok p \<Longrightarrow> parse_ok (token_elemstart p)"
  by (simp add: token_elemstart_def Let_def parse_ok_def stanza_ok_xmlns del: strcpy.simps)

lemma token_attrval_ok: "parse_ok p \<Longrightarrow> parse_ok (token_attrval p)"
  by (simp add: token_attrval_def Let_def parse_ok_def stanza_ok_def buf_cat_data)

lemma parse_token_ok: "parse_ok p \<Longrightarrow> parse_ok (parse_token r p)"
  using token_elemstart_ok token_attrval_ok
  by (auto simp: parse_token_def) (auto simp: parse_ok_def buf_strncpy_term buf_length)

lemma parse_loop_ok: "parse_ok p \<Longrightarrow> parse_loop cs p = Some p' \<Longrightarrow> parse_ok p'"
proof (induction cs arbitrary: p)
  case (Cons c cs)
  from Cons.prems obtain r x where "parse_loop cs (parse_token r (p\<lparr>p_x := x\<rparr>)) = Some p'"
    by (auto split: Option.bind_splits)
  moreover have "parse_ok (p\<lparr>p_x := x\<rparr>)" using Cons.prems by (simp add: parse_ok_def)
  ultimately show ?case using Cons.IH parse_token_ok by blast
qed simp

lemma set_type_ok: "parse_ok p \<Longrightarrow> stanza_ok (set_type p) \<and> st_is_used (set_type p)"
  by (simp add: set_type_def parse_ok_def Let_def)

lemma guess_xmlns_ok: "stanza_ok s \<and> st_is_used s \<Longrightarrow> stanza_ok (guess_xmlns temp s) \<and> st_is_used (guess_xmlns temp s)"
  by (simp add: guess_xmlns_def Let_def stanza_ok_xmlns del: strcpy.simps)

lemma set_payload_ok: "stanza_ok s \<and> st_is_used s \<Longrightarrow> stanza_ok (set_payload temp n s) \<and> st_is_used (set_payload temp n s)"
  by (auto simp: set_payload_def Let_def stanza_ok_def buf_strncpy_term buf_poke_NUL buf_length split: option.split)

lemma fill_stanza_ok:
  assumes "stanza_ok s" and "st_is_used s" and "fill_stanza xml e s = Some s'"
  shows "stanza_ok s' \<and> st_is_used s'"
proof -
  from assms(3) obtain p temp n where "parse_loop xml (parse_start (yxml_init (uninit 1024 e) 1024) s) = Some p"
    and "s' = set_payload temp n (guess_xmlns temp (set_type p))"
    by (auto simp: fill_stanza_def Let_def split: Option.bind_splits)
  moreover have "parse_ok (parse_start x s)" for x using assms by (simp add: parse_start_def parse_ok_def)
  ultimately show ?thesis using parse_loop_ok set_type_ok guess_xmlns_ok set_payload_ok by blast
qed

lemma xmpp_alloc_stanza_Some:
  "xmpp_alloc_stanza pool = Some (i, pool') \<Longrightarrow>
    i < 16 \<and> \<not> st_is_used (pool ! i) \<and> pool' = pool[i := zero_stanza\<lparr>st_is_used := True\<rparr>]"
  by (auto simp: xmpp_alloc_stanza_def first_index_Some split: option.splits)

text \<open>A parsed stanza is a slot that was free, and the consumed text is not empty and was received.\<close>

lemma parse_xml_stream_Some:
  assumes "parse_xml_stream h b len w = Some (Some i, n, r, w')" and "length (stanza_pool w) = 16" and "len \<le> length b"
  obtains s where "i < 16" "\<not> st_is_used (stanza_pool w ! i)" "stanza_ok s" "st_is_used s"
    "w' = w\<lparr>stanza_pool := (stanza_pool w)[i := s]\<rparr>" "0 < n" "n \<le> len"
proof -
  define offset where "offset = length (takeWhile is_xml_space (take len b))"
  define xml where "xml = take (len - offset) (drop offset b)"
  define v where "v = find_stanza_end_dispatch h xml"
  obtain pool' s where v: "\<not> v < 0" and a: "xmpp_alloc_stanza (stanza_pool w) = Some (i, pool')"
    and f: "fill_stanza (take (nat v) xml) (env w) (pool' ! i) = Some s"
    and r: "n = offset + nat v" "w' = w\<lparr>stanza_pool := pool'[i := s]\<rparr>" "offset < len"
    using assms(1) unfolding parse_xml_stream_def offset_def [symmetric] Let_def xml_def [symmetric] v_def [symmetric]
    by (auto split: if_splits option.splits Option.bind_splits)
  have i: "i < 16" "\<not> st_is_used (stanza_pool w ! i)" "pool' = (stanza_pool w)[i := zero_stanza\<lparr>st_is_used := True\<rparr>]"
    using xmpp_alloc_stanza_Some [OF a] by auto
  have "stanza_ok (pool' ! i)" "st_is_used (pool' ! i)"
    using i assms(2) by (simp_all add: stanza_ok_def zero_stanza_def)
  note ok = fill_stanza_ok [OF this f]
  have "0 < v" "v \<le> int (length xml)" using find_stanza_end_bound [of h xml] v by (auto simp: v_def)
  moreover have "length xml \<le> len - offset" by (simp add: xml_def)
  ultimately have "0 < n" "n \<le> len" using r by auto
  then show thesis using i ok r by (intro that [of s]) simp_all
qed

lemma parse_xml_stream_None:
  "parse_xml_stream h b len w = Some (None, n, r, w') \<Longrightarrow>
     w' = w \<and> (r = Some PARSE_NO_MEMORY \<longrightarrow> xmpp_alloc_stanza (stanza_pool w) = None)"
  by (auto simp: parse_xml_stream_def Let_def split: if_splits option.splits Option.bind_splits)


subsection \<open>The tokenizer stays in its stack\<close>

lemma parse_token_x [simp]: "p_x (parse_token r p) = p_x p"
  unfolding parse_token_def token_elemstart_def token_attrval_def Let_def
  by (simp add: if_distrib [of p_x] split del: if_split cong: if_cong)

lemma parse_loop_feed: "parse_loop cs p = None \<longleftrightarrow> yxml_feed cs (p_x p) = None"
  by (induction cs arbitrary: p) (auto split: Option.bind_splits)

lemma length_uninit [simp]: "length (uninit n e) = n"
  by (simp add: uninit_def)

lemma fill_stanza_defined: "length xml \<le> 1023 \<Longrightarrow> fill_stanza xml e s \<noteq> None"
proof -
  assume "length xml \<le> 1023"
  then have "yxml_feed xml (yxml_init (uninit 1024 e) 1024) \<noteq> None"
    using yxml_feed_ok [OF good_init [OF length_uninit, of e], of xml] by auto
  then have "parse_loop xml (parse_start (yxml_init (uninit 1024 e) 1024) s) \<noteq> None"
    by (simp add: parse_loop_feed parse_start_def del: not_None_eq)
  then show ?thesis by (auto simp: fill_stanza_def Let_def)
qed

lemma parse_xml_stream_defined:
  assumes "len \<le> 1023"
  shows "\<exists>x. parse_xml_stream has_sse42 b len w = Some x"
proof -
  define offset where "offset = length (takeWhile is_xml_space (take len b))"
  define xml where "xml = take (len - offset) (drop offset b)"
  have "\<exists>s'. fill_stanza (take k xml) e s = Some s'" for k e s
    using fill_stanza_defined [of "take k xml" e s] assms by (simp add: xml_def)
  then obtain f where "\<And>k e s. fill_stanza (take k xml) e s = Some (f k e s)" by metis
  then show ?thesis
    unfolding parse_xml_stream_def offset_def [symmetric] Let_def xml_def [symmetric]
    by (simp split: option.split prod.split)
qed

definition overrun :: string where
  "overrun = ''<a'' @ replicate 1020 CHR ''a'' @ '' b='c'/>''"

lemma fill_stanza_overrun: "fill_stanza overrun e s = None"
proof -
  have "parse_loop overrun (parse_start (yxml_init (uninit 1024 e) 1024) s) = None"
    unfolding parse_loop_feed overrun_def using feed_overrun [OF length_uninit] by (simp only: parse_start_def parse_t.simps)
  then show ?thesis by (simp add: fill_stanza_def)
qed

lemma overrun_end: "find_stanza_end_dispatch h overrun = 1030"
proof -
  let ?t = "CHR ''a'' # replicate 1020 CHR ''a'' @ '' b='c'' @ [CHR 0x27]"
  have "tag_name_ok ?t" by (simp add: tag_name_ok_def)
  from scan_empty_tag [OF this, of "[]" 0 0]
  have "scan_scalar overrun 0 0 = 1030" by (simp add: overrun_def)
  moreover have "NUL \<notin> set overrun" by (simp add: overrun_def)
  ultimately show ?thesis
    by (simp add: find_stanza_end_dispatch_def find_stanza_end_sse_def find_stanza_end_scalar_def scan_sse_eq)
qed

subsection \<open>Properties\<close>

text \<open>C6: for any input of at most 1023 bytes, well formed or not, the parser reads and writes only inside the
  stack of yxml and the arrays of the stanza, and leaves every object of the server in order.\<close>

theorem parse_in_bounds:
  assumes "world_ok w" and "len \<le> 1023" and "len \<le> length b"
  shows "\<exists>i n r w'. parse_xml_stream has_sse42 b len w = Some (i, n, r, w') \<and> world_ok w'"
proof -
  have pool: "length (stanza_pool w) = 16" using assms(1) by (auto simp: world_ok_def dest: array_ok_length)
  obtain i n r w' where p: "parse_xml_stream has_sse42 b len w = Some (i, n, r, w')"
    using parse_xml_stream_defined [OF assms(2)] by (metis prod_cases4)
  have "world_ok w'"
  proof (cases i)
    case None
    then show ?thesis using parse_xml_stream_None [OF p [unfolded None]] assms(1) by simp
  next
    case (Some k)
    obtain s where "stanza_ok s" "w' = w\<lparr>stanza_pool := (stanza_pool w)[k := s]\<rparr>"
      by (rule parse_xml_stream_Some [OF p [unfolded Some] pool assms(3)])
    then show ?thesis using assms(1) by (auto simp: world_ok_def)
  qed
  with p show ?thesis by blast
qed

theorem parse_in_bounds_witness:
  "\<exists>i n r w'. parse_xml_stream True ''<iq></a><b c='&#xFFFF;'/>'' 24 (empty_world no_disk) = Some (i, n, r, w') \<and> world_ok w'"
  by (rule parse_in_bounds [OF empty_world_ok]) simp_all

text \<open>C21: the bound is needed.  The tokenizer reports that its 1024 bytes of stack are full, and the parser goes on
  with the next byte; a tag of 1030 bytes whose name fills the stack then makes it access a byte outside the
  stack, in every state of the server that has a free stanza object.\<close>

theorem parse_overrun:
  assumes "xmpp_alloc_stanza (stanza_pool w) = Some a"
  shows "parse_xml_stream has_sse42 overrun 1030 w = None"
proof -
  have len: "length overrun = 1030" by (simp add: overrun_def)
  then have "takeWhile is_xml_space (take 1030 overrun) = []" by (simp add: overrun_def is_xml_space_def)
  then show ?thesis
    using assms len by (cases a) (simp add: parse_xml_stream_def overrun_end fill_stanza_overrun)
qed

theorem parse_overrun_witness: "parse_xml_stream True overrun 1030 (empty_world no_disk) = None"
proof -
  have "\<exists>i<16. \<not> st_is_used (stanza_pool (empty_world no_disk) ! i)"
    by (intro exI [of _ 0]) (simp add: empty_world_def boot_world_def zero_stanza_def)
  then have "\<exists>a. xmpp_alloc_stanza (stanza_pool (empty_world no_disk)) = Some a"
    by (simp add: xmpp_alloc_stanza_def first_index_None split: option.split)
  then show ?thesis using parse_overrun by blast
qed

end
