(* ===== verification/Server.thy ===== *)
theory Server
  imports Router Parser "HOL-Library.While_Combinator"
begin

text \<open>
  The connections, from \<^verbatim>\<open>src/src/xmpp/xmpp_server.c\<close>: the callbacks lwIP calls when data arrive,
  when a connection fails and when one is accepted, and the polling of \<^verbatim>\<open>src/src/kernel.c\<close>.
  A chain of pbufs is the list of its payloads.
\<close>

subsection \<open>Closing a stream\<close>

definition extract_stream_attr :: "cbuf \<Rightarrow> string \<Rightarrow> cbuf \<Rightarrow> nat \<Rightarrow> bool \<times> cbuf" where
  "extract_stream_attr b attr_name out out_max =
     (let key = snprintf 64 '' %s='' [VStr attr_name] in
      (case strstr b key of
         None \<Rightarrow> (False, out)
       | Some k \<Rightarrow>
           let p = drop (k + strlen key) b; q = deref p in
           if q \<noteq> APOS \<and> q \<noteq> DQUOTE then (False, out)
           else (case strchr (drop 1 p) q of
                   None \<Rightarrow> (False, out)
                 | Some n \<Rightarrow> (True, strncpy_term out (drop 1 p) (if n \<ge> out_max then out_max - 1 else n)))))"

definition close_tag :: string where
  "close_tag = ''</stream:stream>''"

definition ssl_close_notify :: "cx \<Rightarrow> cx" where
  "ssl_close_notify x =
     (let (s, (c, e)) = ssl_call x in (c, emit (Ev_SslCloseNotify (cl_pcb (fst x))) e))"

definition tls_goodbye :: "cx \<Rightarrow> cx" where
  "tls_goodbye x =
     (let (r, (c, e)) = ssl_write close_tag x
      in ssl_close_notify (c, if cl_pcb c \<noteq> None then tcp_output (cl_pcb c) e else e))"

definition tcp_say :: "nat option \<Rightarrow> string \<Rightarrow> env \<Rightarrow> env" where
  "tcp_say p text e = tcp_output p (snd (tcp_write p text e))"

definition send_stream_close_and_free :: "cx \<Rightarrow> cx" where
  "send_stream_close_and_free x =
     (let (c, e) =
            (if cl_tls_established (fst x) then tls_goodbye x
             else if cl_pcb (fst x) \<noteq> None \<and> \<not> cl_state (fst x) < STATE_SASL
             then (fst x, tcp_say (cl_pcb (fst x)) close_tag (snd x))
             else x);
          (c1, e1) = xmpp_tls_client_free (c, e)
      in (c1\<lparr>cl_pcb := None, cl_state := STATE_CONNECTED\<rparr>,
          if cl_pcb c1 \<noteq> None then tcp_close (cl_pcb c1) e1 else e1))"

text \<open>A null pbuf: the peer has closed the connection.\<close>

definition recv_closed :: "nat \<Rightarrow> cx \<Rightarrow> cx" where
  "recv_closed pcb x =
     (let c = (fst x)\<lparr>cl_pcb := (if cl_pcb (fst x) = None then Some pcb else cl_pcb (fst x))\<rparr>;
          (c1, e1) = send_stream_close_and_free (c, snd x)
      in (c1\<lparr>cl_pcb := None, cl_state := STATE_CONNECTED\<rparr>, e1))"

subsection \<open>Incoming bytes\<close>

definition tot_len :: "string list \<Rightarrow> nat" where
  "tot_len p = sum_list (map length p)"

text \<open>Loops over the chain that stop when the connection is gone.\<close>

fun chain_step :: "(string \<Rightarrow> cx \<Rightarrow> cx) \<Rightarrow> string list \<Rightarrow> cx \<Rightarrow> cx" where
  "chain_step f [] x = x"
| "chain_step f (q # qs) x = (if cl_pcb (fst x) \<noteq> None then chain_step f qs (f q x) else x)"

text \<open>Copying plaintext; the flag reports that the chain does not fit.\<close>

fun rx_copy :: "string list \<Rightarrow> xmpp_client_ctx_t \<Rightarrow> bool \<times> xmpp_client_ctx_t" where
  "rx_copy [] c = (False, c)"
| "rx_copy (q # qs) c =
     (if cl_rx_pos c + length q < RX_BUF_SIZE - 1 then rx_copy qs (rx_append q c) else (True, c))"

definition is_space :: "char \<Rightarrow> bool" where
  "is_space c \<longleftrightarrow> c = CHR '' '' \<or> c = CHR 0x0A \<or> c = CHR 0x0D \<or> c = CHR 0x09"

definition skip_space :: "xmpp_client_ctx_t \<Rightarrow> xmpp_client_ctx_t" where
  "skip_space c =
     (let shift = length (takeWhile is_space (take (cl_rx_pos c) (cl_rx_buffer c)))
      in if shift > 0 then rx_consume shift c else c)"

subsection \<open>Stream elements\<close>

definition proceed :: string where
  "proceed = ''<proceed xmlns='urn:ietf:params:xml:ns:xmpp-tls'/>''"

definition tls_failure :: string where
  "tls_failure = ''<failure xmlns='urn:ietf:params:xml:ns:xmpp-tls'/>''"

definition starttls :: "cx \<Rightarrow> cx" where
  "starttls x =
     (case x of (c, e) \<Rightarrow>
        let (ret, (c1, e1)) = xmpp_tls_client_init (c, tcp_say (cl_pcb c) proceed e) in
        if ret \<noteq> 0 then
          (c1\<lparr>cl_pcb := None, cl_state := STATE_CONNECTED, cl_rx_pos := 0\<rparr>,
           tcp_close (cl_pcb c1) (tcp_say (cl_pcb c1) tls_failure e1))
        else (c1\<lparr>cl_state := STATE_STARTTLS, cl_rx_pos := 0\<rparr>, e1))"

definition stream_end :: "cx \<Rightarrow> cx" where
  "stream_end x =
     (let (c1, e1) = (if cl_tls_established (fst x) then tls_goodbye x
                      else (fst x, tcp_say (cl_pcb (fst x)) close_tag (snd x)));
          (c2, e2) = xmpp_tls_client_free (c1, e1)
      in (c2\<lparr>cl_pcb := None, cl_state := STATE_CONNECTED, cl_rx_pos := 0\<rparr>, tcp_close (cl_pcb c2) e2))"

definition host_unknown_fmt :: string where
  "host_unknown_fmt =
     ''<?xml version='1.0'?><stream:stream from='' @ APOS # XMPP_DOMAIN @ APOS # '' id='0' version='1.0' xml:lang='en' xmlns='jabber:client' '' @
     ''xmlns:stream='http://etherx.jabber.org/streams'><stream:error><host-unknown xmlns='urn:ietf:params:xml:ns:xmpp-streams'/>'' @
     ''</stream:error></stream:stream>''"

definition stream_error :: "string \<Rightarrow> string" where
  "stream_error condition =
     ''<?xml version='1.0'?><stream:stream from='' @ APOS # XMPP_DOMAIN @ APOS # '' id='0' version='1.0' xmlns='jabber:client' '' @
     ''xmlns:stream='http://etherx.jabber.org/streams'><stream:error><'' @ condition @
     '' xmlns='urn:ietf:params:xml:ns:xmpp-stanzas'/></stream:error></stream:stream>''"

definition wrong_host :: "xmpp_client_ctx_t \<Rightarrow> bool" where
  "wrong_host c \<longleftrightarrow> \<not> cl_tls_established c \<and> \<not> cl_authenticated c \<and>
     (let stream_to = snd (extract_stream_attr (cl_rx_buffer c) ''to'' (zbuf 64) 64)
      in deref stream_to \<noteq> NUL \<and> strcmp stream_to XMPP_DOMAIN \<noteq> 0)"

definition set_client_from :: "xmpp_client_ctx_t \<Rightarrow> xmpp_client_ctx_t" where
  "set_client_from c =
     c\<lparr>cl_client_from := snd (extract_stream_attr (cl_rx_buffer c) ''from'' (poke (cl_client_from c) 0 NUL) 64)\<rparr>"

definition stream_open :: "cx \<Rightarrow> cx" where
  "stream_open x =
     (case x of (c0, e) \<Rightarrow>
        let c = set_client_from c0; b = cl_rx_buffer c; close = (\<lambda>text. tcp_close (cl_pcb c) (tcp_say (cl_pcb c) text e)) in
        if wrong_host c then (c\<lparr>cl_pcb := None, cl_rx_pos := 0\<rparr>, close (snprintf 512 host_unknown_fmt []))
        else if \<not> has_attr b ''xmlns'' ''jabber:client'' \<or> \<not> has_attr b ''xmlns:stream'' ''http://etherx.jabber.org/streams''
        then (c\<lparr>cl_rx_pos := 0\<rparr>, close (stream_error ''invalid-namespace''))
        else if \<not> has_attr b ''version'' ''1.0'' then (c\<lparr>cl_rx_pos := 0\<rparr>, close (stream_error ''unsupported-version''))
        else (let (c1, e1) = handshake (c, e) in (c1\<lparr>cl_rx_pos := 0\<rparr>, e1)))"

definition abort_resp :: string where
  "abort_resp = ''<failure xmlns='urn:ietf:params:xml:ns:xmpp-sasl'><aborted/></failure>''"

definition sasl_abort :: "nat \<Rightarrow> cx \<Rightarrow> cx" where
  "sasl_abort gt x = (let (c, e) = send_raw abort_resp x in (rx_consume (gt + 1) c, e))"

subsection \<open>The receive loop\<close>

text \<open>What one round of the loop does: the loop goes on, the callback returns, or the parser has left
  the memory it owns.\<close>

datatype recv_state = Running world | Returned world | Undefined

definition resource_constraint :: string where
  "resource_constraint =
     ''<stream:error><resource-constraint xmlns='urn:ietf:params:xml:ns:xmpp-stanzas'/></stream:error></stream:stream>''"

definition refuse_memory :: "nat \<Rightarrow> cx \<Rightarrow> cx" where
  "refuse_memory pcb x =
     (case x of (c, e) \<Rightarrow>
        (c\<lparr>cl_pcb := None, cl_state := STATE_CONNECTED\<rparr>, tcp_close (Some pcb) (tcp_say (Some pcb) resource_constraint e)))"

definition handle_stanza :: "nat \<Rightarrow> nat \<Rightarrow> world \<Rightarrow> world" where
  "handle_stanza ctx i w =
     (if cl_state (client w ctx) = STATE_CONNECTED \<or> cl_state (client w ctx) = STATE_SASL then
        if strcmp (st_xmlns (stanza_pool w ! i)) ''urn:ietf:params:xml:ns:xmpp-sasl'' = 0
        then handle_sasl ctx (stanza_pool w ! i) w else w
      else upd_client ctx xmpp_sm_on_stanza_received (xmpp_route_stanza ctx i w))"

definition recv_stanza :: "bool \<Rightarrow> nat \<Rightarrow> nat \<Rightarrow> world \<Rightarrow> recv_state" where
  "recv_stanza has_sse42 ctx pcb w =
     (case parse_xml_stream has_sse42 (cl_rx_buffer (client w ctx)) (cl_rx_pos (client w ctx)) w of
        None \<Rightarrow> Undefined
      | Some (Some i, bytes_consumed, _, w1) \<Rightarrow>
          let w2 = handle_stanza ctx i w1;
              w3 = w2\<lparr>stanza_pool := xmpp_free_stanza (Some i) (stanza_pool w2)\<rparr>
          in Running (if bytes_consumed > 0 then upd_client ctx (rx_consume bytes_consumed) w3 else w3)
      | Some (None, _, reason, w1) \<Rightarrow>
          Returned (if reason = Some PARSE_NO_MEMORY then on_client ctx (refuse_memory pcb) w1 else w1))"

definition recv_element :: "bool \<Rightarrow> nat \<Rightarrow> nat \<Rightarrow> world \<Rightarrow> recv_state" where
  "recv_element has_sse42 ctx pcb w =
     (if \<not> cl_state (client w ctx) < STATE_SESSION then
        (let w1 = on_client ctx (\<lambda>x. snd (xmpp_sm_handle_element x)) w in
         if fst (xmpp_sm_handle_element (client w ctx, env w)) then Running w1 else recv_stanza has_sse42 ctx pcb w1)
      else recv_stanza has_sse42 ctx pcb w)"

definition recv_round :: "bool \<Rightarrow> nat \<Rightarrow> nat \<Rightarrow> world \<Rightarrow> recv_state" where
  "recv_round has_sse42 ctx pcb w0 =
     (let w = upd_client ctx skip_space w0; c = client w ctx; b = cl_rx_buffer c; st = cl_state c in
      if cl_rx_pos c = 0 then Returned w
      else if st = STATE_CONNECTED \<and> \<not> cl_tls_established c \<and> strncmp b ''<starttls'' 9 = 0 then
        (if strchr b CHR ''>'' = None then Returned w else Returned (on_client ctx starttls w))
      else if strncmp b ''</stream:stream'' 15 = 0 \<or> strncmp b ''</stream>'' 9 = 0 then
        Returned (on_client ctx stream_end w)
      else if (st = STATE_CONNECTED \<or> st = STATE_AUTHENTICATED) \<and>
              (strncmp b ''<?xml'' 5 = 0 \<or> strstr b ''<stream:stream'' \<noteq> None) then
        (if strstr b ''<stream:stream'' \<noteq> None then Returned (on_client ctx stream_open w) else Returned w)
      else if (st = STATE_CONNECTED \<or> st = STATE_SASL) \<and> strncmp b ''<abort'' 6 = 0 then
        (case strchr b CHR ''>'' of
           Some gt \<Rightarrow> Running (on_client ctx (sasl_abort gt) w)
         | None \<Rightarrow> Returned w)
      else recv_element has_sse42 ctx pcb w)"

text \<open>The loop itself; \<open>None\<close> would be a loop that never ends.\<close>

definition recv_loop :: "bool \<Rightarrow> nat \<Rightarrow> nat \<Rightarrow> world \<Rightarrow> recv_state option" where
  "recv_loop has_sse42 ctx pcb w =
     while_option (\<lambda>s. case s of Running w \<Rightarrow> cl_rx_pos (client w ctx) > 0 | _ \<Rightarrow> False)
       (\<lambda>s. case s of Running w \<Rightarrow> recv_round has_sse42 ctx pcb w | _ \<Rightarrow> s) (Running w)"

subsection \<open>The callbacks\<close>

definition overflow :: "nat \<Rightarrow> string list \<Rightarrow> cx \<Rightarrow> cx" where
  "overflow pcb p x =
     (case x of (c, e) \<Rightarrow>
        (c\<lparr>cl_pcb := None, cl_state := STATE_CONNECTED\<rparr>,
         tcp_close (Some pcb) (tcp_say (Some pcb) policy_violation (tcp_recved (Some pcb) (tot_len p) e))))"

definition acknowledge :: "nat \<Rightarrow> string list \<Rightarrow> cx \<Rightarrow> cx" where
  "acknowledge pcb p x = (fst x, tcp_recved (Some pcb) (tot_len p) (snd x))"

definition xmpp_recv_callback :: "bool \<Rightarrow> nat \<Rightarrow> nat \<Rightarrow> string list option \<Rightarrow> world \<Rightarrow> recv_state option" where
  "xmpp_recv_callback has_sse42 ctx pcb p w =
     (case p of
        None \<Rightarrow> Some (Returned (on_client ctx (recv_closed pcb) w))
      | Some qs \<Rightarrow>
          if cl_state (client w ctx) = STATE_STARTTLS then
            Some (Returned (on_client ctx (\<lambda>x. chain_step xmpp_tls_handshake_step qs (acknowledge pcb qs x)) w))
          else if cl_tls_established (client w ctx) then
            recv_loop has_sse42 ctx pcb (on_client ctx (\<lambda>x. chain_step xmpp_tls_decrypt qs (acknowledge pcb qs x)) w)
          else
            let w1 = upd_client ctx (\<lambda>c. snd (rx_copy qs c)) w in
            if fst (rx_copy qs (client w ctx)) then Some (Returned (on_client ctx (overflow pcb qs) w1))
            else recv_loop has_sse42 ctx pcb (on_client ctx (acknowledge pcb qs) w1))"

definition xmpp_err_callback :: "nat option \<Rightarrow> world \<Rightarrow> world" where
  "xmpp_err_callback arg w =
     (case arg of
        None \<Rightarrow> w
      | Some ctx \<Rightarrow>
          on_client ctx (\<lambda>(c, e). (zero_client, snd (xmpp_tls_client_free (c\<lparr>cl_pcb := None\<rparr>, e)))) w)"

definition accept_ctx :: "nat \<Rightarrow> cx \<Rightarrow> cx" where
  "accept_ctx newpcb x =
     (let e1 = (if cl_pcb (fst x) \<noteq> None then (let (c, e) = xmpp_tls_client_free x in tcp_close (cl_pcb c) e) else snd x)
      in (zero_client\<lparr>cl_pcb := Some newpcb, cl_state := STATE_CONNECTED, cl_authenticated := False\<rparr>, e1))"

definition xmpp_accept_callback :: "nat \<Rightarrow> world \<Rightarrow> world" where
  "xmpp_accept_callback newpcb w =
     on_client (client_idx w) (accept_ctx newpcb) (w\<lparr>client_idx := (client_idx w + 1) mod MAX_USERS\<rparr>)"

text \<open>The server does not come up when the TLS setup fails; the code then spins forever.\<close>

definition xmpp_init_server :: "int \<Rightarrow> world \<Rightarrow> world option" where
  "xmpp_init_server tls_server_init w =
     (let w1 = xmpp_persist_load_all w in if tls_server_init \<noteq> 0 then None else Some w1)"

subsection \<open>Polling\<close>

text \<open>The two loops over the clients in the main loop of the kernel.\<close>

definition poll_handshake :: "nat \<Rightarrow> world \<Rightarrow> world" where
  "poll_handshake i w =
     (let c = client w i in
      if cl_pcb c \<noteq> None \<and> cl_state c = STATE_STARTTLS \<and> cl_tls_want_write c
      then on_client i (xmpp_tls_handshake_step []) w else w)"

definition poll_ack :: "nat \<Rightarrow> world \<Rightarrow> world" where
  "poll_ack i w =
     (if cl_pcb (client w i) \<noteq> None \<and> cl_sm_want_ack (client w i)
      then on_client i (\<lambda>(c, e). xmpp_sm_request_ack (c\<lparr>cl_sm_want_ack := False\<rparr>, e)) w else w)"

definition kernel_poll :: "world \<Rightarrow> world" where
  "kernel_poll w = for_range MAX_USERS poll_ack (for_range MAX_USERS poll_handshake w)"

subsection \<open>Steps of a connection\<close>

text \<open>A context whose buffers are in order and whose state is backed by a login over TLS.\<close>

definition sound :: "xmpp_client_ctx_t \<Rightarrow> bool" where
  "sound c \<longleftrightarrow> client_ok c \<and> secure c"

named_theorems sound_intro

lemma sound_zero [sound_intro]: "sound zero_client"
  by (simp add: sound_def)

lemma sound_closed: "client_ok c \<Longrightarrow> cl_pcb c = None \<Longrightarrow> cl_state c < STATE_AUTHENTICATED \<Longrightarrow> sound c"
  by (auto simp: sound_def secure_def not_le)

text \<open>What lwIP and mbedTLS leave of a connection: it goes on, or it is closed.\<close>

definition conn_step :: "xmpp_client_ctx_t \<Rightarrow> xmpp_client_ctx_t \<Rightarrow> bool" where
  "conn_step c c' \<longleftrightarrow> cl_state c' = cl_state c \<and> cl_authenticated c' = cl_authenticated c \<and>
     (cl_pcb c' = None \<or> cl_pcb c' = cl_pcb c \<and> cl_tls_established c' = cl_tls_established c)"

lemma conn_step_secure: "secure c \<Longrightarrow> conn_step c c' \<Longrightarrow> secure c'"
  by (auto simp: secure_def conn_step_def)

lemma conn_step_trans: "conn_step a b \<Longrightarrow> conn_step b c \<Longrightarrow> conn_step a c"
  by (auto simp: conn_step_def)

lemma conn_step_frames [simp]:
  "conn_step c c" "conn_step c (tls_staging_compact c)" "conn_step c (stage d c)" "conn_step c (rx_append d c)"
  "conn_step c (c\<lparr>cl_pcb := None\<rparr>)" "conn_step c (rx_consume n c)"
  by (simp_all add: conn_step_def tls_staging_compact_def stage_def rx_append_def rx_consume_def Let_def)

lemma conn_step_bio: "bio_frame c c' \<Longrightarrow> conn_step c c'"
  by (auto simp: bio_frame_def conn_step_def)

lemma conn_step_same: "same_conn c c' \<Longrightarrow> conn_step c c'"
  by (simp add: same_conn_def conn_step_def)

lemma ssl_write_client: "bio_frame c (fst (snd (ssl_write d (c, e))))"
  using ssl_write_frame [of d c e] by (cases "ssl_write d (c, e)") auto

lemma close_pcb_step: "conn_step c (fst (close_pcb (c, e)))" "cl_pcb (fst (close_pcb (c, e))) = None"
  by (auto simp: close_pcb_def conn_step_def)

lemma decrypt_loop_step: "conn_step (fst x) (fst (decrypt_loop x))"
proof (induction x rule: decrypt_loop.induct)
  case (1 x)
  obtain ret dec c e where rd: "ssl_read MBEDTLS_SSL_IN_CONTENT_LEN x = (ret, dec, c, e)"
    by (metis prod_cases4)
  obtain c0 e0 where x: "x = (c0, e0)" by force
  have c: "conn_step c0 c" using ssl_read_frame [OF rd [unfolded x]] by (rule conn_step_bio)
  note eq = decrypt_loop.simps [of x, unfolded rd prod.case]
  have IH: "conn_step c0 (fst (decrypt_loop (rx_append dec c, e)))"
    if "0 < ret" "cl_rx_pos c + nat ret < RX_BUF_SIZE - 1"
    using conn_step_trans [OF conn_step_trans [OF c conn_step_frames(4)] 1 [OF rd [symmetric] refl refl that, simplified]] .
  have w: "conn_step c (fst (snd (ssl_write policy_violation (c, e))))"
    by (rule conn_step_bio [OF ssl_write_client])
  have cl: "conn_step c0 (fst (close_pcb (c, e)))" by (rule conn_step_trans [OF c close_pcb_step(1)])
  have fin: "conn_step c0 ((fst (snd (ssl_write policy_violation (c, e))))\<lparr>cl_pcb := None\<rparr>)"
    using conn_step_trans [OF c w] by (auto simp: conn_step_def)
  have err: "conn_step c0 ((fst (close_pcb (c, e)))\<lparr>cl_tls_established := False\<rparr>)"
    using cl close_pcb_step(2) [of c e] by (auto simp: conn_step_def)
  have st: "conn_step c0 (tls_staging_compact c)" by (rule conn_step_trans [OF c]) simp
  show ?case unfolding eq using IH cl fin err st c by (auto simp: x case_prod_beta Let_def)
qed

lemma xmpp_tls_decrypt_step: "conn_step (fst x) (fst (xmpp_tls_decrypt data x))"
  using decrypt_loop_step [of "(stage data (tls_staging_compact (fst x)), snd x)"]
    close_pcb_step(1) [of "tls_staging_compact (fst x)" "snd x"]
  by (auto simp: xmpp_tls_decrypt_def Let_def case_prod_beta
      intro: conn_step_trans [OF conn_step_trans [OF conn_step_frames(2) conn_step_frames(3)]]
        conn_step_trans [OF conn_step_frames(2)])

lemma decrypt_sound [sound_intro]: "sound (fst x) \<Longrightarrow> sound (fst (xmpp_tls_decrypt data x))"
  using xmpp_tls_decrypt_ok xmpp_tls_decrypt_step conn_step_secure unfolding sound_def by blast

lemma handshake_step_secure: "secure (fst x) \<Longrightarrow> secure (fst (xmpp_tls_handshake_step data x))"
proof (cases x)
  case (Pair c0 e0)
  assume s: "secure (fst x)"
  define c1 where "c1 = stage data (tls_staging_compact c0)"
  obtain ret c2 e2 where h: "ssl_handshake (c1, e0) = (ret, c2, e2)" by (metis prod_cases3)
  have "conn_step c0 c1" unfolding c1_def
    by (rule conn_step_trans [OF conn_step_frames(2) conn_step_frames(3)])
  then have "conn_step c0 (tls_staging_compact c2)"
    using conn_step_trans [OF conn_step_trans [OF _ conn_step_bio [OF ssl_handshake_frame [OF h]]] conn_step_frames(2)] by blast
  note s2 = conn_step_secure [OF s [unfolded Pair fst_conv] this]
  then show ?thesis
    using close_pcb_step(2) h
    by (auto simp: Pair xmpp_tls_handshake_step_def Let_def case_prod_beta c1_def [symmetric] secure_def
        less_eq_client_state_t_def)
qed

lemma handshake_step_sound [sound_intro]: "sound (fst x) \<Longrightarrow> sound (fst (xmpp_tls_handshake_step data x))"
  using xmpp_tls_handshake_step_ok handshake_step_secure unfolding sound_def by blast

lemma chain_step_sound:
  "(\<And>q x. sound (fst x) \<Longrightarrow> sound (fst (f q x))) \<Longrightarrow> sound (fst x) \<Longrightarrow> sound (fst (chain_step f qs x))"
  by (induction qs arbitrary: x) auto

lemma rx_copy_sound [sound_intro]: "sound c \<Longrightarrow> sound (snd (rx_copy qs c))"
proof (induction qs arbitrary: c)
  case (Cons q qs)
  have "sound (rx_append q c)" if "cl_rx_pos c + length q < RX_BUF_SIZE - 1"
    using Cons.prems rx_append_ok [OF _ that] conn_step_secure [of c] by (simp add: sound_def)
  then show ?case using Cons by simp
qed simp

lemma rx_consume_sound: "sound c \<Longrightarrow> n \<le> cl_rx_pos c \<Longrightarrow> sound (rx_consume n c)"
  using rx_consume_ok conn_step_secure [of c] by (simp add: sound_def)

lemma send_raw_sound: "sound (fst x) \<Longrightarrow> sound (fst (send_raw d x))"
  using send_raw_ok secure_same_conn [OF _ same_conn_send [OF send_raw_frame]] by (auto simp: sound_def)

lemma ssl_close_notify_client: "bio_frame (fst x) (fst (ssl_close_notify x))"
  using ssl_call_frame [of "fst x" "snd x"] by (cases "ssl_call x") (auto simp: ssl_close_notify_def)

lemma tls_goodbye_frame: "bio_frame (fst x) (fst (tls_goodbye x))"
  using bio_frame_trans [OF ssl_write_client [of "fst x" close_tag "snd x"]] ssl_close_notify_client
  by (auto simp: tls_goodbye_def case_prod_beta Let_def)

lemma tls_goodbye_ok: "client_ok (fst x) \<Longrightarrow> client_ok (fst (tls_goodbye x))"
  using bio_frame_ok tls_goodbye_frame by blast

lemma closed_sound: "client_ok c \<Longrightarrow> sound (c\<lparr>cl_pcb := None, cl_state := STATE_CONNECTED\<rparr>)"
  "client_ok c \<Longrightarrow> sound (c\<lparr>cl_pcb := None, cl_state := STATE_CONNECTED, cl_rx_pos := 0\<rparr>)"
  by (rule sound_closed; auto simp: client_ok_def less_client_state_t_def)+

lemma send_stream_close_ok: "client_ok (fst x) \<Longrightarrow> client_ok (fst (send_stream_close_and_free x))"
proof -
  assume x: "client_ok (fst x)"
  have "client_ok (c\<lparr>cl_pcb := None, cl_state := STATE_CONNECTED\<rparr>)" if "client_ok c" for c
    using that by (simp add: client_ok_def)
  note freed = this [OF xmpp_tls_client_free_ok]
  show ?thesis using x tls_goodbye_ok [OF x]
    by (simp add: send_stream_close_and_free_def Let_def case_prod_beta freed)
qed

lemma recv_closed_sound [sound_intro]: "sound (fst x) \<Longrightarrow> sound (fst (recv_closed pcb x))"
proof -
  assume "sound (fst x)"
  then have "client_ok ((fst x)\<lparr>cl_pcb := p\<rparr>)" for p by (simp add: sound_def client_ok_def)
  then show ?thesis unfolding recv_closed_def Let_def case_prod_beta fst_conv
    by (intro closed_sound(1) send_stream_close_ok) simp
qed

lemma stream_end_sound [sound_intro]: "sound (fst x) \<Longrightarrow> sound (fst (stream_end x))"
  using tls_goodbye_ok [of x]
  by (simp add: stream_end_def Let_def case_prod_beta sound_def [of "fst x"] closed_sound xmpp_tls_client_free_ok)

lemma refuse_sound [sound_intro]:
  "sound (fst x) \<Longrightarrow> sound (fst (refuse_memory pcb x))" "sound (fst x) \<Longrightarrow> sound (fst (overflow pcb p x))"
  "sound (fst x) \<Longrightarrow> sound (fst (acknowledge pcb p x))"
  by (simp_all add: refuse_memory_def overflow_def acknowledge_def case_prod_beta sound_def [of "fst x"] closed_sound)

lemma tls_init_client:
  assumes "xmpp_tls_client_init x = (r, y)"
  shows "cl_pcb (fst y) = cl_pcb (fst x)" "cl_authenticated (fst y) = cl_authenticated (fst x)"
  using assms by (auto simp: xmpp_tls_client_init_def Let_def split: prod.splits if_splits)

lemma starttls_sound:
  assumes "sound (fst x)" and "\<not> cl_tls_established (fst x)"
  shows "sound (fst (starttls x))"
proof -
  obtain c e where x: "x = (c, e)" by force
  obtain r c1 e1 where i: "xmpp_tls_client_init (c, tcp_say (cl_pcb c) proceed e) = (r, c1, e1)" by (metis prod_cases3)
  have "client_ok c1" using xmpp_tls_client_init_ok [OF _ i] assms x by (simp add: sound_def)
  moreover have "cl_authenticated c1 \<longrightarrow> cl_pcb c1 = None"
    using tls_init_client [OF i] assms x by (auto simp: sound_def secure_def)
  ultimately have "sound (c1\<lparr>cl_state := STATE_STARTTLS, cl_rx_pos := 0\<rparr>)"
    by (auto simp: sound_def secure_def client_ok_def less_eq_client_state_t_def)
  with i \<open>client_ok c1\<close> show ?thesis by (simp add: starttls_def x closed_sound)
qed

lemma extract_stream_attr_ok:
  "buf n out \<Longrightarrow> out_max \<le> n \<Longrightarrow> 0 < out_max \<Longrightarrow> buf n (snd (extract_stream_attr b a out out_max))"
  by (auto simp: extract_stream_attr_def Let_def buf_length split: option.split intro!: buf_strncpy_term)

lemma set_client_from_sound: "sound c \<Longrightarrow> sound (set_client_from c)"
  using extract_stream_attr_ok [of 64 "poke (cl_client_from c) 0 NUL" 64]
  by (auto simp: sound_def secure_def set_client_from_def client_ok_def buf_poke_NUL buf_length)

lemma handshake_sound: "sound (fst x) \<Longrightarrow> sound (fst (handshake x))"
proof -
  assume x: "sound (fst x)"
  then have "secure ((fst x)\<lparr>cl_state := (if cl_authenticated (fst x) then STATE_BIND
     else if cl_tls_established (fst x) then STATE_SASL else cl_state (fst x))\<rparr>)"
    by (auto simp: sound_def secure_def less_eq_client_state_t_def)
  then show ?thesis using x handshake_ok [of "fst x" "snd x"] secure_same_conn handshake_client [of "fst x" "snd x"]
    by (auto simp: sound_def)
qed

lemma reset_sound: "sound c \<Longrightarrow> sound (c\<lparr>cl_rx_pos := 0\<rparr>)" "sound c \<Longrightarrow> sound (c\<lparr>cl_pcb := None, cl_rx_pos := 0\<rparr>)"
  by (auto simp: sound_def secure_def client_ok_def)

lemma stream_open_sound [sound_intro]: "sound (fst x) \<Longrightarrow> sound (fst (stream_open x))"
  using set_client_from_sound [of "fst x"] handshake_sound [of "(set_client_from (fst x), snd x)"]
  by (auto simp: stream_open_def Let_def case_prod_beta reset_sound)

lemma sasl_abort_sound:
  "sound (fst x) \<Longrightarrow> gt + 1 \<le> cl_rx_pos (fst x) \<Longrightarrow> sound (fst (sasl_abort gt x))"
  using send_raw_sound [of x abort_resp] by (auto simp: sasl_abort_def case_prod_beta Let_def intro!: rx_consume_sound)

lemma sasl_refuse_secure: "secure (fst x) \<Longrightarrow> secure (fst (sasl_refuse x))"
  by (auto simp: secure_def sasl_refuse_def Let_def case_prod_beta less_eq_client_state_t_def)

lemma sasl_secure: "secure (fst x) \<Longrightarrow> secure (fst (sasl st x))"
proof -
  assume x: "secure (fst x)"
  obtain c e where xc: "x = (c, e)" by force
  have send: "secure (fst (send_raw d (c, e)))" for d
    using x secure_same_conn [OF _ same_conn_send [OF send_raw_frame]] by (simp add: xc)
  have ref: "secure (fst (sasl_refuse (c\<lparr>cl_username := u\<rparr>, e)))" for u
    using x by (intro sasl_refuse_secure) (simp add: xc secure_def)
  have acc: "secure (fst (sasl_accept (c\<lparr>cl_username := u\<rparr>, e)))" if "cl_tls_established c" for u
    using that by (simp add: sasl_accept_def Let_def case_prod_beta secure_def)
  show ?thesis using send ref acc by (auto simp: sasl_def xc Let_def split: option.split)
qed

lemma sasl_sound [sound_intro]: "sound (fst x) \<Longrightarrow> sound (fst (sasl st x))"
  by (simp add: sound_def sasl_ok sasl_secure)

lemma sm_reply_step: "same_conn c c' \<Longrightarrow> conn_step c (rx_consume n (fst (send_raw d (c', e))))"
  using conn_step_trans [OF conn_step_trans [OF conn_step_same conn_step_same [OF same_conn_send [OF send_raw_frame [of "(c', e)" d]]]]
      conn_step_frames(6)] by fastforce

lemma sm_handlers_step:
  "sm_handle_enable x = Some r \<Longrightarrow> conn_step (fst x) (fst (snd r))"
  "sm_handle_request x = Some r \<Longrightarrow> conn_step (fst x) (fst (snd r))"
  "sm_handle_answer x = Some r \<Longrightarrow> conn_step (fst x) (fst (snd r))"
  by (auto simp: sm_handle_enable_def sm_handle_request_def sm_handle_answer_def xmpp_sm_send_enabled_def
      xmpp_sm_send_ack_def Let_def case_prod_beta same_conn_def split: if_splits option.splits
      intro!: sm_reply_step [of "fst x" "fst x" _ _ "snd x", simplified] sm_reply_step)

lemma sm_element_step: "conn_step (fst x) (fst (snd (xmpp_sm_handle_element x)))"
  using sm_handlers_step by (auto simp: xmpp_sm_handle_element_def split: option.split)

lemma sm_element_sound:
  "sound (fst x) \<Longrightarrow> 0 < cl_rx_pos (fst x) \<Longrightarrow> sound (fst (snd (xmpp_sm_handle_element x)))"
  using sm_handle_element_effect(1) [of x "fst (xmpp_sm_handle_element x)" "snd (xmpp_sm_handle_element x)"]
    conn_step_secure [OF _ sm_element_step] by (auto simp: sound_def)

subsection \<open>The state of the server\<close>

text \<open>Between two callbacks: all objects are in order, every state past the login is backed by one,
  and no stanza of the pool is in use.\<close>

definition server_ok :: "world \<Rightarrow> bool" where
  "server_ok w \<longleftrightarrow> world_ok w \<and> list_all secure (client_registry w) \<and> list_all (\<lambda>s. \<not> st_is_used s) (stanza_pool w)"

lemma server_ok_sound: "server_ok w \<Longrightarrow> i < 20 \<Longrightarrow> sound (client w i)"
  by (auto simp: server_ok_def sound_def world_ok_client world_ok_lengths intro: list_all_nthD)

lemma server_ok_on_client:
  assumes "server_ok w" and "i < 20 \<Longrightarrow> sound (client w i) \<Longrightarrow> sound (fst (f (client w i, env w)))"
  shows "server_ok (on_client i f w)"
proof (cases "i < 20")
  case True
  with assms have s: "sound (fst (f (client w i, env w)))" using server_ok_sound by blast
  moreover have "world_ok (on_client i f w)"
    using assms(1) s by (intro world_ok_on_client) (simp_all add: server_ok_def sound_def)
  ultimately show ?thesis
    using assms(1) by (auto simp: server_ok_def sound_def on_client_def Let_def case_prod_beta intro!: list_all_update)
next
  case False
  with assms(1) have "length (client_registry w) \<le> i" by (simp add: server_ok_def world_ok_lengths)
  with assms(1) show ?thesis
    by (auto simp: server_ok_def on_client_def Let_def case_prod_beta list_update_beyond)
qed

lemma upd_client_on_client: "upd_client i f w = on_client i (\<lambda>(c, e). (f c, e)) w"
  by (simp add: upd_client_def on_client_def)

lemma server_ok_upd_client:
  assumes "server_ok w" and "i < 20 \<Longrightarrow> sound (client w i) \<Longrightarrow> sound (f (client w i))"
  shows "server_ok (upd_client i f w)"
  using assms unfolding upd_client_on_client by (intro server_ok_on_client) simp_all

lemma sasl_rx [simp]: "cl_rx_pos (fst (sasl st x)) = cl_rx_pos (fst x)"
  by (cases x) (auto simp: sasl_def sasl_refuse_def sasl_accept_def Let_def case_prod_beta split: option.split)

text \<open>Handling a stanza keeps the received text, and the pool but for the stanza.\<close>

lemma handle_stanza_effect:
  assumes w: "world_ok w" and s: "list_all secure (client_registry w)" and c: "ctx < 20" and i: "i < 16"
  shows "world_ok (handle_stanza ctx i w) \<and> list_all secure (client_registry (handle_stanza ctx i w)) \<and>
    cl_rx_pos (client (handle_stanza ctx i w) ctx) = cl_rx_pos (client w ctx) \<and>
    (\<exists>st. stanza_pool (handle_stanza ctx i w) = (stanza_pool w)[i := st])"
proof (cases "cl_state (client w ctx) = STATE_CONNECTED \<or> cl_state (client w ctx) = STATE_SASL")
  case True
  have "sound (fst (sasl st (client w ctx, e)))" for st e
    using w s c by (intro sasl_sound) (auto simp: sound_def world_ok_client world_ok_lengths intro: list_all_nthD)
  moreover have "\<exists>st. stanza_pool w = (stanza_pool w)[i := st]" by (rule exI [of _ "stanza_pool w ! i"]) simp
  ultimately show ?thesis
    using True w s c handle_sasl_ok [OF w]
    by (auto simp: handle_stanza_def handle_sasl_def on_client_def Let_def case_prod_beta sound_def world_ok_lengths
        intro!: list_all_update)
next
  case False
  define st where "st = stamp_from (client w ctx) (stanza_pool w ! i)"
  define w1 where "w1 = w\<lparr>stanza_pool := (stanza_pool w)[i := st]\<rparr>"
  let ?P = "guarded ctx (cl_rx_buffer (client w ctx)) (cl_rx_pos (client w ctx)) ((stanza_pool w)[i := st])"
  have "conn_holds ?P w1" using w s c by (simp add: conn_holds_def guarded_def w1_def world_ok_lengths)
  then have "conn_holds ?P (route_dispatch ctx st w1)"
    using w by (intro guarded.dispatch_keeps) (simp_all add: w1_def world_ok_lengths)
  then have "conn_holds ?P (xmpp_route_stanza ctx i w)" by (simp add: xmpp_route_stanza_def st_def w1_def Let_def)
  then have "conn_holds ?P (handle_stanza ctx i w)"
    using False by (auto simp: handle_stanza_def intro!: guarded.upd_keeps)
  moreover have "world_ok (handle_stanza ctx i w)"
    using False w i by (auto simp: handle_stanza_def intro!: world_ok_upd_client xmpp_route_stanza_ok)
      (auto simp: xmpp_sm_on_stanza_received_def client_ok_def)
  ultimately show ?thesis by (auto simp: conn_holds_def guarded_def)
qed

lemma pool_idle_alloc: "list_all (\<lambda>s. \<not> st_is_used s) pool \<Longrightarrow> length pool = 16 \<Longrightarrow> xmpp_alloc_stanza pool \<noteq> None"
  by (auto simp: xmpp_alloc_stanza_def first_index_None list_all_length split: option.splits intro: exI [of _ 0])

text \<open>The result of a round: the invariant holds again, and a round that goes on has consumed input.\<close>

definition round_ok :: "nat \<Rightarrow> nat \<Rightarrow> recv_state \<Rightarrow> bool" where
  "round_ok ctx n s =
     (case s of Running w \<Rightarrow> server_ok w \<and> cl_rx_pos (client w ctx) < n | Returned w \<Rightarrow> server_ok w | Undefined \<Rightarrow> True)"

lemma recv_stanza_ok:
  assumes w: "server_ok w" and c: "ctx < 20"
  shows "round_ok ctx (cl_rx_pos (client w ctx)) (recv_stanza h ctx pcb w)"
proof (cases "parse_xml_stream h (cl_rx_buffer (client w ctx)) (cl_rx_pos (client w ctx)) w")
  case (Some t)
  obtain r n reason w1 where t: "t = (r, n, reason, w1)" by (cases t) auto
  have len: "length (stanza_pool w) = 16" "length (client_registry w) = 20" "world_ok w"
    using w by (auto simp: server_ok_def world_ok_def dest: array_ok_length)
  have "client_ok (client w ctx)" using server_ok_sound [OF w c] by (simp add: sound_def)
  then have b: "cl_rx_pos (client w ctx) \<le> length (cl_rx_buffer (client w ctx))" by (auto simp: client_ok_def buf_def)
  show ?thesis
  proof (cases r)
    case None
    have "w1 = w" "reason \<noteq> Some PARSE_NO_MEMORY"
      using parse_xml_stream_None [OF Some [unfolded t None]] pool_idle_alloc [of "stanza_pool w"] w len
      by (auto simp: server_ok_def)
    then show ?thesis using w by (simp add: recv_stanza_def Some t None round_ok_def)
  next
    case r: (Some i)
    obtain s where i: "i < 16" and s: "stanza_ok s" and w1: "w1 = w\<lparr>stanza_pool := (stanza_pool w)[i := s]\<rparr>"
      and n: "0 < n" "n \<le> cl_rx_pos (client w ctx)"
      by (rule parse_xml_stream_Some [OF Some [unfolded t r] len(1) b])
    have "world_ok w1" "list_all secure (client_registry w1)" using w s by (auto simp: w1 server_ok_def world_ok_def)
    from handle_stanza_effect [OF this c i] obtain st where
      w2: "world_ok (handle_stanza ctx i w1)" "list_all secure (client_registry (handle_stanza ctx i w1))"
        "cl_rx_pos (client (handle_stanza ctx i w1) ctx) = cl_rx_pos (client w ctx)"
      and pool: "stanza_pool (handle_stanza ctx i w1) = (stanza_pool w)[i := st]"
      using w1 by auto
    define w3 where "w3 = (handle_stanza ctx i w1)\<lparr>stanza_pool := (stanza_pool w)[i := st\<lparr>st_is_used := False\<rparr>]\<rparr>"
    have "array_ok 16 stanza_ok ((stanza_pool w)[i := st])" using w2(1) pool by (simp add: world_ok_def)
    from array_ok_nth [OF this i] have "stanza_ok st" using i len by simp
    then have "server_ok w3"
      using w2 w pool by (auto simp: server_ok_def w3_def world_ok_def stanza_ok_def intro!: list_all_update)
    moreover have "cl_rx_pos (client w3 ctx) = cl_rx_pos (client w ctx)" using w2 by (simp add: w3_def)
    ultimately have "server_ok (upd_client ctx (rx_consume n) w3) \<and>
        cl_rx_pos (client (upd_client ctx (rx_consume n) w3) ctx) = cl_rx_pos (client w ctx) - n"
      using n c w2 by (auto simp: w3_def world_ok_lengths rx_consume_def Let_def intro!: server_ok_upd_client rx_consume_sound)
    moreover have "recv_stanza h ctx pcb w = Running (upd_client ctx (rx_consume n) w3)"
      using n len i by (simp add: recv_stanza_def Some t r Let_def w3_def pool xmpp_free_stanza_def)
    ultimately show ?thesis using n by (simp add: round_ok_def)
  qed
qed (simp add: recv_stanza_def round_ok_def)

lemma round_ok_mono: "round_ok ctx n s \<Longrightarrow> n \<le> m \<Longrightarrow> round_ok ctx m s"
  by (auto simp: round_ok_def split: recv_state.splits)

lemma recv_element_ok:
  assumes w: "server_ok w" and c: "ctx < 20" and n: "0 < cl_rx_pos (client w ctx)"
  shows "round_ok ctx (cl_rx_pos (client w ctx)) (recv_element h ctx pcb w)"
proof (cases "cl_state (client w ctx) < STATE_SESSION")
  case False
  define y where "y = xmpp_sm_handle_element (client w ctx, env w)"
  define w1 where "w1 = on_client ctx (\<lambda>x. snd (xmpp_sm_handle_element x)) w"
  have s: "sound (client w ctx)" by (rule server_ok_sound [OF w c])
  have ok: "server_ok w1" unfolding w1_def using w n by (intro server_ok_on_client sm_element_sound) simp_all
  have cl: "client w1 ctx = fst (snd y)" "length (client_registry w) = 20"
    using w c by (simp_all add: w1_def y_def on_client_same server_ok_def world_ok_lengths)
  have eff: "fst y \<Longrightarrow> cl_rx_pos (fst (snd y)) < cl_rx_pos (client w ctx)" "\<not> fst y \<Longrightarrow> snd y = (client w ctx, env w)"
    using sm_handle_element_effect(3,4) [of "(client w ctx, env w)", OF _ _ prod.collapse [symmetric]] s n
    by (simp_all add: y_def sound_def)
  have "round_ok ctx (cl_rx_pos (client w ctx)) (recv_stanza h ctx pcb w1)" if "\<not> fst y"
    using recv_stanza_ok [OF ok c, of h pcb] cl eff(2) [OF that] by simp
  then show ?thesis using False ok cl eff(1)
    by (auto simp: recv_element_def y_def [symmetric] w1_def [symmetric] Let_def round_ok_def)
qed (simp add: recv_element_def recv_stanza_ok [OF w c])

lemma skip_space_sound: "sound c \<Longrightarrow> sound (skip_space c)"
proof -
  have "length (takeWhile p (take n xs)) \<le> n" for p n and xs :: string
    using length_takeWhile_le [of p "take n xs"] by simp
  then show "sound c \<Longrightarrow> sound (skip_space c)" by (simp add: skip_space_def Let_def rx_consume_sound)
qed

lemma skip_space_rx: "cl_rx_pos (skip_space c) \<le> cl_rx_pos c"
  by (simp add: skip_space_def Let_def rx_consume_def)

lemma recv_round_ok:
  assumes w0: "server_ok w0" and c: "ctx < 20"
  shows "round_ok ctx (cl_rx_pos (client w0 ctx)) (recv_round h ctx pcb w0)"
proof -
  define w where "w = upd_client ctx skip_space w0"
  have ok: "server_ok w" unfolding w_def using w0 by (intro server_ok_upd_client skip_space_sound)
  have le: "cl_rx_pos (client w ctx) \<le> cl_rx_pos (client w0 ctx)"
    using w0 c by (simp add: w_def server_ok_def world_ok_lengths skip_space_rx)
  have s: "sound (client w ctx)" by (rule server_ok_sound [OF ok c])
  have ret: "server_ok (on_client ctx stream_end w)" "server_ok (on_client ctx stream_open w)"
    using ok by (auto intro!: server_ok_on_client sound_intro)
  have tls: "server_ok (on_client ctx starttls w)" if "\<not> cl_tls_established (client w ctx)"
    using ok that by (auto intro!: server_ok_on_client starttls_sound)
  have ab: "round_ok ctx (cl_rx_pos (client w ctx)) (Running (on_client ctx (sasl_abort gt) w))"
    if gt: "strchr (cl_rx_buffer (client w ctx)) CHR ''>'' = Some gt" and n: "0 < cl_rx_pos (client w ctx)" for gt
  proof -
    have le: "gt + 1 \<le> cl_rx_pos (client w ctx)" using rx_strchr_bound [OF _ n gt] s by (simp add: sound_def)
    have "server_ok (on_client ctx (sasl_abort gt) w)" using ok le by (intro server_ok_on_client sasl_abort_sound) simp_all
    moreover have "cl_rx_pos (client (on_client ctx (sasl_abort gt) w) ctx) = cl_rx_pos (client w ctx) - (gt + 1)"
      using ok c by (simp add: on_client_same server_ok_def world_ok_lengths sasl_abort_def Let_def case_prod_beta rx_consume_def)
    ultimately show ?thesis using le by (simp add: round_ok_def)
  qed
  note el = recv_element_ok [OF ok c, of h pcb]
  have "round_ok ctx (cl_rx_pos (client w ctx)) (recv_round h ctx pcb w0)"
    unfolding recv_round_def w_def [symmetric] Let_def
    using ok ret tls ab el by (simp add: round_ok_def split: option.split)
  then show ?thesis using le by (rule round_ok_mono)
qed

lemma recv_loop_result:
  assumes "server_ok w" and "ctx < 20"
  shows "\<exists>s. recv_loop h ctx pcb w = Some s \<and>
    (case s of Running w' \<Rightarrow> server_ok w' \<and> cl_rx_pos (client w' ctx) = 0 | Returned w' \<Rightarrow> server_ok w' | Undefined \<Rightarrow> True)"
proof -
  let ?b = "\<lambda>s. case s of Running w \<Rightarrow> cl_rx_pos (client w ctx) > 0 | _ \<Rightarrow> False"
  let ?c = "\<lambda>s. case s of Running w \<Rightarrow> recv_round h ctx pcb w | _ \<Rightarrow> s"
  let ?P = "\<lambda>s. case s of Running w \<Rightarrow> server_ok w | Returned w \<Rightarrow> server_ok w | Undefined \<Rightarrow> True"
  let ?f = "\<lambda>s. case s of Running w \<Rightarrow> Suc (cl_rx_pos (client w ctx)) | _ \<Rightarrow> 0"
  have step: "?P (?c s) \<and> ?f (?c s) < ?f s" if "?P s" "?b s" for s
  proof (cases s)
    case (Running v)
    with that have "round_ok ctx (cl_rx_pos (client v ctx)) (recv_round h ctx pcb v)"
      using recv_round_ok [OF _ assms(2)] by simp
    then show ?thesis using Running by (cases "recv_round h ctx pcb v") (simp_all add: round_ok_def)
  qed (use that in auto)
  obtain s where s: "while_option ?b ?c (Running w) = Some s"
    using measure_while_option_Some [of ?P ?b ?c ?f "Running w"] step assms(1) by auto
  moreover have "?P s" using while_option_rule [of ?P ?b ?c "Running w" s] step s assms(1) by auto
  moreover have "\<not> ?b s" using while_option_stop [OF s] .
  ultimately show ?thesis by (auto simp: recv_loop_def split: recv_state.splits)
qed

subsection \<open>Runs of the server\<close>

lemma xmpp_recv_callback_result:
  assumes w: "server_ok w" and c: "ctx < 20"
  shows "\<exists>s. xmpp_recv_callback h ctx pcb p w = Some s \<and>
    (case s of Running w' \<Rightarrow> server_ok w' | Returned w' \<Rightarrow> server_ok w' | Undefined \<Rightarrow> True)"
proof -
  have loop: "\<exists>s. recv_loop h ctx pcb v = Some s \<and>
      (case s of Running w' \<Rightarrow> server_ok w' | Returned w' \<Rightarrow> server_ok w' | Undefined \<Rightarrow> True)" if "server_ok v" for v
    using recv_loop_result [OF that c, of h pcb] by (fastforce split: recv_state.splits)
  have chain: "sound (fst (chain_step xmpp_tls_handshake_step qs (acknowledge pcb qs x)))"
    "sound (fst (chain_step xmpp_tls_decrypt qs (acknowledge pcb qs x)))" if "sound (fst x)" for qs x
    using that by (auto intro!: chain_step_sound sound_intro)
  have "server_ok (on_client ctx (recv_closed pcb) w)"
    "server_ok (on_client ctx (\<lambda>x. chain_step xmpp_tls_handshake_step qs (acknowledge pcb qs x)) w)"
    "server_ok (on_client ctx (\<lambda>x. chain_step xmpp_tls_decrypt qs (acknowledge pcb qs x)) w)" for qs
    using w by (auto intro!: server_ok_on_client chain sound_intro)
  moreover have "server_ok (on_client ctx (overflow pcb qs) (upd_client ctx (\<lambda>c. snd (rx_copy qs c)) w))"
    "server_ok (on_client ctx (acknowledge pcb qs) (upd_client ctx (\<lambda>c. snd (rx_copy qs c)) w))" for qs
    using w by (auto intro!: server_ok_on_client server_ok_upd_client sound_intro)
  ultimately show ?thesis
    using loop by (cases p) (simp_all add: xmpp_recv_callback_def Let_def)
qed

text \<open>The events that run server code: a connection is accepted, data or the end of the stream
  arrive, a connection fails, and the kernel polls.  The contexts and pcbs lwIP passes are arbitrary.\<close>

inductive server_step :: "bool \<Rightarrow> world \<Rightarrow> world \<Rightarrow> bool" for has_sse42 where
  accepted: "server_step has_sse42 w (xmpp_accept_callback newpcb w)"
| received: "ctx < MAX_USERS \<Longrightarrow> xmpp_recv_callback has_sse42 ctx pcb p w = Some s \<Longrightarrow> s = Running w' \<or> s = Returned w' \<Longrightarrow>
    server_step has_sse42 w w'"
| failed: "server_step has_sse42 w (xmpp_err_callback arg w)"
| polled: "server_step has_sse42 w (kernel_poll w)"

inductive_cases server_stepE: "server_step has_sse42 w w'"

definition runs_to :: "bool \<Rightarrow> world \<Rightarrow> world \<Rightarrow> bool" where
  "runs_to has_sse42 = (server_step has_sse42)\<^sup>*\<^sup>*"

lemma accept_ok: "server_ok w \<Longrightarrow> server_ok (xmpp_accept_callback newpcb w)"
proof -
  assume "server_ok w"
  then have "server_ok (w\<lparr>client_idx := (client_idx w + 1) mod MAX_USERS\<rparr>)"
    by (simp add: server_ok_def world_ok_def)
  moreover have "sound (fst (accept_ctx newpcb x))" for x
    by (simp add: accept_ctx_def Let_def sound_def secure_def less_eq_client_state_t_def)
      (simp add: client_ok_def zero_client_def)
  ultimately show ?thesis unfolding xmpp_accept_callback_def by (intro server_ok_on_client)
qed

lemma err_ok: "server_ok w \<Longrightarrow> server_ok (xmpp_err_callback arg w)"
  by (auto simp: xmpp_err_callback_def case_prod_beta split: option.split intro!: server_ok_on_client sound_intro)

lemma poll_ok: "server_ok w \<Longrightarrow> server_ok (kernel_poll w)"
proof -
  have hs: "server_ok (poll_handshake i w)" if "server_ok w" for i w
    using that by (auto simp: poll_handshake_def Let_def intro!: server_ok_on_client sound_intro)
  have "sound (fst (xmpp_sm_request_ack (c\<lparr>cl_sm_want_ack := False\<rparr>, e)))" if "sound c" for c e
    using that send_raw_sound [of "(c\<lparr>cl_sm_want_ack := False\<rparr>, e)"]
    by (auto simp: xmpp_sm_request_ack_def sound_def secure_def client_ok_def Let_def case_prod_beta)
  then have ack: "server_ok (poll_ack i w)" if "server_ok w" for i w
    using that by (auto simp: poll_ack_def intro!: server_ok_on_client)
  assume w: "server_ok w"
  show ?thesis unfolding kernel_poll_def
    by (intro for_range_invariant [where P = server_ok] ack hs w)
qed

lemma server_step_ok: "server_step h w w' \<Longrightarrow> server_ok w \<Longrightarrow> server_ok w'"
proof (erule server_stepE)
  fix ctx pcb p s
  assume "server_ok w" "ctx < 20" and r: "xmpp_recv_callback h ctx pcb p w = Some s" "s = Running w' \<or> s = Returned w'"
  from xmpp_recv_callback_result [OF this(1,2), of h pcb p] r show "server_ok w'" by auto
qed (auto intro: accept_ok err_ok poll_ok)

lemma runs_to_ok: "runs_to h w w' \<Longrightarrow> server_ok w \<Longrightarrow> server_ok w'"
  unfolding runs_to_def by (induction rule: rtranclp_induct) (auto intro: server_step_ok)

lemma boot_server_ok: "server_ok (empty_world d)"
  using empty_world_ok [of d]
  by (simp add: server_ok_def empty_world_def boot_world_def list_all_length zero_stanza_def)

subsection \<open>Properties\<close>

text \<open>C3: in every run of the server, through any sequence of accepted connections, received data, failed
  connections and polls, with any behaviour of lwIP and mbedTLS, every array keeps its size, every string
  its terminator and every index its range, and no stanza of the pool stays allocated between two
  events.  Runs end where the tokenizer leaves its stack, the result \<open>Undefined\<close> of the callback.\<close>

theorem server_objects_in_order:
  assumes "server_ok w0" and "runs_to has_sse42 w0 w"
  shows "world_ok w \<and> pool_used (stanza_pool w) = {}"
  using runs_to_ok [OF assms(2,1)] by (auto simp: server_ok_def pool_used_def list_all_length)

definition accepted_world :: world where
  "accepted_world = xmpp_err_callback (Some 0) (xmpp_accept_callback 7 (empty_world no_disk))"

lemma accepted_world_run: "runs_to h (empty_world no_disk) accepted_world"
  unfolding runs_to_def accepted_world_def
  by (meson accepted failed r_into_rtranclp rtranclp.rtrancl_into_rtrancl)

theorem server_objects_in_order_witness:
  "world_ok accepted_world \<and> pool_used (stanza_pool accepted_world) = {}"
  using server_objects_in_order [OF boot_server_ok accepted_world_run] .


definition session_client :: xmpp_client_ctx_t where
  "session_client = zero_client\<lparr>cl_pcb := Some 9, cl_state := STATE_SESSION, cl_authenticated := True,
     cl_tls_established := True\<rparr>"

definition session_world :: world where
  "session_world = upd_client 1 (\<lambda>_. session_client) (empty_world no_disk)"

lemma session_world_ok: "server_ok session_world"
  unfolding session_world_def
  by (rule server_ok_upd_client [OF boot_server_ok])
    (simp add: session_client_def sound_def secure_def client_ok_def zero_client_def)


text \<open>C4: the receive callback always returns, in every state a run of the server reaches and for any data:
  each round of its loop that goes on has consumed received bytes.  The result may be \<open>Undefined\<close> only where
  the tokenizer leaves its stack.\<close>

theorem recv_callback_terminates:
  assumes "server_ok w0" and "runs_to has_sse42 w0 w" and "ctx < MAX_USERS"
  shows "\<exists>s. xmpp_recv_callback has_sse42 ctx pcb p w = Some s"
  using xmpp_recv_callback_result [OF runs_to_ok [OF assms(2,1)] assms(3)] by blast

theorem recv_callback_terminates_witness:
  "\<exists>s. xmpp_recv_callback True 0 7 (Some [''<iq/>'', ''  <abort/>'']) accepted_world = Some s"
  using recv_callback_terminates [OF boot_server_ok accepted_world_run, of 0] by simp

end
