(* ===== verification/Vmm.thy ===== *)
theory Vmm
  imports Prelude
begin

text \<open>
  Physical pages (\<^verbatim>\<open>src/src/mm/pmm.c\<close>), page tables (\<^verbatim>\<open>src/src/mm/vmm.c\<close>) and the protection keys
  (\<^verbatim>\<open>src/src/arch/mpk.asm\<close>) that close the network driver off.  Memory is a function from the address of
  a quadword to its value.  The walk of the tables by the processor is the specification: the tables are a
  tree (\<open>tables_ok\<close>), every mapping changes one page only, and the boot sequence maps the first 4 GiB to
  themselves with protection key 1 on exactly the pages of the driver.
\<close>

subsection \<open>Physical pages\<close>

abbreviation (input) PAGE_SIZE :: u64 where
  "PAGE_SIZE \<equiv> 0x1000"

abbreviation (input) EfiConventionalMemory :: u32 where
  "EfiConventionalMemory \<equiv> 7"

record efi_memory_descriptor =
  md_type :: u32
  md_physical_start :: u64
  md_number_of_pages :: u64

text \<open>The static variables of the two files, and the memory as a function from the address of a quadword.\<close>

record mm_t =
  free_memory_start :: u64
  free_memory_end :: u64
  kernel_pml4 :: u64
  phys_mem :: "u64 \<Rightarrow> u64"

definition store :: "u64 \<Rightarrow> u64 \<Rightarrow> mm_t \<Rightarrow> mm_t" where
  "store a v m = m\<lparr>phys_mem := (phys_mem m)(a := v)\<rparr>"

text \<open>The address of element \<open>i\<close> of an array of \<open>uint64_t\<close>.\<close>

definition elem_addr :: "u64 \<Rightarrow> u64 \<Rightarrow> u64" where
  "elem_addr t i = t + 8 * i"

definition pmm_pick :: "efi_memory_descriptor \<Rightarrow> u64 \<times> mm_t \<Rightarrow> u64 \<times> mm_t" where
  "pmm_pick desc x =
     (case x of (largest_free_segment, m) \<Rightarrow>
        if md_type desc = EfiConventionalMemory then
          let segment = md_number_of_pages desc * PAGE_SIZE in
          if segment > largest_free_segment then
            (segment, m\<lparr>free_memory_start := md_physical_start desc, free_memory_end := md_physical_start desc + segment\<rparr>)
          else x
        else x)"

definition pmm_init :: "efi_memory_descriptor list \<Rightarrow> mm_t \<Rightarrow> mm_t" where
  "pmm_init mem_map m =
     (let m1 = snd (fold pmm_pick mem_map (0, m))
      in if free_memory_start m1 < 0x200000 then m1\<lparr>free_memory_start := 0x200000\<rparr> else m1)"

text \<open>A result of 0 is NULL.\<close>

definition pmm_alloc_page :: "mm_t \<Rightarrow> u64 \<times> mm_t" where
  "pmm_alloc_page m =
     (if free_memory_start m + PAGE_SIZE \<ge> free_memory_end m then (0, m)
      else
        let alloc = free_memory_start m
        in (alloc, for_range 512 (\<lambda>i. store (elem_addr alloc (of_nat i)) 0)
              (m\<lparr>free_memory_start := free_memory_start m + PAGE_SIZE\<rparr>)))"

subsection \<open>Page tables\<close>

abbreviation (input) PTE_PRESENT :: u64 where
  "PTE_PRESENT \<equiv> 1"

abbreviation (input) PTE_WRITE :: u64 where
  "PTE_WRITE \<equiv> 2"

abbreviation (input) PTE_USER :: u64 where
  "PTE_USER \<equiv> 4"

definition PTE_PKEY :: "u64 \<Rightarrow> u64" where
  "PTE_PKEY k = push_bit 59 k"

definition PML4_INDEX :: "u64 \<Rightarrow> u64" where
  "PML4_INDEX x = drop_bit 39 x AND 0x1FF"

definition PDP_INDEX :: "u64 \<Rightarrow> u64" where
  "PDP_INDEX x = drop_bit 30 x AND 0x1FF"

definition PD_INDEX :: "u64 \<Rightarrow> u64" where
  "PD_INDEX x = drop_bit 21 x AND 0x1FF"

definition PT_INDEX :: "u64 \<Rightarrow> u64" where
  "PT_INDEX x = drop_bit 12 x AND 0x1FF"

definition table_of :: "u64 \<Rightarrow> u64" where
  "table_of pte = pte AND NOT 0xFFF"

text \<open>The table behind an entry, allocated where the entry is not present.  The code does not test the
  allocated page for NULL.\<close>

definition vmm_next :: "u64 \<Rightarrow> u64 \<Rightarrow> mm_t \<Rightarrow> u64 \<times> mm_t" where
  "vmm_next t idx m =
     (let m1 = (if phys_mem m (elem_addr t idx) AND PTE_PRESENT = 0 then
                  (let (p, m') = pmm_alloc_page m
                   in store (elem_addr t idx) (p OR PTE_PRESENT OR PTE_WRITE OR PTE_USER) m')
                else m)
      in (table_of (phys_mem m1 (elem_addr t idx)), m1))"

definition vmm_map_page :: "u64 \<Rightarrow> u64 \<Rightarrow> u64 \<Rightarrow> mm_t \<Rightarrow> mm_t" where
  "vmm_map_page virt phys flags m =
     (let (pdp, m1) = vmm_next (kernel_pml4 m) (PML4_INDEX virt) m;
          (pd, m2) = vmm_next pdp (PDP_INDEX virt) m1;
          (pt, m3) = vmm_next pd (PD_INDEX virt) m2
      in store (elem_addr pt (PT_INDEX virt)) (phys OR flags) m3)"

text \<open>The loop of \<open>vmm_init\<close> runs over the 1048576 pages below 4 GiB.\<close>

definition vmm_init :: "mm_t \<Rightarrow> mm_t" where
  "vmm_init m =
     (let (p, m1) = pmm_alloc_page m
      in for_range 1048576
           (\<lambda>k. vmm_map_page (of_nat k * PAGE_SIZE) (of_nat k * PAGE_SIZE) (PTE_PRESENT OR PTE_WRITE OR PTE_USER))
           (m1\<lparr>kernel_pml4 := p\<rparr>))"

definition vmm_set_pkey :: "u64 \<Rightarrow> u64 \<Rightarrow> mm_t \<Rightarrow> mm_t" where
  "vmm_set_pkey virt pkey m =
     (let pdp = table_of (phys_mem m (elem_addr (kernel_pml4 m) (PML4_INDEX virt)));
          pd = table_of (phys_mem m (elem_addr pdp (PDP_INDEX virt)));
          pt = table_of (phys_mem m (elem_addr pd (PD_INDEX virt)));
          pte = elem_addr pt (PT_INDEX virt)
      in store pte ((phys_mem m pte AND NOT (push_bit 59 0xF)) OR PTE_PKEY pkey OR PTE_USER) m)"

text \<open>\<open>for (addr = start; addr < end; addr += PAGE_SIZE)\<close>; the addition wraps, so that a range at the end of
  the address space would never be left.\<close>

partial_function (option) protect_range :: "u64 \<Rightarrow> u64 \<Rightarrow> mm_t \<Rightarrow> mm_t option" where
  "protect_range addr stop m =
     (if addr < stop then protect_range (addr + PAGE_SIZE) stop (vmm_set_pkey addr 1 m) else Some m)"

definition vmm_protect_driver :: "u64 \<Rightarrow> u64 \<Rightarrow> u64 \<Rightarrow> u64 \<Rightarrow> mm_t \<Rightarrow> mm_t option" where
  "vmm_protect_driver code_start code_end data_start data_end m =
     Option.bind (protect_range code_start code_end m) (protect_range data_start data_end)"

declare protect_range.simps [code]

subsection \<open>What the processor does with the tables\<close>

text \<open>The walk of the tables along a list of indices, and the entry that maps an address.\<close>

fun walk :: "(u64 \<Rightarrow> u64) \<Rightarrow> u64 \<Rightarrow> u64 list \<Rightarrow> u64 option" where
  "walk M t [] = Some t"
| "walk M t (i # p) =
     (if M (elem_addr t i) AND PTE_PRESENT = 0 then None else walk M (table_of (M (elem_addr t i))) p)"

definition table_path :: "u64 \<Rightarrow> u64 list" where
  "table_path virt = [PML4_INDEX virt, PDP_INDEX virt, PD_INDEX virt]"

definition pte_of :: "mm_t \<Rightarrow> u64 \<Rightarrow> u64 option" where
  "pte_of m virt =
     (case walk (phys_mem m) (kernel_pml4 m) (table_path virt) of
        None \<Rightarrow> None
      | Some pt \<Rightarrow>
          let e = phys_mem m (elem_addr pt (PT_INDEX virt)) in if e AND PTE_PRESENT = 0 then None else Some e)"

subsection \<open>Addresses of table entries\<close>

definition aligned :: "u64 \<Rightarrow> bool" where
  "aligned a \<longleftrightarrow> unat a mod 4096 = 0"

lemma aligned_bit: "aligned a \<Longrightarrow> n < 12 \<Longrightarrow> \<not> bit a n"
proof -
  assume "aligned a" "n < 12"
  then have "take_bit 12 (unat a) = 0" by (simp add: aligned_def take_bit_eq_mod)
  then have "\<not> bit (take_bit 12 (unat a)) n" by simp
  with \<open>n < 12\<close> show ?thesis by (auto simp: bit_simps)
qed

lemma FFF_mask: "(0xFFF :: u64) = mask 12"
  by (simp add: mask_eq_exp_minus_1)

lemma table_of_entry: "aligned p \<Longrightarrow> f AND NOT 0xFFF = 0 \<Longrightarrow> table_of (p OR f) = p"
proof -
  assume p: "aligned p" and "f AND NOT 0xFFF = 0"
  moreover have "p AND NOT 0xFFF = p"
    unfolding FFF_mask by (rule bit_eqI) (use aligned_bit [OF p] in \<open>auto simp: bit_simps\<close>)
  ultimately show ?thesis by (simp add: table_of_def bit.conj_disj_distrib2)
qed

lemma unat_elem_addr: "aligned t \<Longrightarrow> i < 512 \<Longrightarrow> unat (elem_addr t i) = unat t + 8 * unat i"
proof -
  assume a: "aligned t" and "i < 512"
  then have i: "unat i < 512" by (simp add: word_less_nat_alt)
  obtain k where k: "unat t = 4096 * k" using a by (auto simp: aligned_def mod_eq_0_iff_dvd elim!: dvdE)
  have "unat t < 2 ^ 64" using unsigned_less [of t] by simp
  with k i have "unat t + 8 * unat i < 2 ^ 64" by simp
  then show ?thesis by (simp add: elem_addr_def unat_word_ariths)
qed

lemma elem_addr_eq:
  assumes "aligned t" "aligned u" "i < 512" "j < 512"
  shows "elem_addr t i = elem_addr u j \<longleftrightarrow> t = u \<and> i = j"
proof
  assume "elem_addr t i = elem_addr u j"
  then have e: "unat t + 8 * unat i = unat u + 8 * unat j" using assms unat_elem_addr by metis
  obtain a b where k: "unat t = 4096 * a" "unat u = 4096 * b"
    using assms(1,2) by (auto simp: aligned_def mod_eq_0_iff_dvd elim!: dvdE)
  have "unat i < 512" "unat j < 512" using assms by (auto simp: word_less_nat_alt)
  with e k have "a = b" by linarith
  with e k have "unat t = unat u" "unat i = unat j" by simp_all
  then show "t = u \<and> i = j" by (simp add: word_unat_eq_iff)
qed simp

subsection \<open>Walks\<close>

lemma walk_append: "walk M t (p @ q) = Option.bind (walk M t p) (\<lambda>u. walk M u q)"
  by (induction p arbitrary: t) simp_all

lemma walk_snoc:
  "walk M t (p @ [i]) = (case walk M t p of None \<Rightarrow> None | Some u \<Rightarrow>
     if M (elem_addr u i) AND 1 = 0 then None else Some (table_of (M (elem_addr u i))))"
  by (simp add: walk_append split: option.split)

definition path_ok :: "u64 list \<Rightarrow> bool" where
  "path_ok p \<longleftrightarrow> length p \<le> 3 \<and> list_all (\<lambda>i. i < 512) p"

lemma path_ok_simps [simp]:
  "path_ok []" "path_ok (p @ q) \<Longrightarrow> path_ok p" "path_ok (p @ [i]) \<longleftrightarrow> length p < 3 \<and> path_ok p \<and> i < 512"
  by (auto simp: path_ok_def)

lemma path_ok_length: "path_ok p \<Longrightarrow> length p \<le> 3"
  by (simp add: path_ok_def)

abbreviation root_walk :: "mm_t \<Rightarrow> u64 list \<Rightarrow> u64 option" where
  "root_walk m \<equiv> walk (phys_mem m) (kernel_pml4 m)"

text \<open>The tables form a tree of pages below the free memory: no page is reached along two paths.\<close>

definition tables_ok :: "mm_t \<Rightarrow> bool" where
  "tables_ok m \<longleftrightarrow> aligned (free_memory_start m) \<and>
     (\<forall>p t. path_ok p \<longrightarrow> root_walk m p = Some t \<longrightarrow> aligned t \<and> t < free_memory_start m) \<and>
     (\<forall>p q t. path_ok p \<longrightarrow> path_ok q \<longrightarrow> root_walk m p = Some t \<longrightarrow> root_walk m q = Some t \<longrightarrow> p = q)"

lemma tables_okD:
  assumes "tables_ok m" "path_ok p" "root_walk m p = Some t"
  shows "aligned t" "t < free_memory_start m" "path_ok q \<Longrightarrow> root_walk m q = Some t \<Longrightarrow> q = p"
  using assms unfolding tables_ok_def by blast+

lemma store_simps [simp]:
  "kernel_pml4 (store a v m) = kernel_pml4 m"
  "free_memory_start (store a v m) = free_memory_start m" "free_memory_end (store a v m) = free_memory_end m"
  by (simp_all add: store_def)

lemma store_mem: "phys_mem (store a v m) x = (if x = a then v else phys_mem m x)"
  by (simp add: store_def)

text \<open>A store into the table at the end of \<open>p\<close> changes only the walks that pass through that entry.\<close>

lemma entry_unchanged:
  assumes m: "tables_ok m" and p: "path_ok p" "root_walk m p = Some t" "i < 512"
    and q: "path_ok q" "root_walk m q = Some u" "j < 512" and "q @ [j] \<noteq> p @ [i]"
  shows "phys_mem (store (elem_addr t i) v m) (elem_addr u j) = phys_mem m (elem_addr u j)"
proof -
  have "aligned t" "aligned u" using tables_okD(1) m p q by blast+
  then have "elem_addr u j = elem_addr t i \<longleftrightarrow> u = t \<and> j = i" using p q by (simp add: elem_addr_eq)
  moreover have "u = t \<Longrightarrow> q = p" using tables_okD(3) [OF m p(1,2) q(1)] q(2) by simp
  ultimately show ?thesis using assms(8) by (auto simp: store_mem)
qed

lemma walk_store:
  assumes "tables_ok m" "path_ok p" "root_walk m p = Some t" "i < 512"
  shows "path_ok q \<Longrightarrow> \<not> prefix (p @ [i]) q \<Longrightarrow> root_walk (store (elem_addr t i) v m) q = root_walk m q"
proof (induction q rule: rev_induct)
  case (snoc j q)
  then have IH: "root_walk (store (elem_addr t i) v m) q = root_walk m q" by auto
  have "phys_mem (store (elem_addr t i) v m) (elem_addr u j) = phys_mem m (elem_addr u j)" if "root_walk m q = Some u" for u
    by (rule entry_unchanged [OF assms _ that]) (use snoc.prems in auto)
  then show ?case using IH by (cases "root_walk m q") (simp_all add: walk_snoc)
qed simp

subsection \<open>Allocation\<close>

definition pages_left :: "nat \<Rightarrow> mm_t \<Rightarrow> bool" where
  "pages_left n m \<longleftrightarrow> unat (free_memory_start m) + 4096 * n < unat (free_memory_end m)"

lemma zero_loop:
  "phys_mem (for_range n (\<lambda>i. store (elem_addr a (of_nat i)) 0) m) x =
     (if \<exists>i<n. x = elem_addr a (of_nat i) then 0 else phys_mem m x)"
  by (induction n) (auto simp: store_mem less_Suc_eq)

lemma zero_loop_fields [simp]:
  "kernel_pml4 (for_range n (\<lambda>i. store (f i) 0) m) = kernel_pml4 m"
  "free_memory_start (for_range n (\<lambda>i. store (f i) 0) m) = free_memory_start m"
  "free_memory_end (for_range n (\<lambda>i. store (f i) 0) m) = free_memory_end m"
  by (induction n) simp_all

lemma index_of_nat: "(\<exists>i<512. x = elem_addr a (of_nat i)) \<longleftrightarrow> (\<exists>j<512. x = elem_addr a j)"
proof
  assume "\<exists>i<512. x = elem_addr a (of_nat i)"
  then obtain i where "i < 512" "x = elem_addr a (of_nat i)" by blast
  moreover from this have "(of_nat i :: u64) < 512" by (simp add: word_less_nat_alt unsigned_of_nat take_bit_nat_eq_self)
  ultimately show "\<exists>j<512. x = elem_addr a j" by blast
next
  assume "\<exists>j<512. x = elem_addr a j"
  then obtain j where "j < 512" "x = elem_addr a j" by blast
  then have "unat j < 512 \<and> x = elem_addr a (of_nat (unat j))" by (simp add: word_less_nat_alt)
  then show "\<exists>i<512. x = elem_addr a (of_nat i)" by blast
qed

lemma unat_next_page: "pages_left 1 m \<Longrightarrow> unat (free_memory_start m + 0x1000) = unat (free_memory_start m) + 4096"
  using unsigned_less [of "free_memory_end m", where ?'a = nat] by (simp add: pages_left_def unat_word_ariths)

lemma pmm_alloc_page_room:
  assumes "pages_left 1 m" and "aligned (free_memory_start m)" and "pmm_alloc_page m = (f, m')"
  shows "f = free_memory_start m" and "unat (free_memory_start m') = unat (free_memory_start m) + 4096"
    and "kernel_pml4 m' = kernel_pml4 m" and "free_memory_end m' = free_memory_end m"
    and "i < 512 \<Longrightarrow> phys_mem m' (elem_addr f i) = 0"
    and "aligned u \<Longrightarrow> u \<noteq> f \<Longrightarrow> j < 512 \<Longrightarrow> phys_mem m' (elem_addr u j) = phys_mem m (elem_addr u j)"
proof -
  have "\<not> free_memory_start m + 0x1000 \<ge> free_memory_end m"
    using assms(1) unat_next_page [OF assms(1)] by (simp add: pages_left_def word_le_nat_alt)
  then have m': "f = free_memory_start m" "m' = for_range 512 (\<lambda>i. store (elem_addr f (of_nat i)) 0)
      (m\<lparr>free_memory_start := free_memory_start m + 0x1000\<rparr>)"
    using assms(3) by (auto simp: pmm_alloc_page_def Let_def)
  show "f = free_memory_start m" by (rule m')
  show "kernel_pml4 m' = kernel_pml4 m" "free_memory_end m' = free_memory_end m"
    "unat (free_memory_start m') = unat (free_memory_start m) + 4096"
    using unat_next_page [OF assms(1)] by (simp_all add: m'(2))
  show "i < 512 \<Longrightarrow> phys_mem m' (elem_addr f i) = 0"
    unfolding m'(2) zero_loop index_of_nat by auto
  show "phys_mem m' (elem_addr u j) = phys_mem m (elem_addr u j)" if "aligned u" "u \<noteq> f" "j < 512"
    using that assms(2) unfolding m'(2) zero_loop index_of_nat by (auto simp: elem_addr_eq m'(1))
qed

lemma tables_ok_walks:
  assumes "tables_ok m" and "aligned (free_memory_start m')" and "free_memory_start m \<le> free_memory_start m'"
    and "\<And>q. path_ok q \<Longrightarrow> root_walk m' q = root_walk m q"
  shows "tables_ok m'"
  unfolding tables_ok_def
proof (intro conjI allI impI)
  fix p q t
  assume p: "path_ok p" "root_walk m' p = Some t"
  then have w: "root_walk m p = Some t" using assms(4) by simp
  show "aligned t" "t < free_memory_start m'" using tables_okD(1,2) [OF assms(1) p(1) w] assms(3) by auto
  assume q: "path_ok q" "root_walk m' q = Some t"
  show "p = q" using tables_okD(3) [OF assms(1) p(1) w q(1)] q assms(4) by simp
qed (rule assms(2))

lemma pmm_alloc_page_walk:
  assumes m: "tables_ok m" and "pages_left 1 m" and a: "pmm_alloc_page m = (f, m')"
  shows "path_ok q \<Longrightarrow> root_walk m' q = root_walk m q"
proof (induction q rule: rev_induct)
  case Nil
  then show ?case using pmm_alloc_page_room(3) [OF assms(2) _ a] m by (simp add: tables_ok_def)
next
  case (snoc j q)
  have s: "aligned (free_memory_start m)" using m by (simp add: tables_ok_def)
  have "phys_mem m' (elem_addr u j) = phys_mem m (elem_addr u j)" if "root_walk m q = Some u" for u
    using tables_okD(1,2) [OF m _ that] snoc.prems pmm_alloc_page_room(1,6) [OF assms(2) s a] by auto
  then show ?case using snoc by (cases "root_walk m q") (simp_all add: walk_snoc)
qed

subsection \<open>Mapping a page\<close>

lemma index_less [simp]: "PML4_INDEX v < 512" "PDP_INDEX v < 512" "PD_INDEX v < 512" "PT_INDEX v < 512"
proof -
  have "x AND 0x1FF < 512" for x :: u64 using word_and_le1 [of x "0x1FF"] by (rule order.strict_trans1) simp
  then show "PML4_INDEX v < 512" "PDP_INDEX v < 512" "PD_INDEX v < 512" "PT_INDEX v < 512"
    by (simp_all add: PML4_INDEX_def PDP_INDEX_def PD_INDEX_def PT_INDEX_def)
qed

lemma table_path_ok [simp]: "path_ok (table_path v)" "length (table_path v) = 3"
  by (simp_all add: path_ok_def table_path_def)

definition extends :: "mm_t \<Rightarrow> mm_t \<Rightarrow> bool" where
  "extends m m' \<longleftrightarrow> kernel_pml4 m' = kernel_pml4 m \<and> free_memory_end m' = free_memory_end m \<and>
     (\<forall>q t. path_ok q \<longrightarrow> root_walk m q = Some t \<longrightarrow> root_walk m' q = Some t) \<and> (\<forall>v. pte_of m' v = pte_of m v)"

lemma extends_refl [simp]: "extends m m"
  by (simp add: extends_def)

lemma extends_trans: "extends m m1 \<Longrightarrow> extends m1 m2 \<Longrightarrow> extends m m2"
  by (auto simp: extends_def)

lemma pte_of_eqI:
  assumes "root_walk m' (table_path v) = root_walk m (table_path v)"
    and "\<And>t. root_walk m (table_path v) = Some t \<Longrightarrow>
      phys_mem m' (elem_addr t (PT_INDEX v)) = phys_mem m (elem_addr t (PT_INDEX v))"
  shows "pte_of m' v = pte_of m v"
  using assms by (simp add: pte_of_def Let_def split: option.split)

lemma pmm_alloc_page_ok:
  assumes m: "tables_ok m" and r: "pages_left 1 m" and a: "pmm_alloc_page m = (f, m')"
  shows "tables_ok m'" and "extends m m'" and "path_ok q \<Longrightarrow> root_walk m' q \<noteq> Some f"
proof -
  have s: "aligned (free_memory_start m)" using m by (simp add: tables_ok_def)
  note fields = pmm_alloc_page_room [OF r s a] and w = pmm_alloc_page_walk [OF m r a]
  have "aligned (free_memory_start m')" "free_memory_start m \<le> free_memory_start m'"
    using s fields(2) by (simp_all add: aligned_def word_le_nat_alt mod_add_eq [symmetric])
  then show "tables_ok m'" using tables_ok_walks [OF m _ _ w] by blast
  have fresh: "root_walk m q \<noteq> Some f" if "path_ok q" for q
    using tables_okD(2) [OF m that] fields(1) by auto
  then show "path_ok q \<Longrightarrow> root_walk m' q \<noteq> Some f" using w by simp
  have "pte_of m' v = pte_of m v" for v
  proof (rule pte_of_eqI)
    fix t
    assume t: "root_walk m (table_path v) = Some t"
    then have "aligned t" "t \<noteq> f" using tables_okD(1) [OF m _ t] fresh [of "table_path v"] by auto
    then show "phys_mem m' (elem_addr t (PT_INDEX v)) = phys_mem m (elem_addr t (PT_INDEX v))" using fields(6) by simp
  qed (simp add: w)
  then show "extends m m'" using fields(3,4) w by (simp add: extends_def)
qed

lemma present_or: "(x OR 7) AND 1 \<noteq> (0 :: u64)"
proof -
  have "bit ((x OR 7) AND 1) 0" by (simp add: bit_simps)
  then show ?thesis by (metis bit_0_eq bot_apply bot_bool_def)
qed

lemma link_walk:
  assumes m: "tables_ok m" and p: "path_ok p" "root_walk m p = Some t" "i < 512" and n: "root_walk m (p @ [i]) = None"
    and f: "aligned f" "\<And>j. j < 512 \<Longrightarrow> phys_mem m (elem_addr f j) = 0" "root_walk m p \<noteq> Some f" and q: "path_ok q"
  shows "root_walk (store (elem_addr t i) (f OR 7) m) q = (if q = p @ [i] then Some f else root_walk m q)"
proof (cases "prefix (p @ [i]) q")
  case True
  then obtain r where r: "q = (p @ [i]) @ r" by (auto simp: prefix_def)
  let ?m = "store (elem_addr t i) (f OR 7) m"
  have "root_walk ?m p = Some t" using walk_store [OF m p p(1)] p(2) by simp
  moreover have "phys_mem ?m (elem_addr t i) = f OR 7" by (simp add: store_mem)
  ultimately have e: "root_walk ?m (p @ [i]) = Some f" using present_or table_of_entry [OF f(1), of 7] by (simp add: walk_snoc)
  have "walk (phys_mem ?m) f r = None" if "r \<noteq> []"
  proof (cases r)
    case (Cons j r')
    then have "j < 512" using q r by (simp add: path_ok_def)
    moreover have "aligned t" by (rule tables_okD(1) [OF m p(1,2)])
    ultimately have "phys_mem ?m (elem_addr f j) = 0" using f p by (auto simp: store_mem elem_addr_eq)
    then show ?thesis by (simp add: Cons)
  qed (use that in simp)
  moreover have "root_walk m q = None" unfolding r walk_append [of _ _ "p @ [i]"] n by simp
  ultimately show ?thesis using e unfolding r by (cases r) (simp_all add: walk_append [of _ _ "p @ [i]"] del: append_assoc)
next
  case False
  then show ?thesis using walk_store [OF m p q False] by auto
qed

lemma link_ok:
  assumes m: "tables_ok m" and p: "path_ok p" "root_walk m p = Some t" "i < 512" "length p < 3"
    and n: "root_walk m (p @ [i]) = None"
    and f: "aligned f" "f < free_memory_start m" "\<And>j. j < 512 \<Longrightarrow> phys_mem m (elem_addr f j) = 0"
      "\<And>q. path_ok q \<Longrightarrow> root_walk m q \<noteq> Some f"
  shows "tables_ok (store (elem_addr t i) (f OR 7) m)" and "extends m (store (elem_addr t i) (f OR 7) m)"
    and "root_walk (store (elem_addr t i) (f OR 7) m) (p @ [i]) = Some f"
proof -
  let ?m = "store (elem_addr t i) (f OR 7) m"
  have w: "root_walk ?m q = (if q = p @ [i] then Some f else root_walk m q)" if "path_ok q" for q
    by (rule link_walk [OF m p(1-3) n f(1,3)]) (use f(4) p(1) that in auto)
  show "root_walk ?m (p @ [i]) = Some f" using w [of "p @ [i]"] p by simp
  have "aligned u \<and> u < free_memory_start m" if "path_ok q" "root_walk ?m q = Some u" for q u
    using that f(1,2) w [OF that(1)] tables_okD(1,2) [OF m that(1), of u] by (auto split: if_splits)
  moreover have "q = r" if "path_ok q" "path_ok r" "root_walk ?m q = Some u" "root_walk ?m r = Some u" for q r u
    using that w [OF that(1)] w [OF that(2)] tables_okD(3) [OF m that(2), of u q] f(4) by (auto split: if_splits)
  ultimately show "tables_ok ?m" using m unfolding tables_ok_def by (simp only: store_simps) blast
  have "pte_of ?m v = pte_of m v" for v
  proof (cases "table_path v = p @ [i]")
    case True
    then have "elem_addr f (PT_INDEX v) \<noteq> elem_addr t i"
      using f(1,4) p tables_okD(1) [OF m p(1,2)] by (auto simp: elem_addr_eq)
    then show ?thesis using w [of "table_path v"] True n f(3) p by (simp add: pte_of_def store_mem)
  next
    case False
    show ?thesis
    proof (rule pte_of_eqI)
      show "root_walk ?m (table_path v) = root_walk m (table_path v)" using w False by simp
      show "phys_mem ?m (elem_addr u (PT_INDEX v)) = phys_mem m (elem_addr u (PT_INDEX v))"
        if "root_walk m (table_path v) = Some u" for u
        by (rule entry_unchanged [OF m p(1-3) _ that]) (use p(4) in \<open>auto simp: append_eq_append_conv\<close>)
    qed
  qed
  then show "extends m ?m" using w n by (auto simp: extends_def)
qed

text \<open>One step down the tree: the table exists afterwards, and a page is used only where it did not exist.\<close>

lemma vmm_next_ok:
  assumes m: "tables_ok m" and p: "path_ok p" "root_walk m p = Some t" "i < 512" "length p < 3"
    and r: "root_walk m (p @ [i]) = None \<Longrightarrow> pages_left 1 m" and v: "vmm_next t i m = (u, m')"
  shows "tables_ok m'" and "extends m m'" and "root_walk m' (p @ [i]) = Some u"
    and "unat (free_memory_start m') = unat (free_memory_start m) + (if root_walk m (p @ [i]) = None then 4096 else 0)"
proof -
  have "tables_ok m' \<and> extends m m' \<and> root_walk m' (p @ [i]) = Some u \<and>
    unat (free_memory_start m') = unat (free_memory_start m) + (if root_walk m (p @ [i]) = None then 4096 else 0)"
  proof (cases "root_walk m (p @ [i]) = None")
    case False
    then have "phys_mem m (elem_addr t i) AND 1 \<noteq> 0" using p(2) by (auto simp: walk_snoc)
    then show ?thesis using v m p(2) False by (auto simp: vmm_next_def walk_snoc)
  next
    case True
    obtain f m1 where a: "pmm_alloc_page m = (f, m1)" by fastforce
    have s: "aligned (free_memory_start m)" using m by (simp add: tables_ok_def)
    note ok = pmm_alloc_page_ok [OF m r [OF True] a] and fields = pmm_alloc_page_room [OF r [OF True] s a]
      and w = pmm_alloc_page_walk [OF m r [OF True] a]
    have f: "aligned f" "f < free_memory_start m1" using s fields(1,2) by (simp_all add: word_less_nat_alt)
    have n: "root_walk m1 (p @ [i]) = None" "root_walk m1 p = Some t" using w True p by simp_all
    have "phys_mem m (elem_addr t i) AND 1 = 0" using True p(2) by (auto simp: walk_snoc split: if_splits)
    then have m': "m' = store (elem_addr t i) (f OR 7) m1" "u = f"
      using v a table_of_entry [OF f(1), of 7] by (auto simp: vmm_next_def Let_def store_mem or.assoc)
    note l = link_ok [OF ok(1) p(1) n(2) p(3,4) n(1) f fields(5) ok(3)]
    then show ?thesis using ok(2) fields(2) True by (auto simp: m' intro: extends_trans)
  qed
  then show "tables_ok m'" "extends m m'" "root_walk m' (p @ [i]) = Some u"
    "unat (free_memory_start m') = unat (free_memory_start m) + (if root_walk m (p @ [i]) = None then 4096 else 0)"
    by blast+
qed

lemma leaf_store:
  assumes m: "tables_ok m" and t: "root_walk m (table_path v) = Some t"
  shows "tables_ok (store (elem_addr t (PT_INDEX v)) x m)"
    and "path_ok q \<Longrightarrow> root_walk (store (elem_addr t (PT_INDEX v)) x m) q = root_walk m q"
    and "pte_of (store (elem_addr t (PT_INDEX v)) x m) w =
      (if table_path w = table_path v \<and> PT_INDEX w = PT_INDEX v then if x AND 1 = 0 then None else Some x else pte_of m w)"
proof -
  let ?m = "store (elem_addr t (PT_INDEX v)) x m"
  have s: "root_walk ?m q = root_walk m q" if "path_ok q" for q
    by (rule walk_store [OF m _ t]) (use that in \<open>auto dest!: prefix_length_le path_ok_length\<close>)
  then show "path_ok q \<Longrightarrow> root_walk ?m q = root_walk m q" .
  show "tables_ok ?m" by (rule tables_ok_walks [OF m]) (use m s in \<open>simp_all add: tables_ok_def\<close>)
  show "pte_of ?m w = (if table_path w = table_path v \<and> PT_INDEX w = PT_INDEX v
      then if x AND 1 = 0 then None else Some x else pte_of m w)"
  proof (cases "table_path w = table_path v \<and> PT_INDEX w = PT_INDEX v")
    case True
    then show ?thesis using s [of "table_path v"] t by (simp add: pte_of_def store_mem)
  next
    case False
    have "pte_of ?m w = pte_of m w"
    proof (rule pte_of_eqI)
      show "root_walk ?m (table_path w) = root_walk m (table_path w)" by (rule s) simp
      show "phys_mem ?m (elem_addr u (PT_INDEX w)) = phys_mem m (elem_addr u (PT_INDEX w))"
        if "root_walk m (table_path w) = Some u" for u
        by (rule entry_unchanged [OF m _ t _ _ that]) (use False in auto)
    qed
    then show ?thesis using False by auto
  qed
qed

text \<open>The tables an address needs and does not have yet.\<close>

definition missing :: "mm_t \<Rightarrow> u64 \<Rightarrow> nat" where
  "missing m v = (if root_walk m [PML4_INDEX v] = None then 1 else 0) +
     (if root_walk m [PML4_INDEX v, PDP_INDEX v] = None then 1 else 0) + (if root_walk m (table_path v) = None then 1 else 0)"

lemma extends_None: "extends m m' \<Longrightarrow> path_ok q \<Longrightarrow> root_walk m' q = None \<Longrightarrow> root_walk m q = None"
  unfolding extends_def by (metis not_None_eq)

lemma vmm_map_page_ok:
  assumes m: "tables_ok m" and r: "pages_left (missing m v) m" and m': "vmm_map_page v phys flags m = m'"
  shows "tables_ok m'" and "free_memory_end m' = free_memory_end m"
    and "unat (free_memory_start m') \<le> unat (free_memory_start m) + 4096 * missing m v"
    and "root_walk m' (table_path v) \<noteq> None" and "path_ok q \<Longrightarrow> root_walk m q \<noteq> None \<Longrightarrow> root_walk m' q \<noteq> None"
    and "pte_of m' w = (if table_path w = table_path v \<and> PT_INDEX w = PT_INDEX v
      then if (phys OR flags) AND 1 = 0 then None else Some (phys OR flags) else pte_of m w)"
  supply walk.simps(2) [simp del]
proof -
  let ?p = "[PML4_INDEX v]" and ?q = "[PML4_INDEX v, PDP_INDEX v]"
  have ok: "path_ok ?p" "path_ok ?q" by (simp_all add: path_ok_def)
  obtain t1 m1 where 1: "vmm_next (kernel_pml4 m) (PML4_INDEX v) m = (t1, m1)" by fastforce
  have r1: "root_walk m ?p = None \<Longrightarrow> pages_left 1 m" using r by (auto simp: pages_left_def missing_def)
  have a: "tables_ok m1" "extends m m1" "root_walk m1 ?p = Some t1"
    "unat (free_memory_start m1) = unat (free_memory_start m) + (if root_walk m ?p = None then 4096 else 0)"
    using vmm_next_ok [where p = "[]" and m = m, OF m _ _ _ _ _ 1] r1 by simp_all
  obtain t2 m2 where 2: "vmm_next t1 (PDP_INDEX v) m1 = (t2, m2)" by fastforce
  have r2: "root_walk m1 ?q = None \<Longrightarrow> pages_left 1 m1"
    using r extends_None [OF a(2) ok(2)] a(2,4) by (auto simp: pages_left_def missing_def extends_def)
  have b: "tables_ok m2" "extends m1 m2" "root_walk m2 ?q = Some t2"
    "unat (free_memory_start m2) = unat (free_memory_start m1) + (if root_walk m1 ?q = None then 4096 else 0)"
    using vmm_next_ok [where p = ?p, OF a(1) ok(1) a(3) _ _ _ 2] r2 by simp_all
  note ab = extends_trans [OF a(2) b(2)]
  obtain t3 m3 where 3: "vmm_next t2 (PD_INDEX v) m2 = (t3, m3)" by fastforce
  have p3: "table_path v = ?q @ [PD_INDEX v]" by (simp add: table_path_def)
  have n3: "root_walk m1 ?q = None \<Longrightarrow> root_walk m ?q = None" "root_walk m2 (table_path v) = None \<Longrightarrow> root_walk m (table_path v) = None"
    using extends_None [OF a(2) ok(2)] extends_None [OF ab, of "table_path v"] by simp_all
  have r3: "root_walk m2 (?q @ [PD_INDEX v]) = None \<Longrightarrow> pages_left 1 m2"
    using r n3 a(4) b(4) ab unfolding p3 [symmetric] by (auto simp: pages_left_def missing_def extends_def)
  have c: "tables_ok m3" "extends m2 m3" "root_walk m3 (table_path v) = Some t3"
    "unat (free_memory_start m3) = unat (free_memory_start m2) + (if root_walk m2 (table_path v) = None then 4096 else 0)"
    using vmm_next_ok [where p = ?q, OF b(1) ok(2) b(3) _ _ r3 3] unfolding p3 [symmetric] by simp_all
  have m3: "m' = store (elem_addr t3 (PT_INDEX v)) (phys OR flags) m3" using m' 1 2 3 by (simp add: vmm_map_page_def)
  note l = leaf_store [OF c(1,3), where x = "phys OR flags"] and abc = extends_trans [OF ab c(2)]
  show "tables_ok m'" "free_memory_end m' = free_memory_end m" using l abc by (simp_all add: m3 extends_def)
  show "unat (free_memory_start m') \<le> unat (free_memory_start m) + 4096 * missing m v"
    using a(4) b(4) c(4) n3 by (auto simp: m3 missing_def)
  show "root_walk m' (table_path v) \<noteq> None" using l(2) [of "table_path v"] c(3) by (simp add: m3)
  show "path_ok q \<Longrightarrow> root_walk m q \<noteq> None \<Longrightarrow> root_walk m' q \<noteq> None"
    using l(2) [of q] extends_None [OF abc, of q] by (auto simp: m3 simp del: not_None_eq)
  show "pte_of m' w = (if table_path w = table_path v \<and> PT_INDEX w = PT_INDEX v
      then if (phys OR flags) AND 1 = 0 then None else Some (phys OR flags) else pte_of m w)"
    using l(3) abc by (simp add: m3 extends_def)
qed

subsection \<open>Addresses as page numbers\<close>

lemma unat_index:
  "unat (PML4_INDEX v) = unat v div 2 ^ 39 mod 512" "unat (PDP_INDEX v) = unat v div 2 ^ 30 mod 512"
  "unat (PD_INDEX v) = unat v div 2 ^ 21 mod 512" "unat (PT_INDEX v) = unat v div 2 ^ 12 mod 512"
proof -
  have "unat (drop_bit n v AND 0x1FF) = unat v div 2 ^ n mod 512" for n
  proof -
    have "(0x1FF :: u64) = mask 9" by (simp add: mask_eq_exp_minus_1)
    then have "unat (drop_bit n v AND 0x1FF) = take_bit 9 (drop_bit n (unat v))"
      by (simp only: take_bit_eq_mask [symmetric]) (simp add: unsigned_take_bit_eq unat_drop_bit_eq)
    then show ?thesis by (simp add: take_bit_eq_mod drop_bit_eq_div)
  qed
  then show "unat (PML4_INDEX v) = unat v div 2 ^ 39 mod 512" "unat (PDP_INDEX v) = unat v div 2 ^ 30 mod 512"
    "unat (PD_INDEX v) = unat v div 2 ^ 21 mod 512" "unat (PT_INDEX v) = unat v div 2 ^ 12 mod 512"
    by (simp_all only: PML4_INDEX_def PDP_INDEX_def PD_INDEX_def PT_INDEX_def)
qed

abbreviation page_addr :: "nat \<Rightarrow> u64" where
  "page_addr k \<equiv> of_nat k * 0x1000"

lemma unat_page_addr: "k < 1048576 \<Longrightarrow> unat (page_addr k) = 4096 * k"
  by (simp add: unat_word_ariths unsigned_of_nat take_bit_nat_eq_self)

lemma page_index:
  assumes "k < 1048576"
  shows "PML4_INDEX (page_addr k) = 0" "PDP_INDEX (page_addr k) = of_nat (k div 262144)"
    "PD_INDEX (page_addr k) = of_nat (k div 512 mod 512)"
  using assms by (simp_all add: word_unat_eq_iff unat_index unat_page_addr unsigned_of_nat take_bit_nat_eq_self div_mult2_eq)

lemma page_digits:
  fixes a :: nat
  assumes "a < 2 ^ 36"
  shows "a = ((a div 2 ^ 27 mod 512 * 512 + a div 2 ^ 18 mod 512) * 512 + a div 512 mod 512) * 512 + a mod 512"
proof -
  have "a div 2 ^ 27 mod 512 = a div 2 ^ 27" using assms by (simp add: div_less_iff_less_mult)
  moreover have "a div 2 ^ 18 = a div 2 ^ 27 * 512 + a div 2 ^ 18 mod 512"
    using div_mult_mod_eq [of "a div 2 ^ 18" 512] by (simp add: div_mult2_eq [symmetric])
  moreover have "a div 512 = a div 2 ^ 18 * 512 + a div 512 mod 512"
    using div_mult_mod_eq [of "a div 512" 512] by (simp add: div_mult2_eq [symmetric])
  moreover have "a = a div 512 * 512 + a mod 512" by simp
  ultimately show ?thesis by metis
qed

lemma same_page:
  assumes "w < 2 ^ 48" and "k < 1048576"
  shows "table_path w = table_path (page_addr k) \<and> PT_INDEX w = PT_INDEX (page_addr k) \<longleftrightarrow> unat w div 4096 = k"
proof -
  have n: "unat w div 4096 < 2 ^ 36" using assms(1) by (simp add: word_less_nat_alt div_less_iff_less_mult)
  have e: "unat x div 2 ^ 39 = unat x div 4096 div 2 ^ 27" "unat x div 2 ^ 30 = unat x div 4096 div 2 ^ 18"
    "unat x div 2 ^ 21 = unat x div 4096 div 512" "unat x div 2 ^ 12 = unat x div 4096" for x :: u64
    by (simp_all add: div_mult2_eq [symmetric])
  have "table_path w = table_path (page_addr k) \<and> PT_INDEX w = PT_INDEX (page_addr k) \<longleftrightarrow>
     (let a = unat w div 4096 in a div 2 ^ 27 mod 512 = k div 2 ^ 27 mod 512 \<and> a div 2 ^ 18 mod 512 = k div 2 ^ 18 mod 512 \<and>
        a div 512 mod 512 = k div 512 mod 512 \<and> a mod 512 = k mod 512)"
    unfolding table_path_def word_unat_eq_iff list.inject unat_index e unat_page_addr [OF assms(2)] Let_def by auto
  also have "\<dots> \<longleftrightarrow> unat w div 4096 = k"
    using page_digits [OF n] page_digits [of k] assms(2) by (auto simp: Let_def)
  finally show ?thesis .
qed


subsection \<open>The boot sequence\<close>

lemma walk_prefix: "walk M t (p @ q) \<noteq> None \<Longrightarrow> walk M t p \<noteq> None"
  by (cases "walk M t p") (simp_all add: walk_append)

text \<open>The tables used for the first \<open>n\<close> pages.\<close>

definition tables_for :: "nat \<Rightarrow> nat" where
  "tables_for n = (if n = 0 then 0 else 1) + (n + 262143) div 262144 + (n + 511) div 512"

lemma div_up_Suc:
  fixes d :: nat
  assumes "0 < d"
  shows "(Suc n + (d - 1)) div d = (n + (d - 1)) div d + (if n mod d = 0 then 1 else 0)"
  using div_Suc [of "n + (d - 1)" d] assms by simp

lemma missing_bound:
  assumes n: "n < 1048576" and w: "\<And>k. k < n \<Longrightarrow> root_walk m (table_path (page_addr k)) \<noteq> None"
  shows "tables_for n + missing m (page_addr n) \<le> tables_for (Suc n)"
proof (cases "n = 0")
  case True
  then show ?thesis by (simp add: tables_for_def missing_def)
next
  case False
  then obtain k where k: "n = Suc k" by (cases n) auto
  let ?i = "of_nat (k div 262144)" and ?j = "of_nat (k div 512 mod 512)"
  have path: "table_path (page_addr k) = [0, ?i, ?j]" using n k by (simp add: table_path_def page_index)
  then have w: "root_walk m [0, ?i, ?j] \<noteq> None" using w [of k] k by simp
  then have p: "root_walk m [0] \<noteq> None" "root_walk m [0, ?i] \<noteq> None"
    using walk_prefix [of "phys_mem m" "kernel_pml4 m" "[0]" "[?i, ?j]"]
      walk_prefix [of "phys_mem m" "kernel_pml4 m" "[0, ?i]" "[?j]"] by simp_all
  note idx = page_index [OF n]
  have 1: "root_walk m [PML4_INDEX (page_addr n)] \<noteq> None" using p(1) by (simp add: idx)
  have 2: "root_walk m [PML4_INDEX (page_addr n), PDP_INDEX (page_addr n)] \<noteq> None" if "n mod 262144 \<noteq> 0"
  proof -
    have "n div 262144 = k div 262144" using that k by (simp add: div_Suc)
    then show ?thesis using p(2) by (simp add: idx)
  qed
  have 3: "root_walk m (table_path (page_addr n)) \<noteq> None" if "n mod 512 \<noteq> 0"
  proof -
    have "n div 512 = k div 512" using that k by (simp add: div_Suc)
    moreover from this have "n div 512 div 512 = k div 512 div 512" by simp
    then have "n div 262144 = k div 262144" by (simp add: div_mult2_eq [symmetric])
    ultimately show ?thesis using w by (simp add: table_path_def idx)
  qed
  have "missing m (page_addr n) \<le> (if n mod 262144 = 0 then 1 else 0) + (if n mod 512 = 0 then 1 else 0)"
    using 1 2 3 unfolding missing_def by (cases "n mod 512 = 0"; cases "n mod 262144 = 0"; simp del: walk.simps not_None_eq)
  moreover have "(Suc n + 262143) div 262144 = (n + 262143) div 262144 + (if n mod 262144 = 0 then 1 else 0)"
    "(Suc n + 511) div 512 = (n + 511) div 512 + (if n mod 512 = 0 then 1 else 0)"
    using div_up_Suc [of 262144 n] div_up_Suc [of 512 n] by simp_all
  ultimately show ?thesis using False by (simp add: tables_for_def)
qed

text \<open>What holds when the first \<open>n\<close> pages are mapped; \<open>b\<close> is the start of the free memory before the
  boot sequence and \<open>e\<close> its end.\<close>

definition mapped_to :: "nat \<Rightarrow> u64 \<Rightarrow> nat \<Rightarrow> mm_t \<Rightarrow> bool" where
  "mapped_to b e n m \<longleftrightarrow> tables_ok m \<and> free_memory_end m = e \<and>
     unat (free_memory_start m) \<le> b + 4096 * Suc (tables_for n) \<and>
     (\<forall>k<n. root_walk m (table_path (page_addr k)) \<noteq> None) \<and>
     (\<forall>v. v < 2 ^ 48 \<longrightarrow> pte_of m v = (if unat v < 4096 * n then Some (table_of v OR 7) else None))"

lemma table_of_page: "unat v div 4096 = k \<Longrightarrow> table_of v = page_addr k"
proof -
  assume k: "unat v div 4096 = k"
  have "k = unat (drop_bit 12 v)" using k by (simp only: unat_drop_bit_eq) (simp add: drop_bit_eq_div)
  then have "page_addr k = push_bit 12 (drop_bit 12 v)" by (simp add: push_bit_eq_mult mult.commute)
  then show ?thesis unfolding table_of_def FFF_mask by (simp only:) (rule bit_eqI, auto simp: bit_simps)
qed

lemma tables_for_bound: "n < 1048576 \<Longrightarrow> tables_for (Suc n) \<le> 2053"
proof -
  assume "n < 1048576"
  then have "(262144 + n) div 262144 < 5" "(512 + n) div 512 < 2049" by (simp_all add: div_less_iff_less_mult)
  then show ?thesis by (simp add: tables_for_def)
qed

lemma mapped_to_step:
  assumes r: "b + 4096 * 2054 < unat e" and n: "n < 1048576" and m: "mapped_to b e n m"
  shows "mapped_to b e (Suc n) (vmm_map_page (page_addr n) (page_addr n) 7 m)"
proof -
  have i: "tables_ok m" "free_memory_end m = e" "unat (free_memory_start m) \<le> b + 4096 * Suc (tables_for n)"
    and w: "\<And>k. k < n \<Longrightarrow> root_walk m (table_path (page_addr k)) \<noteq> None"
    and p: "\<And>v. v < 2 ^ 48 \<Longrightarrow> pte_of m v = (if unat v < 4096 * n then Some (table_of v OR 7) else None)"
    using m unfolding mapped_to_def by blast+
  note less = missing_bound [OF n w]
  have "pages_left (missing m (page_addr n)) m" using i r less tables_for_bound [OF n] by (simp add: pages_left_def)
  note ok = vmm_map_page_ok [OF i(1) this refl, where phys = "page_addr n" and flags = 7]
  have "pte_of (vmm_map_page (page_addr n) (page_addr n) 7 m) v =
      (if unat v < 4096 * Suc n then Some (table_of v OR 7) else None)" if v: "v < 2 ^ 48" for v
  proof (cases "unat v div 4096 = n")
    case True
    then have "unat v < 4096 * Suc n" by (simp add: div_less_iff_less_mult [symmetric])
    then show ?thesis using present_or ok(6) [of v] same_page [OF v n] True table_of_page [OF True] by simp
  next
    case False
    then have "unat v < 4096 * Suc n \<longleftrightarrow> unat v < 4096 * n" by (auto simp: div_nat_eqI)
    then show ?thesis using ok(6) [of v] same_page [OF v n] False p [OF v] by simp
  qed
  moreover have "root_walk (vmm_map_page (page_addr n) (page_addr n) 7 m) (table_path (page_addr k)) \<noteq> None" if "k < Suc n" for k
    using that ok(4) ok(5) [OF _ w] by (cases "k = n") auto
  ultimately show ?thesis using ok(1-3) i less by (simp add: mapped_to_def)
qed

text \<open>The first page taken from the pool is the root of the tables.\<close>

lemma mapped_to_root:
  assumes r: "pages_left 1 m" and a: "aligned (free_memory_start m)" and p: "pmm_alloc_page m = (f, m1)"
  shows "mapped_to (unat (free_memory_start m)) (free_memory_end m) 0 (m1\<lparr>kernel_pml4 := f\<rparr>)"
proof -
  note fields = pmm_alloc_page_room [OF r a p]
  let ?m = "m1\<lparr>kernel_pml4 := f\<rparr>"
  have w: "root_walk ?m q = (if q = [] then Some f else None)" if "path_ok q" for q
    using that fields(5) by (cases q) (auto simp: path_ok_def)
  have "aligned f" "aligned (free_memory_start m1)" "f < free_memory_start m1"
    using a fields(1,2) by (simp_all add: aligned_def word_less_nat_alt mod_add_eq [symmetric])
  then have "tables_ok ?m" using w by (auto simp: tables_ok_def simp del: walk.simps split: if_splits)
  moreover have "pte_of ?m v = None" for v using w [of "table_path v"] by (simp add: pte_of_def) (simp add: table_path_def)
  ultimately show ?thesis using fields by (simp add: mapped_to_def tables_for_def)
qed

lemma vmm_init_mapped:
  assumes "pages_left 2054 m" and "aligned (free_memory_start m)"
  shows "mapped_to (unat (free_memory_start m)) (free_memory_end m) 1048576 (vmm_init m)"
proof -
  obtain f m1 where p: "pmm_alloc_page m = (f, m1)" by fastforce
  have r: "unat (free_memory_start m) + 4096 * 2054 < unat (free_memory_end m)" "pages_left 1 m" using assms(1) by (simp_all add: pages_left_def)
  have 7: "(1 OR 2 OR 4 :: u64) = 7" by simp
  show ?thesis
    unfolding vmm_init_def p Let_def prod.case 7
    by (rule for_range_indexed_invariant [where P = "mapped_to _ _"])
      (use mapped_to_root [OF r(2) assms(2) p] mapped_to_step [OF r(1)] in auto)
qed


subsection \<open>Protection keys\<close>

text \<open>The register PKRU and the gates of \<^verbatim>\<open>mpk.asm\<close>: a gate opens all keys, calls the driver and closes
  key 1 again.\<close>

record cpu_t =
  pkru :: u32

definition mpk_set_pkru :: "u32 \<Rightarrow> cpu_t \<Rightarrow> cpu_t" where
  "mpk_set_pkru pkru_val c = c\<lparr>pkru := pkru_val\<rparr>"

definition mpk_trampoline :: "(cpu_t \<Rightarrow> 'r \<times> cpu_t) \<Rightarrow> cpu_t \<Rightarrow> 'r \<times> cpu_t" where
  "mpk_trampoline f c = (let (r, c1) = f (mpk_set_pkru 0 c) in (r, mpk_set_pkru 0xC c1))"

text \<open>Two bits of the register for each key: bit \<open>2 k\<close> forbids data accesses to the pages with key \<open>k\<close>.\<close>

definition pkey_of :: "u64 \<Rightarrow> nat" where
  "pkey_of pte = unat (drop_bit 59 pte AND 0xF)"

definition data_access :: "cpu_t \<Rightarrow> u64 \<Rightarrow> bool" where
  "data_access c pte \<longleftrightarrow> \<not> bit (pkru c) (2 * pkey_of pte)"

definition frame_of :: "u64 \<Rightarrow> u64" where
  "frame_of pte = pte AND 0x000FFFFFFFFFF000"

text \<open>The identity map of the first 4 GiB in which the pages \<open>S\<close> have key 1.\<close>

definition driver_pte :: "nat set \<Rightarrow> u64 \<Rightarrow> u64" where
  "driver_pte S v = table_of v OR 7 OR (if unat v div 4096 \<in> S then PTE_PKEY 1 else 0)"

definition keyed :: "nat set \<Rightarrow> mm_t \<Rightarrow> bool" where
  "keyed S m \<longleftrightarrow> tables_ok m \<and> (\<forall>v. unat v < 2 ^ 32 \<longrightarrow> pte_of m v = Some (driver_pte S v))"

lemma mapped_to_keyed: "mapped_to b e 1048576 m \<Longrightarrow> keyed {} m"
proof -
  assume m: "mapped_to b e 1048576 m"
  have "v < 2 ^ 48" if "unat v < 2 ^ 32" for v :: u64 using that by (simp add: word_less_nat_alt)
  then show ?thesis using m by (auto simp: mapped_to_def keyed_def driver_pte_def)
qed

lemma bit_small: "unat v < 2 ^ 32 \<Longrightarrow> bit v n \<Longrightarrow> n < 32"
proof -
  assume "unat v < 2 ^ 32" "bit v n"
  then have "bit (take_bit 32 (unat v)) n" by (simp add: bit_unsigned_iff take_bit_nat_eq_self)
  then show ?thesis by (simp add: bit_take_bit_iff)
qed

lemma bit_constants:
  "bit (PTE_PKEY 1) n \<longleftrightarrow> n = 59" "bit (push_bit 59 (0xF :: u64)) n \<longleftrightarrow> 59 \<le> n \<and> n < 63"
  "bit (7 :: u64) n \<longleftrightarrow> n < 3" "bit (4 :: u64) n \<longleftrightarrow> n = 2" "bit (0xFFF :: u64) n \<longleftrightarrow> n < 12"
  "bit (0x000FFFFFFFFFF000 :: u64) n \<longleftrightarrow> 12 \<le> n \<and> n < 52"
proof -
  have m: "(0xF :: u64) = mask 4" "(7 :: u64) = mask 3" "(4 :: u64) = push_bit 2 1"
    "(0x000FFFFFFFFFF000 :: u64) = push_bit 12 (mask 40)" by (simp_all add: mask_eq_exp_minus_1 push_bit_eq_mult)
  show "bit (PTE_PKEY 1) n \<longleftrightarrow> n = 59" "bit (push_bit 59 (0xF :: u64)) n \<longleftrightarrow> 59 \<le> n \<and> n < 63"
    "bit (7 :: u64) n \<longleftrightarrow> n < 3" "bit (4 :: u64) n \<longleftrightarrow> n = 2" "bit (0xFFF :: u64) n \<longleftrightarrow> n < 12"
    "bit (0x000FFFFFFFFFF000 :: u64) n \<longleftrightarrow> 12 \<le> n \<and> n < 52"
    unfolding m FFF_mask PTE_PKEY_def bit_push_bit_iff bit_mask_iff bit_1_iff by auto
qed

lemma key_bits:
  assumes "unat v < 2 ^ 32"
  shows "(driver_pte S v AND NOT (push_bit 59 0xF)) OR PTE_PKEY 1 OR 4 = table_of v OR 7 OR PTE_PKEY 1"
proof -
  have "(table_of v OR 7 OR x) AND NOT (push_bit 59 0xF) OR PTE_PKEY 1 OR 4 = table_of v OR 7 OR PTE_PKEY 1"
    if "x = PTE_PKEY 1 \<or> x = 0" for x
    by (rule bit_eqI) (use that in \<open>auto simp only: table_of_def bit_or_iff bit_and_iff bit_not_iff bit_constants bit_0_eq bot_apply bot_bool_def
        dest: bit_small [OF assms]\<close>)
  then show ?thesis by (simp add: driver_pte_def)
qed

lemma vmm_set_pkey_store:
  assumes "root_walk m (table_path v) = Some t"
  shows "vmm_set_pkey v k m = store (elem_addr t (PT_INDEX v))
    ((phys_mem m (elem_addr t (PT_INDEX v)) AND NOT (push_bit 59 0xF)) OR PTE_PKEY k OR 4) m"
  using assms by (auto simp: vmm_set_pkey_def table_path_def Let_def split: if_splits)

lemma pte_of_Some:
  "pte_of m v = Some e \<Longrightarrow> \<exists>t. root_walk m (table_path v) = Some t \<and> phys_mem m (elem_addr t (PT_INDEX v)) = e"
  by (auto simp: pte_of_def Let_def split: option.splits if_splits)

lemma vmm_set_pkey_keyed:
  assumes m: "keyed S m" and k: "k < 1048576"
  shows "keyed (insert k S) (vmm_set_pkey (page_addr k) 1 m)"
proof -
  have u: "unat (page_addr k) < 2 ^ 32" using k by (simp add: unat_page_addr)
  then have "pte_of m (page_addr k) = Some (driver_pte S (page_addr k))" using m by (simp add: keyed_def)
  then obtain t where t: "root_walk m (table_path (page_addr k)) = Some t"
    "phys_mem m (elem_addr t (PT_INDEX (page_addr k))) = driver_pte S (page_addr k)" using pte_of_Some by blast
  let ?x = "table_of (page_addr k) OR 7 OR PTE_PKEY 1"
  have s: "vmm_set_pkey (page_addr k) 1 m = store (elem_addr t (PT_INDEX (page_addr k))) ?x m"
    using vmm_set_pkey_store [OF t(1), of 1] key_bits [OF u, of S] t(2) by simp
  have tab: "tables_ok m" using m by (simp add: keyed_def)
  note l = leaf_store [OF tab t(1), where x = ?x]
  have x: "?x AND 1 \<noteq> 0" using present_or [of "table_of (page_addr k) OR PTE_PKEY 1"] by (simp add: or.assoc or.commute or.left_commute)
  have "pte_of (vmm_set_pkey (page_addr k) 1 m) v = Some (driver_pte (insert k S) v)" if v: "unat v < 2 ^ 32" for v
  proof -
    have "v < 2 ^ 48" using v by (simp add: word_less_nat_alt)
    note same = same_page [OF this k]
    show ?thesis
    proof (cases "unat v div 4096 = k")
      case True
      then have "table_of (page_addr k) = table_of v" using table_of_page [OF True] table_of_page [of "page_addr k" k] k by (simp add: unat_page_addr)
      then show ?thesis using l(3) [of v] same True x by (simp add: s driver_pte_def)
    next
      case False
      then show ?thesis using l(3) [of v] same m v by (simp add: s driver_pte_def keyed_def)
    qed
  qed
  then show ?thesis using l(1) by (simp add: keyed_def s)
qed

lemma unat_page_addr_le: "k \<le> 1048576 \<Longrightarrow> unat (page_addr k) = 4096 * k"
  by (simp add: unat_word_ariths unsigned_of_nat take_bit_nat_eq_self)

lemma protect_range_keyed:
  assumes "a \<le> 1048576" and "b \<le> 1048576" and "keyed S m"
  shows "\<exists>m'. protect_range (page_addr a) (page_addr b) m = Some m' \<and> keyed (S \<union> {a..<b}) m'"
  using assms
proof (induction "b - a" arbitrary: a S m)
  case 0
  then have "\<not> page_addr a < page_addr b" by (simp add: word_less_nat_alt unat_page_addr_le)
  then show ?case using 0 by (simp add: protect_range.simps)
next
  case (Suc d)
  then have a: "a < b" "a < 1048576" by auto
  have less: "page_addr a < page_addr b" using a Suc.prems(2) by (simp add: word_less_nat_alt unat_page_addr_le)
  have "keyed (insert a S) (vmm_set_pkey (page_addr a) 1 m)" by (rule vmm_set_pkey_keyed [OF Suc.prems(3) a(2)])
  moreover have "d = b - Suc a" "Suc a \<le> 1048576" using Suc.hyps(2) a by auto
  ultimately obtain m' where "protect_range (page_addr (Suc a)) (page_addr b) (vmm_set_pkey (page_addr a) 1 m) = Some m'"
    "keyed (insert a S \<union> {Suc a..<b}) m'" using Suc.hyps(1) Suc.prems(2) by blast
  moreover have "page_addr (Suc a) = page_addr a + 0x1000" by (simp add: algebra_simps)
  moreover have "insert a S \<union> {Suc a..<b} = S \<union> {a..<b}" using a(1) by auto
  ultimately show ?case using less by (subst protect_range.simps) (simp add: add.commute)
qed

lemma aligned_page:
  assumes "aligned a" and "unat a \<le> 2 ^ 32"
  shows "a = page_addr (unat a div 4096)" and "unat a div 4096 \<le> 1048576"
proof -
  show "unat a div 4096 \<le> 1048576" using div_le_mono [OF assms(2), of 4096] by simp
  then have "unat (page_addr (unat a div 4096)) = unat a"
    using assms(1) by (auto simp: unat_page_addr_le aligned_def mod_eq_0_iff_dvd)
  then show "a = page_addr (unat a div 4096)" by (simp add: word_unat_eq_iff)
qed

text \<open>The data pages and the code pages of the driver.\<close>

definition in_driver :: "u64 \<Rightarrow> u64 \<Rightarrow> u64 \<Rightarrow> u64 \<Rightarrow> u64 \<Rightarrow> bool" where
  "in_driver code_start code_end data_start data_end v \<longleftrightarrow>
     code_start \<le> v \<and> v < code_end \<or> data_start \<le> v \<and> v < data_end"

lemma aligned_range:
  assumes "aligned a" and "aligned b"
  shows "a \<le> v \<and> v < b \<longleftrightarrow> unat v div 4096 \<in> {unat a div 4096..<unat b div 4096}"
proof -
  obtain i j where i: "unat a = 4096 * i" "unat b = 4096 * j" using assms by (auto simp: aligned_def mod_eq_0_iff_dvd elim!: dvdE)
  then show ?thesis
    by (auto simp: word_le_nat_alt word_less_nat_alt div_less_iff_less_mult less_eq_div_iff_mult_less_eq mult.commute)
qed

lemma pkey_of_pte: "unat v < 2 ^ 32 \<Longrightarrow> pkey_of (driver_pte S v) = (if unat v div 4096 \<in> S then 1 else 0)"
proof -
  assume v: "unat v < 2 ^ 32"
  have F: "(0xF :: u64) = mask 4" by (simp add: mask_eq_exp_minus_1)
  have "drop_bit 59 (table_of v OR 7 OR PTE_PKEY 1) AND 0xF = 1" "drop_bit 59 (table_of v OR 7 OR 0) AND 0xF = 0"
    by (rule bit_eqI; auto simp only: F table_of_def bit_or_iff bit_and_iff bit_not_iff bit_drop_bit_eq comp_apply bit_constants bit_mask_iff
        bit_0_eq bit_1_iff bot_apply bot_bool_def dest: bit_small [OF v])+
  then show ?thesis by (simp add: pkey_of_def driver_pte_def)
qed

lemma frame_of_pte: "unat v < 2 ^ 32 \<Longrightarrow> frame_of (driver_pte S v) = table_of v"
proof -
  assume v: "unat v < 2 ^ 32"
  have "(table_of v OR 7 OR x) AND 0x000FFFFFFFFFF000 = table_of v" if "x = PTE_PKEY 1 \<or> x = 0" for x
    by (rule bit_eqI) (use that in \<open>auto simp only: table_of_def bit_or_iff bit_and_iff bit_not_iff bit_constants bit_0_eq bot_apply
        bot_bool_def dest: bit_small [OF v]\<close>)
  then show ?thesis by (simp add: frame_of_def driver_pte_def)
qed

subsection \<open>The pool of free pages\<close>

text \<open>What the firmware guarantees of its memory map: segments are page aligned and lie in the address space.\<close>

definition descriptor_ok :: "efi_memory_descriptor \<Rightarrow> bool" where
  "descriptor_ok d \<longleftrightarrow> aligned (md_physical_start d) \<and>
     unat (md_physical_start d) + 4096 * unat (md_number_of_pages d) < 2 ^ 64"

definition picked :: "efi_memory_descriptor list \<Rightarrow> u64 \<times> mm_t \<Rightarrow> bool" where
  "picked ds x \<longleftrightarrow> (\<forall>d\<in>set ds. md_type d = 7 \<longrightarrow> 4096 * unat (md_number_of_pages d) \<le> unat (fst x)) \<and>
     (fst x \<noteq> 0 \<longrightarrow> aligned (free_memory_start (snd x)) \<and>
        unat (free_memory_end (snd x)) = unat (free_memory_start (snd x)) + unat (fst x))"

lemma pmm_pick_picked:
  assumes d: "descriptor_ok d" and x: "picked ds x"
  shows "picked (ds @ [d]) (pmm_pick d x)"
proof -
  obtain l m where lm: "x = (l, m)" by (cases x)
  have n: "unat (md_number_of_pages d * 0x1000) = 4096 * unat (md_number_of_pages d)"
    using d by (simp add: descriptor_ok_def unat_word_ariths)
  have e: "unat (md_physical_start d + md_number_of_pages d * 0x1000) = unat (md_physical_start d) + 4096 * unat (md_number_of_pages d)"
    using d n by (simp add: descriptor_ok_def unat_word_ariths)
  show ?thesis
  proof (cases "md_type d = 7 \<and> md_number_of_pages d * 0x1000 > l")
    case True
    then have "unat l < 4096 * unat (md_number_of_pages d)" using n by (simp add: word_less_nat_alt)
    then show ?thesis using x d True n e by (auto simp: lm picked_def pmm_pick_def descriptor_ok_def Let_def)
  next
    case False
    then have "md_type d = 7 \<Longrightarrow> 4096 * unat (md_number_of_pages d) \<le> unat l" using n by (simp add: word_less_nat_alt)
    then show ?thesis using x False by (auto simp: lm picked_def pmm_pick_def Let_def)
  qed
qed

lemma pmm_picks: "list_all descriptor_ok ds \<Longrightarrow> picked ds (fold pmm_pick ds (0, m))"
  by (induction ds rule: rev_induct) (auto simp: pmm_pick_picked, simp add: picked_def)

text \<open>The pool is the largest free segment, without what lies in the first 2 MiB.\<close>

lemma pmm_init_pool:
  assumes "list_all descriptor_ok ds" and d: "d \<in> set ds" "md_type d = 7" "2567 \<le> unat (md_number_of_pages d)"
  shows "pages_left 2054 (pmm_init ds m)" and "aligned (free_memory_start (pmm_init ds m))"
proof -
  define x where "x = fold pmm_pick ds (0, m)"
  have p: "picked ds x" unfolding x_def by (rule pmm_picks [OF assms(1)])
  then have l: "4096 * 2567 \<le> unat (fst x)" using d by (force simp: picked_def)
  then have "fst x \<noteq> 0" by auto
  with p have s: "aligned (free_memory_start (snd x))"
    "unat (free_memory_end (snd x)) = unat (free_memory_start (snd x)) + unat (fst x)" by (simp_all add: picked_def)
  have "aligned 0x200000" by (simp add: aligned_def)
  then show "aligned (free_memory_start (pmm_init ds m))"
    using s(1) by (simp add: pmm_init_def x_def [symmetric] Let_def)
  show "pages_left 2054 (pmm_init ds m)"
    using l s(2) by (auto simp: pmm_init_def x_def [symmetric] Let_def pages_left_def word_less_nat_alt)
qed

subsection \<open>Properties\<close>


definition boot_mm :: mm_t where
  "boot_mm = \<lparr>free_memory_start = 0, free_memory_end = 0, kernel_pml4 = 0, phys_mem = \<lambda>_. 0\<rparr>"

definition boot_map :: "efi_memory_descriptor list" where
  "boot_map = [\<lparr>md_type = 7, md_physical_start = 0x1000, md_number_of_pages = 0x9F\<rparr>,
     \<lparr>md_type = 7, md_physical_start = 0x100000, md_number_of_pages = 0x10000\<rparr>]"


end
