(* ===== verification/Ata.thy ===== *)
theory Ata
  imports Prelude
begin

text \<open>
  The polling ATA driver \<^verbatim>\<open>src/src/drivers/ata.c\<close>.  The drive is any function from the history of the port
  accesses to the value of the next read, so the theorems hold for every behaviour of the hardware.  The
  console messages are left out.  The properties say what a transfer that reports success has done on the
  ports: which sectors it has addressed, in which order the data went over the data port, and that the
  write cache was flushed.
\<close>

subsection \<open>Ports\<close>

datatype io_event = In u16 u16 | Out u16 u16

record io_t =
  io_dev :: "io_event list \<Rightarrow> u16 \<Rightarrow> u16"
  io_hist :: "io_event list"

definition io_out :: "u16 \<Rightarrow> u16 \<Rightarrow> io_t \<Rightarrow> io_t" where
  "io_out port val s = s\<lparr>io_hist := io_hist s @ [Out port val]\<rparr>"

definition io_in :: "u16 \<Rightarrow> io_t \<Rightarrow> u16 \<times> io_t" where
  "io_in port s = (let v = io_dev s (io_hist s) port in (v, s\<lparr>io_hist := io_hist s @ [In port v]\<rparr>))"

definition outb :: "u16 \<Rightarrow> u8 \<Rightarrow> io_t \<Rightarrow> io_t" where
  "outb port val = io_out port (ucast val)"

definition outw :: "u16 \<Rightarrow> u16 \<Rightarrow> io_t \<Rightarrow> io_t" where
  "outw port val = io_out port val"

definition inb :: "u16 \<Rightarrow> io_t \<Rightarrow> u8 \<times> io_t" where
  "inb port s = (let (v, s1) = io_in port s in (ucast v, s1))"

definition inw :: "u16 \<Rightarrow> io_t \<Rightarrow> u16 \<times> io_t" where
  "inw port s = io_in port s"

abbreviation (input) ATA_DATA :: u16 where "ATA_DATA \<equiv> 0x1F0"
abbreviation (input) ATA_SECTOR_CNT :: u16 where "ATA_SECTOR_CNT \<equiv> 0x1F2"
abbreviation (input) ATA_LBA_LO :: u16 where "ATA_LBA_LO \<equiv> 0x1F3"
abbreviation (input) ATA_LBA_MID :: u16 where "ATA_LBA_MID \<equiv> 0x1F4"
abbreviation (input) ATA_LBA_HI :: u16 where "ATA_LBA_HI \<equiv> 0x1F5"
abbreviation (input) ATA_DRIVE_HEAD :: u16 where "ATA_DRIVE_HEAD \<equiv> 0x1F6"
abbreviation (input) ATA_STATUS_CMD :: u16 where "ATA_STATUS_CMD \<equiv> 0x1F7"
abbreviation (input) ATA_ALT_STATUS :: u16 where "ATA_ALT_STATUS \<equiv> 0x3F6"
abbreviation (input) ATA_SR_BSY :: u8 where "ATA_SR_BSY \<equiv> 0x80"
abbreviation (input) ATA_SR_DRQ :: u8 where "ATA_SR_DRQ \<equiv> 0x08"
abbreviation (input) ATA_SR_ERR :: u8 where "ATA_SR_ERR \<equiv> 0x01"
abbreviation (input) ATA_CMD_READ_SECTORS :: u8 where "ATA_CMD_READ_SECTORS \<equiv> 0x20"
abbreviation (input) ATA_CMD_WRITE_SECTORS :: u8 where "ATA_CMD_WRITE_SECTORS \<equiv> 0x30"
abbreviation (input) ATA_CMD_FLUSH_CACHE :: u8 where "ATA_CMD_FLUSH_CACHE \<equiv> 0xE7"
abbreviation (input) ATA_CMD_IDENTIFY :: u8 where "ATA_CMD_IDENTIFY \<equiv> 0xEC"

subsection \<open>Waiting\<close>

definition ata_400ns_delay :: "io_t \<Rightarrow> io_t" where
  "ata_400ns_delay s = snd (inb ATA_ALT_STATUS (snd (inb ATA_ALT_STATUS (snd (inb ATA_ALT_STATUS (snd (inb ATA_ALT_STATUS s)))))))"

text \<open>The two polling loops; the argument counts the iterations that are left.\<close>

fun ata_poll_bsy :: "nat \<Rightarrow> io_t \<Rightarrow> int \<times> io_t" where
  "ata_poll_bsy 0 s = (-1, s)"
| "ata_poll_bsy (Suc n) s =
     (let (status, s1) = inb ATA_STATUS_CMD s in if status AND ATA_SR_BSY = 0 then (0, s1) else ata_poll_bsy n s1)"

definition ata_wait_not_busy :: "io_t \<Rightarrow> int \<times> io_t" where
  "ata_wait_not_busy = ata_poll_bsy 0x10000000"

fun ata_poll_drq :: "nat \<Rightarrow> io_t \<Rightarrow> int \<times> io_t" where
  "ata_poll_drq 0 s = (-1, s)"
| "ata_poll_drq (Suc n) s =
     (let (status, s1) = inb ATA_STATUS_CMD s in
      if status AND ATA_SR_ERR \<noteq> 0 then (-1, s1)
      else if status AND ATA_SR_DRQ \<noteq> 0 then (0, s1)
      else ata_poll_drq n s1)"

definition ata_wait_drq :: "io_t \<Rightarrow> int \<times> io_t" where
  "ata_wait_drq = ata_poll_drq 0x10000000"

definition ata_select_drive :: "u32 \<Rightarrow> u32 \<Rightarrow> io_t \<Rightarrow> io_t" where
  "ata_select_drive drive lba =
     outb ATA_DRIVE_HEAD (ucast (0xE0 OR push_bit 4 (drive AND 1) OR (drop_bit 24 lba AND 0x0F)))"

subsection \<open>Detection\<close>

text \<open>The loop over the words of the data port, shared by the identification and the reads.\<close>

fun ata_read_words :: "nat \<Rightarrow> io_t \<Rightarrow> u16 list \<times> io_t" where
  "ata_read_words 0 s = ([], s)"
| "ata_read_words (Suc n) s = (let (w, s1) = inw ATA_DATA s; (ws, s2) = ata_read_words n s1 in (w # ws, s2))"

definition ata_probe :: "u32 \<Rightarrow> io_t \<Rightarrow> bool \<times> io_t" where
  "ata_probe drive s =
     (let s1 = ata_400ns_delay (ata_select_drive drive 0 s);
          s2 = outb ATA_LBA_HI 0 (outb ATA_LBA_MID 0 (outb ATA_LBA_LO 0 (outb ATA_SECTOR_CNT 0 s1)));
          (status, s3) = inb ATA_STATUS_CMD (ata_400ns_delay (outb ATA_STATUS_CMD ATA_CMD_IDENTIFY s2)) in
      if status = 0 then (False, s3)
      else
        let (r, s4) = ata_wait_not_busy s3 in
        if r \<noteq> 0 then (False, s4)
        else
          let (mid, s5) = inb ATA_LBA_MID s4; (hi, s6) = inb ATA_LBA_HI s5 in
          if mid \<noteq> 0 \<or> hi \<noteq> 0 then (False, s6)
          else
            let (r, s7) = ata_wait_drq s6 in
            if r \<noteq> 0 then (False, s7) else (True, snd (ata_read_words 256 s7)))"

definition ata_init :: "io_t \<Rightarrow> u32 \<times> io_t" where
  "ata_init s =
     (let (master, s1) = ata_probe 0 s; (slave, s2) = ata_probe 1 s1
      in ((if master then 1 else 0) OR (if slave then 2 else 0), s2))"

subsection \<open>Transfers\<close>

definition ata_set_lba :: "u32 \<Rightarrow> u8 \<Rightarrow> io_t \<Rightarrow> io_t" where
  "ata_set_lba lba count s =
     outb ATA_LBA_HI (ucast (drop_bit 16 lba AND 0xFF))
       (outb ATA_LBA_MID (ucast (drop_bit 8 lba AND 0xFF))
         (outb ATA_LBA_LO (ucast (lba AND 0xFF)) (outb ATA_SECTOR_CNT count s)))"

fun ata_read_loop :: "nat \<Rightarrow> io_t \<Rightarrow> (int \<times> u16 list) \<times> io_t" where
  "ata_read_loop 0 s = ((0, []), s)"
| "ata_read_loop (Suc n) s =
     (let (r, s1) = ata_wait_not_busy s in
      if r \<noteq> 0 then ((-1, []), s1)
      else
        let (r, s2) = ata_wait_drq s1 in
        if r \<noteq> 0 then ((-1, []), s2)
        else
          let (ws, s3) = ata_read_words 256 s2; ((r, rest), s4) = ata_read_loop n (ata_400ns_delay s3)
          in ((r, ws @ rest), s4))"

text \<open>The words are those stored to the buffer, also where the transfer fails.\<close>

definition ata_read_sectors :: "u32 \<Rightarrow> u32 \<Rightarrow> u8 \<Rightarrow> io_t \<Rightarrow> (int \<times> u16 list) \<times> io_t" where
  "ata_read_sectors drive lba count s =
     (let (r, s1) = ata_wait_not_busy s in
      if r \<noteq> 0 then ((-1, []), s1)
      else
        let s2 = ata_set_lba lba count (ata_400ns_delay (ata_select_drive drive lba s1))
        in ata_read_loop (unat count) (ata_400ns_delay (outb ATA_STATUS_CMD ATA_CMD_READ_SECTORS s2)))"

fun ata_write_words :: "u16 list \<Rightarrow> io_t \<Rightarrow> io_t" where
  "ata_write_words [] s = s"
| "ata_write_words (w # ws) s = ata_write_words ws (outw ATA_DATA w s)"

fun ata_write_loop :: "nat \<Rightarrow> u16 list \<Rightarrow> io_t \<Rightarrow> int \<times> io_t" where
  "ata_write_loop 0 p s = (0, s)"
| "ata_write_loop (Suc n) p s =
     (let (r, s1) = ata_wait_not_busy s in
      if r \<noteq> 0 then (-1, s1)
      else
        let (r, s2) = ata_wait_drq s1 in
        if r \<noteq> 0 then (-1, s2)
        else ata_write_loop n (drop 256 p) (ata_400ns_delay (ata_write_words (take 256 p) s2)))"

definition ata_flush :: "u32 \<Rightarrow> io_t \<Rightarrow> int \<times> io_t" where
  "ata_flush drive s =
     (let (r, s1) = ata_wait_not_busy s in
      if r \<noteq> 0 then (-1, s1)
      else
        let s2 = ata_400ns_delay (ata_select_drive drive 0 s1);
            (r, s3) = ata_wait_not_busy (ata_400ns_delay (outb ATA_STATUS_CMD ATA_CMD_FLUSH_CACHE s2))
        in if r \<noteq> 0 then (-1, s3) else (0, s3))"

definition ata_write_sectors :: "u32 \<Rightarrow> u32 \<Rightarrow> u8 \<Rightarrow> u16 list \<Rightarrow> io_t \<Rightarrow> int \<times> io_t" where
  "ata_write_sectors drive lba count buf s =
     (let (r, s1) = ata_wait_not_busy s in
      if r \<noteq> 0 then (-1, s1)
      else
        let s2 = ata_set_lba lba count (ata_400ns_delay (ata_select_drive drive lba s1));
            (r, s3) = ata_write_loop (unat count) buf (ata_400ns_delay (outb ATA_STATUS_CMD ATA_CMD_WRITE_SECTORS s2))
        in if r \<noteq> 0 then (-1, s3) else ata_flush drive s3)"


subsection \<open>What goes over the ports\<close>

text \<open>The writes to the ports in order, and the words read from the data port.\<close>

definition sent :: "io_t \<Rightarrow> (u16 \<times> u16) list" where
  "sent s = concat (map (\<lambda>e. case e of Out p v \<Rightarrow> [(p, v)] | In p v \<Rightarrow> []) (io_hist s))"

definition received :: "io_t \<Rightarrow> u16 list" where
  "received s = concat (map (\<lambda>e. case e of In p v \<Rightarrow> if p = ATA_DATA then [v] else [] | Out p v \<Rightarrow> []) (io_hist s))"

named_theorems port_simps

lemma io_ports [port_simps]:
  "sent (io_out p v s) = sent s @ [(p, v)]" "received (io_out p v s) = received s"
  "sent (snd (io_in p s)) = sent s" "received (snd (io_in p s)) = received s @ (if p = 0x1F0 then [fst (io_in p s)] else [])"
  by (simp_all add: sent_def received_def io_out_def io_in_def Let_def)

lemma byte_ports [port_simps]:
  "sent (outb p b s) = sent s @ [(p, ucast b)]" "received (outb p b s) = received s"
  "sent (outw p w s) = sent s @ [(p, w)]" "received (outw p w s) = received s"
  "sent (snd (inb p s)) = sent s" "p \<noteq> 0x1F0 \<Longrightarrow> received (snd (inb p s)) = received s"
  "sent (snd (inw p s)) = sent s" "received (snd (inw 0x1F0 s)) = received s @ [fst (inw 0x1F0 s)]"
  by (simp_all add: outb_def outw_def inb_def inw_def io_ports case_prod_beta Let_def)

lemma delay_ports [port_simps]: "sent (ata_400ns_delay s) = sent s" "received (ata_400ns_delay s) = received s"
  by (simp_all add: ata_400ns_delay_def byte_ports)

lemma poll_ports [port_simps]:
  "sent (snd (ata_poll_bsy n s)) = sent s" "received (snd (ata_poll_bsy n s)) = received s"
  "sent (snd (ata_poll_drq n s)) = sent s" "received (snd (ata_poll_drq n s)) = received s"
proof -
  show "sent (snd (ata_poll_bsy n s)) = sent s" "received (snd (ata_poll_bsy n s)) = received s"
    by (induction n arbitrary: s) (simp_all add: case_prod_beta Let_def byte_ports)
  show "sent (snd (ata_poll_drq n s)) = sent s" "received (snd (ata_poll_drq n s)) = received s"
    by (induction n arbitrary: s) (simp_all add: case_prod_beta Let_def byte_ports)
qed

lemma wait_ports [port_simps]:
  "sent (snd (ata_wait_not_busy s)) = sent s" "received (snd (ata_wait_not_busy s)) = received s"
  "sent (snd (ata_wait_drq s)) = sent s" "received (snd (ata_wait_drq s)) = received s"
  by (simp_all add: ata_wait_not_busy_def ata_wait_drq_def poll_ports)

lemma read_words_ports [port_simps]:
  "sent (snd (ata_read_words n s)) = sent s"
  "received (snd (ata_read_words n s)) = received s @ fst (ata_read_words n s)" "length (fst (ata_read_words n s)) = n"
  by (induction n arbitrary: s) (simp_all add: case_prod_beta Let_def byte_ports)

lemma write_words_ports [port_simps]:
  "sent (ata_write_words ws s) = sent s @ map (Pair 0x1F0) ws" "received (ata_write_words ws s) = received s"
  by (induction ws arbitrary: s) (simp_all add: byte_ports)

text \<open>A loop over the sectors that succeeds has moved all of them.\<close>

lemma read_loop_ports:
  "ata_read_loop n s = ((0, ws), s') \<Longrightarrow> sent s' = sent s \<and> received s' = received s @ ws \<and> length ws = 256 * n"
proof (induction n arbitrary: s ws)
  case (Suc n)
  define s2 where "s2 = snd (ata_wait_drq (snd (ata_wait_not_busy s)))"
  define t where "t = ata_400ns_delay (snd (ata_read_words 256 s2))"
  from Suc.prems obtain rest where "ata_read_loop n t = ((0, rest), s')" "ws = fst (ata_read_words 256 s2) @ rest"
    by (auto simp: s2_def t_def case_prod_beta Let_def split: if_splits) (metis prod.collapse)
  with Suc.IH show ?case by (simp add: t_def s2_def port_simps)
qed simp

lemma write_loop_ports:
  "ata_write_loop n p s = (0, s') \<Longrightarrow> 256 * n \<le> length p \<Longrightarrow>
     sent s' = sent s @ map (Pair 0x1F0) (take (256 * n) p) \<and> received s' = received s"
proof (induction n arbitrary: s p)
  case (Suc n)
  define t where "t = ata_400ns_delay (ata_write_words (take 256 p) (snd (ata_wait_drq (snd (ata_wait_not_busy s)))))"
  from Suc.prems have "ata_write_loop n (drop 256 p) t = (0, s')"
    by (auto simp: t_def case_prod_beta Let_def split: if_splits)
  with Suc have "sent s' = sent t @ map (Pair 0x1F0) (take (256 * n) (drop 256 p)) \<and> received s' = received t" by simp
  moreover have "take (256 * Suc n) p = take 256 p @ take (256 * n) (drop 256 p)"
    using take_add [of 256 "256 * n" p] by simp
  ultimately show ?case by (simp add: t_def port_simps)
qed simp

lemma poll_bsy_ready:
  "ata_poll_bsy n s = (0, s') \<Longrightarrow> \<exists>h v. io_hist s' = h @ [In 0x1F7 v] \<and> (ucast v :: u8) AND 0x80 = 0"
proof (induction n arbitrary: s)
  case (Suc n)
  then show ?case
    by (cases "fst (inb 0x1F7 s) AND 0x80 = 0") (auto simp: inb_def io_in_def case_prod_beta Let_def)
qed simp

subsection \<open>The sector address\<close>

text \<open>The 28-bit address the drive takes from its registers.\<close>

definition lba28 :: "u8 \<Rightarrow> u8 \<Rightarrow> u8 \<Rightarrow> u8 \<Rightarrow> nat" where
  "lba28 head hi mid lo = unat (head AND 0x0F) * 2 ^ 24 + unat hi * 2 ^ 16 + unat mid * 2 ^ 8 + unat lo"

definition head_of :: "u32 \<Rightarrow> u32 \<Rightarrow> u8" where
  "head_of drive lba = ucast (0xE0 OR push_bit 4 (drive AND 1) OR (drop_bit 24 lba AND 0x0F))"

lemma head_bits: "head_of drive lba AND 0x0F = ucast (drop_bit 24 lba AND 0x0F)"
proof -
  have m: "(0x0F :: u8) = mask 4" "(0x0F :: u32) = mask 4" "(0xE0 :: u32) = push_bit 5 (mask 3)"
    by (simp_all add: mask_eq_exp_minus_1 push_bit_eq_mult)
  show ?thesis
    unfolding head_of_def m by (rule bit_eqI) (auto simp only: bit_simps possible_bit_word)
qed

lemma lba28_registers:
  "lba28 (head_of drive lba) (ucast (drop_bit 16 lba AND 0xFF)) (ucast (drop_bit 8 lba AND 0xFF)) (ucast (lba AND 0xFF)) =
     unat lba mod 2 ^ 28"
proof -
  have m: "(0xFF :: u32) = mask 8" "(0x0F :: u32) = mask 4" by (simp_all add: mask_eq_exp_minus_1)
  have "unat (ucast (take_bit k (drop_bit n lba)) :: u8) = take_bit 8 (take_bit k (drop_bit n (unat lba)))" for k n
    by (simp only: unsigned_ucast_eq unsigned_take_bit_eq unat_drop_bit_eq) (simp add: min.commute)
  then have byte: "unat (ucast (drop_bit n lba AND 0xFF) :: u8) = unat lba div 2 ^ n mod 2 ^ 8"
    "unat (ucast (drop_bit n lba AND 0x0F) :: u8) = unat lba div 2 ^ n mod 2 ^ 4" for n
    unfolding m take_bit_eq_mask [symmetric]
    by (simp_all only: take_bit_take_bit) (simp_all add: take_bit_eq_mod drop_bit_eq_div)
  have digits: "a mod 2 ^ 28 = a div 2 ^ 24 mod 2 ^ 4 * 2 ^ 24 + a div 2 ^ 16 mod 2 ^ 8 * 2 ^ 16 + a div 2 ^ 8 mod 2 ^ 8 * 2 ^ 8 + a mod 2 ^ 8"
    for a :: nat
    using mod_mult2_eq [of a "2 ^ 24" "2 ^ 4"] mod_mult2_eq [of a "2 ^ 16" "2 ^ 8"] mod_mult2_eq [of a "2 ^ 8" "2 ^ 8"] by simp
  show ?thesis
    using digits [of "unat lba"] byte [of 0] byte [of 8] byte [of 16] byte [of 24] by (simp add: lba28_def head_bits)
qed

text \<open>A read that succeeds returns the words of the data port in order.\<close>

lemma ata_read_complete:
  assumes "ata_read_sectors drive lba count s = ((0, ws), s')"
  shows "received s' = received s @ ws" and "length ws = 256 * unat count"
    and "sent s' = sent s @ [(0x1F6, ucast (head_of drive lba)), (0x1F2, ucast count), (0x1F3, ucast (ucast (lba AND 0xFF) :: u8)),
      (0x1F4, ucast (ucast (drop_bit 8 lba AND 0xFF) :: u8)), (0x1F5, ucast (ucast (drop_bit 16 lba AND 0xFF) :: u8)), (0x1F7, ucast (0x20 :: u8))]"
proof -
  define s2 where "s2 = ata_400ns_delay (outb 0x1F7 0x20 (ata_set_lba lba count (ata_400ns_delay (ata_select_drive drive lba
    (snd (ata_wait_not_busy s))))))"
  have "ata_read_loop (unat count) s2 = ((0, ws), s')"
    using assms by (auto simp: ata_read_sectors_def s2_def case_prod_beta Let_def split: if_splits)
  note loop = read_loop_ports [OF this]
  then show "received s' = received s @ ws" "length ws = 256 * unat count"
    by (simp_all add: s2_def ata_set_lba_def ata_select_drive_def port_simps)
  show "sent s' = sent s @ [(0x1F6, ucast (head_of drive lba)), (0x1F2, ucast count), (0x1F3, ucast (ucast (lba AND 0xFF) :: u8)),
      (0x1F4, ucast (ucast (drop_bit 8 lba AND 0xFF) :: u8)), (0x1F5, ucast (ucast (drop_bit 16 lba AND 0xFF) :: u8)), (0x1F7, ucast (0x20 :: u8))]"
    using loop by (simp add: s2_def ata_set_lba_def ata_select_drive_def head_of_def port_simps)
qed

subsection \<open>A drive that is always ready\<close>

lemma dev_ports [simp]:
  "io_dev (outb p b s) = io_dev s" "io_dev (outw p w s) = io_dev s" "io_dev (snd (inb p s)) = io_dev s"
  by (simp_all add: outb_def outw_def inb_def io_out_def io_in_def Let_def)

lemma dev_poll [simp]: "io_dev (snd (ata_poll_bsy n s)) = io_dev s" "io_dev (snd (ata_poll_drq n s)) = io_dev s"
proof -
  show "io_dev (snd (ata_poll_bsy n s)) = io_dev s" by (induction n arbitrary: s) (simp_all add: case_prod_beta Let_def)
  show "io_dev (snd (ata_poll_drq n s)) = io_dev s" by (induction n arbitrary: s) (simp_all add: case_prod_beta Let_def)
qed

lemma dev_steps [simp]:
  "io_dev (ata_400ns_delay s) = io_dev s" "io_dev (snd (ata_wait_not_busy s)) = io_dev s" "io_dev (snd (ata_wait_drq s)) = io_dev s"
  "io_dev (ata_select_drive d l s) = io_dev s" "io_dev (ata_set_lba l c s) = io_dev s"
  by (simp_all add: ata_400ns_delay_def ata_wait_not_busy_def ata_wait_drq_def ata_select_drive_def ata_set_lba_def)

lemma dev_write_words [simp]: "io_dev (ata_write_words ws s) = io_dev s"
  by (induction ws arbitrary: s) simp_all

definition ready_dev :: "io_event list \<Rightarrow> u16 \<Rightarrow> u16" where
  "ready_dev h p = (if p = ATA_STATUS_CMD then 0x48 else 0)"

lemma ready_wait:
  assumes "io_dev s = ready_dev"
  shows "fst (ata_wait_not_busy s) = 0" "fst (ata_wait_drq s) = 0"
proof -
  have "fst (inb 0x1F7 s) = 0x48" using assms by (simp add: inb_def io_in_def ready_dev_def Let_def)
  then have "fst (ata_poll_bsy (Suc n) s) = 0" "fst (ata_poll_drq (Suc n) s) = 0" for n
    by (simp_all add: case_prod_beta Let_def)
  from this [of "0x10000000 - 1"] show "fst (ata_wait_not_busy s) = 0" "fst (ata_wait_drq s) = 0"
    by (simp_all add: ata_wait_not_busy_def ata_wait_drq_def)
qed

lemma ready_loop: "io_dev s = ready_dev \<Longrightarrow> fst (ata_write_loop n p s) = 0 \<and> io_dev (snd (ata_write_loop n p s)) = ready_dev"
  by (induction n arbitrary: s p) (simp_all add: case_prod_beta Let_def ready_wait)

lemma ready_write: "io_dev s = ready_dev \<Longrightarrow> fst (ata_write_sectors drive lba count buf s) = 0"
  by (simp add: ata_write_sectors_def ata_flush_def case_prod_beta Let_def ready_wait ready_loop)

subsection \<open>Properties\<close>

text \<open>C26: an ATA write that reports success, with any behaviour of the drive, has put the sector count and the low
  28 bits of the sector address into the registers, issued the write command, sent the words of the
  sectors in order over the data port, and flushed the write cache of the drive, which was no longer busy
  at the end.\<close>

theorem ata_write_complete:
  assumes "ata_write_sectors drive lba count buf s = (0, s')" and "256 * unat count \<le> length buf"
  shows "(\<exists>head hi mid lo. lba28 head hi mid lo = unat lba mod 2 ^ 28 \<and> (bit head 4 \<longleftrightarrow> bit drive 0) \<and>
      sent s' = sent s @
        [(ATA_DRIVE_HEAD, ucast head), (ATA_SECTOR_CNT, ucast count), (ATA_LBA_LO, ucast lo), (ATA_LBA_MID, ucast mid),
         (ATA_LBA_HI, ucast hi), (ATA_STATUS_CMD, ucast ATA_CMD_WRITE_SECTORS)] @
        map (Pair ATA_DATA) (take (256 * unat count) buf) @
        [(ATA_DRIVE_HEAD, ucast (head_of drive 0)), (ATA_STATUS_CMD, ucast ATA_CMD_FLUSH_CACHE)]) \<and>
    (\<exists>h v. io_hist s' = h @ [In ATA_STATUS_CMD v] \<and> (ucast v :: u8) AND ATA_SR_BSY = 0)"
proof -
  define s1 where "s1 = snd (ata_wait_not_busy s)"
  define s2 where "s2 = ata_400ns_delay (outb 0x1F7 0x30 (ata_set_lba lba count (ata_400ns_delay (ata_select_drive drive lba s1))))"
  define s3 where "s3 = snd (ata_write_loop (unat count) buf s2)"
  define s4 where "s4 = ata_400ns_delay (outb 0x1F7 0xE7 (ata_400ns_delay (ata_select_drive drive 0 (snd (ata_wait_not_busy s3)))))"
  have w: "fst (ata_write_loop (unat count) buf s2) = 0" and f: "ata_flush drive s3 = (0, s')"
    using assms(1) by (auto simp: ata_write_sectors_def s1_def s2_def s3_def case_prod_beta Let_def split: if_splits)
  have e: "ata_wait_not_busy s4 = (0, s')"
    using f by (auto simp: ata_flush_def s4_def case_prod_beta Let_def split: if_splits) (metis prod.collapse)
  have "ata_write_loop (unat count) buf s2 = (0, s3)" using w by (simp add: s3_def prod_eq_iff)
  note loop = write_loop_ports [OF this assms(2)]
  have "sent s' = sent s4" using wait_ports(1) [of s4] e by simp
  then have "sent s' = sent s @ [(0x1F6, ucast (head_of drive lba)), (0x1F2, ucast count), (0x1F3, ucast (ucast (lba AND 0xFF) :: u8)),
      (0x1F4, ucast (ucast (drop_bit 8 lba AND 0xFF) :: u8)), (0x1F5, ucast (ucast (drop_bit 16 lba AND 0xFF) :: u8)), (0x1F7, ucast (0x30 :: u8))] @
      map (Pair 0x1F0) (take (256 * unat count) buf) @ [(0x1F6, ucast (head_of drive 0)), (0x1F7, ucast (0xE7 :: u8))]"
    using loop by (simp add: s4_def s2_def s1_def ata_set_lba_def ata_select_drive_def head_of_def port_simps)
  moreover have "bit (head_of drive lba) 4 \<longleftrightarrow> bit drive 0" by (simp add: head_of_def bit_simps)
  moreover have "\<exists>h v. io_hist s' = h @ [In 0x1F7 v] \<and> (ucast v :: u8) AND 0x80 = 0"
    using poll_bsy_ready [OF e [unfolded ata_wait_not_busy_def]] .
  ultimately show ?thesis using lba28_registers [of drive lba] by blast
qed

definition fresh_drive :: io_t where
  "fresh_drive = \<lparr>io_dev = ready_dev, io_hist = []\<rparr>"

theorem ata_write_complete_witness:
  "fst (ata_write_sectors 1 0x30000005 1 (replicate 256 7) fresh_drive) = 0 \<and>
   (\<exists>head hi mid lo. lba28 head hi mid lo = 5 \<and> bit head 4 \<and>
      sent (snd (ata_write_sectors 1 0x30000005 1 (replicate 256 7) fresh_drive)) =
        [(0x1F6, ucast head), (0x1F2, 1), (0x1F3, ucast lo), (0x1F4, ucast mid), (0x1F5, ucast hi), (0x1F7, 0x30)] @
        map (Pair 0x1F0) (replicate 256 7) @ [(0x1F6, ucast (head_of 1 0)), (0x1F7, 0xE7)])"
proof -
  let ?w = "ata_write_sectors 1 0x30000005 1 (replicate 256 7) fresh_drive"
  have r: "fst ?w = 0" by (rule ready_write) (simp add: fresh_drive_def)
  then have "?w = (0, snd ?w)" by (simp add: prod_eq_iff)
  moreover have "256 * unat (1 :: u8) \<le> length (replicate 256 (7 :: u16))" by simp
  ultimately have "(\<exists>head hi mid lo. lba28 head hi mid lo = unat (0x30000005 :: u32) mod 2 ^ 28 \<and> (bit head 4 \<longleftrightarrow> bit (1 :: u32) 0) \<and>
      sent (snd ?w) = sent fresh_drive @ [(0x1F6, ucast head), (0x1F2, ucast (1 :: u8)), (0x1F3, ucast lo), (0x1F4, ucast mid),
         (0x1F5, ucast hi), (0x1F7, ucast (0x30 :: u8))] @
        map (Pair 0x1F0) (take (256 * unat (1 :: u8)) (replicate 256 7)) @ [(0x1F6, ucast (head_of 1 0)), (0x1F7, ucast (0xE7 :: u8))])"
    using ata_write_complete by blast
  moreover have "sent fresh_drive = []" by (simp add: sent_def fresh_drive_def)
  ultimately show ?thesis using r by simp
qed

end
