(* ===== verification/Ahci.thy ===== *)
theory Ahci
  imports Prelude
begin

text \<open>
  The AHCI driver \<^verbatim>\<open>src/src/drivers/ahci.c\<close>.  The controller is any function of the history of register
  accesses: it chooses the value of every register read and, by DMA, the contents of the transfer buffer
  at that moment.  A register write is recorded together with the command structures and the buffer, which
  the controller may fetch from then on.  The area for received frames is never read by the driver and is
  left out, as are the console messages, but not the register reads made for them.
\<close>

subsection \<open>Structures\<close>

record hba_cmd_hdr_t =
  hdr_flags :: u16
  hdr_prdtl :: u16
  hdr_prdbc :: u32
  hdr_ctba :: u32
  hdr_ctbau :: u32

record hba_prdt_t =
  prdt_dba :: u32
  prdt_dbau :: u32
  prdt_dbc :: u32

record fis_h2d_t =
  fis_type :: u8
  fis_flags :: u8
  fis_command :: u8
  fis_lba0 :: u8
  fis_lba1 :: u8
  fis_lba2 :: u8
  fis_device :: u8
  fis_lba3 :: u8
  fis_lba4 :: u8
  fis_lba5 :: u8
  fis_countl :: u8
  fis_counth :: u8

text \<open>The memory shared with the controller: slot 0 of the command list (the only one in use), the command
  table with its one region, and the transfer buffer.\<close>

record hba_mem =
  s_cmd_hdr :: hba_cmd_hdr_t
  s_cmd_fis :: fis_h2d_t
  s_cmd_prdt :: hba_prdt_t
  s_dma_buf :: "u8 list"

datatype hba_event =
    Hba_Read u32 u32
  | Hba_Write u32 u32 hba_mem
  | Pci_Read u32 u32
  | Pci_Write u32 u32

record ahci_t =
  g_abar :: u64
  g_port :: int
  ah_mem :: hba_mem
  addr_cmd_list :: u64
  addr_fis_area :: u64
  addr_cmd_tbl :: u64
  addr_dma_buf :: u64
  ah_dev :: "hba_event list \<Rightarrow> u32 \<Rightarrow> u32"
  ah_dma :: "hba_event list \<Rightarrow> u8 list \<Rightarrow> u8 list"
  ah_pci :: "hba_event list \<Rightarrow> u32 \<Rightarrow> u32"
  ah_hist :: "hba_event list"

subsection \<open>Registers\<close>

definition pci_read32 :: "u32 \<Rightarrow> u32 \<Rightarrow> u32 \<Rightarrow> u32 \<Rightarrow> ahci_t \<Rightarrow> u32 \<times> ahci_t" where
  "pci_read32 bus dev fn off s =
     (let addr = push_bit 31 1 OR push_bit 16 bus OR push_bit 11 dev OR push_bit 8 fn OR (off AND 0xFC);
          v = ah_pci s (ah_hist s) addr
      in (v, s\<lparr>ah_hist := ah_hist s @ [Pci_Read addr v]\<rparr>))"

definition pci_write32 :: "u32 \<Rightarrow> u32 \<Rightarrow> u32 \<Rightarrow> u32 \<Rightarrow> u32 \<Rightarrow> ahci_t \<Rightarrow> ahci_t" where
  "pci_write32 bus dev fn off val s =
     (let addr = push_bit 31 1 OR push_bit 16 bus OR push_bit 11 dev OR push_bit 8 fn OR (off AND 0xFC)
      in s\<lparr>ah_hist := ah_hist s @ [Pci_Write addr val]\<rparr>)"

definition hba_read :: "u32 \<Rightarrow> ahci_t \<Rightarrow> u32 \<times> ahci_t" where
  "hba_read off s =
     (let v = ah_dev s (ah_hist s) off; m = ah_mem s
      in (v, s\<lparr>ah_mem := m\<lparr>s_dma_buf := ah_dma s (ah_hist s) (s_dma_buf m)\<rparr>, ah_hist := ah_hist s @ [Hba_Read off v]\<rparr>))"

definition hba_write :: "u32 \<Rightarrow> u32 \<Rightarrow> ahci_t \<Rightarrow> ahci_t" where
  "hba_write off val s = s\<lparr>ah_hist := ah_hist s @ [Hba_Write off val (ah_mem s)]\<rparr>"

definition port_read :: "int \<Rightarrow> u32 \<Rightarrow> ahci_t \<Rightarrow> u32 \<times> ahci_t" where
  "port_read p off = hba_read (0x100 + of_int p * 0x80 + off)"

definition port_write :: "int \<Rightarrow> u32 \<Rightarrow> u32 \<Rightarrow> ahci_t \<Rightarrow> ahci_t" where
  "port_write p off val = hba_write (0x100 + of_int p * 0x80 + off) val"

abbreviation (input) HBA_CAP :: u32 where "HBA_CAP \<equiv> 0x00"
abbreviation (input) HBA_GHC :: u32 where "HBA_GHC \<equiv> 0x04"
abbreviation (input) HBA_PI :: u32 where "HBA_PI \<equiv> 0x0C"
abbreviation (input) HBA_VS :: u32 where "HBA_VS \<equiv> 0x10"
abbreviation (input) HBA_CAP2 :: u32 where "HBA_CAP2 \<equiv> 0x24"
abbreviation (input) HBA_BOHC :: u32 where "HBA_BOHC \<equiv> 0x28"
abbreviation (input) PORT_CLB :: u32 where "PORT_CLB \<equiv> 0x00"
abbreviation (input) PORT_CLBU :: u32 where "PORT_CLBU \<equiv> 0x04"
abbreviation (input) PORT_FB :: u32 where "PORT_FB \<equiv> 0x08"
abbreviation (input) PORT_FBU :: u32 where "PORT_FBU \<equiv> 0x0C"
abbreviation (input) PORT_IS :: u32 where "PORT_IS \<equiv> 0x10"
abbreviation (input) PORT_CMD :: u32 where "PORT_CMD \<equiv> 0x18"
abbreviation (input) PORT_TFD :: u32 where "PORT_TFD \<equiv> 0x20"
abbreviation (input) PORT_SIG :: u32 where "PORT_SIG \<equiv> 0x24"
abbreviation (input) PORT_SSTS :: u32 where "PORT_SSTS \<equiv> 0x28"
abbreviation (input) PORT_SCTL :: u32 where "PORT_SCTL \<equiv> 0x2C"
abbreviation (input) PORT_SERR :: u32 where "PORT_SERR \<equiv> 0x30"
abbreviation (input) PORT_CI :: u32 where "PORT_CI \<equiv> 0x38"
abbreviation (input) PCMD_ST :: u32 where "PCMD_ST \<equiv> 0x1"
abbreviation (input) PCMD_FRE :: u32 where "PCMD_FRE \<equiv> 0x10"
abbreviation (input) PCMD_FR :: u32 where "PCMD_FR \<equiv> 0x4000"
abbreviation (input) PCMD_CR :: u32 where "PCMD_CR \<equiv> 0x8000"
abbreviation (input) PIS_TFES :: u32 where "PIS_TFES \<equiv> 0x40000000"
abbreviation (input) SIG_ATA :: u32 where "SIG_ATA \<equiv> 0x101"

text \<open>The polling loops: at most \<open>n\<close> reads of a register until its masked bits have the wanted value.
  The result says whether the loop was left early.\<close>

fun hba_poll :: "nat \<Rightarrow> u32 \<Rightarrow> u32 \<Rightarrow> u32 \<Rightarrow> ahci_t \<Rightarrow> bool \<times> ahci_t" where
  "hba_poll 0 off bits want s = (False, s)"
| "hba_poll (Suc n) off bits want s =
     (let (v, s1) = hba_read off s in if v AND bits = want then (True, s1) else hba_poll n off bits want s1)"

abbreviation (input) port_poll :: "nat \<Rightarrow> int \<Rightarrow> u32 \<Rightarrow> u32 \<Rightarrow> u32 \<Rightarrow> ahci_t \<Rightarrow> bool \<times> ahci_t" where
  "port_poll n p off bits want \<equiv> hba_poll n (0x100 + of_int p * 0x80 + off) bits want"

text \<open>Read, change and write back a register.\<close>

abbreviation (input) hba_modify :: "u32 \<Rightarrow> (u32 \<Rightarrow> u32) \<Rightarrow> ahci_t \<Rightarrow> ahci_t" where
  "hba_modify off f s \<equiv> (let (v, s1) = hba_read off s in hba_write off (f v) s1)"

abbreviation (input) port_modify :: "int \<Rightarrow> u32 \<Rightarrow> (u32 \<Rightarrow> u32) \<Rightarrow> ahci_t \<Rightarrow> ahci_t" where
  "port_modify p off f s \<equiv> (let (v, s1) = port_read p off s in port_write p off (f v) s1)"

subsection \<open>Port setup\<close>

definition port_stop_engine :: "int \<Rightarrow> ahci_t \<Rightarrow> ahci_t" where
  "port_stop_engine p s =
     (let s1 = port_modify p PORT_CMD (\<lambda>v. v AND NOT PCMD_ST) s;
          s2 = snd (port_poll 500000 p PORT_CMD PCMD_CR 0 s1);
          s3 = port_modify p PORT_CMD (\<lambda>v. v AND NOT PCMD_FRE) s2
      in snd (port_poll 500000 p PORT_CMD PCMD_FR 0 s3))"

definition port_start_engine :: "int \<Rightarrow> ahci_t \<Rightarrow> ahci_t" where
  "port_start_engine p s =
     port_modify p PORT_CMD (\<lambda>v. v OR PCMD_ST)
       (port_modify p PORT_CMD (\<lambda>v. v OR PCMD_FRE) (snd (port_poll 500000 p PORT_CMD PCMD_CR 0 s)))"

definition zero_fis :: fis_h2d_t where
  "zero_fis = \<lparr>fis_type = 0, fis_flags = 0, fis_command = 0, fis_lba0 = 0, fis_lba1 = 0, fis_lba2 = 0, fis_device = 0,
     fis_lba3 = 0, fis_lba4 = 0, fis_lba5 = 0, fis_countl = 0, fis_counth = 0\<rparr>"

definition zero_prdt :: hba_prdt_t where
  "zero_prdt = \<lparr>prdt_dba = 0, prdt_dbau = 0, prdt_dbc = 0\<rparr>"

definition port_init :: "int \<Rightarrow> ahci_t \<Rightarrow> int \<times> ahci_t" where
  "port_init p s =
     (let (ssts, s1) = port_read p PORT_SSTS s in
      if ssts AND 0xF \<noteq> 3 then (-1, s1)
      else if ssts AND 0xF00 \<noteq> 0x100 then (-1, s1)
      else
        let s2 = port_stop_engine p s1;
            s3 = port_write p PORT_FBU (ucast (drop_bit 32 (addr_fis_area s2)))
              (port_write p PORT_FB (ucast (addr_fis_area s2 AND 0xFFFFFFFF))
              (port_write p PORT_CLBU (ucast (drop_bit 32 (addr_cmd_list s2)))
              (port_write p PORT_CLB (ucast (addr_cmd_list s2 AND 0xFFFFFFFF)) s2)));
            s4 = s3\<lparr>ah_mem := (ah_mem s3)\<lparr>s_cmd_hdr := \<lparr>hdr_flags = 0, hdr_prdtl = 0, hdr_prdbc = 0,
                   hdr_ctba = ucast (addr_cmd_tbl s3 AND 0xFFFFFFFF), hdr_ctbau = ucast (drop_bit 32 (addr_cmd_tbl s3))\<rparr>,
                 s_cmd_fis := zero_fis, s_cmd_prdt := zero_prdt\<rparr>\<rparr>;
            s5 = port_write p PORT_IS 0xFFFFFFFF (port_write p PORT_SERR 0xFFFFFFFF s4);
            (cap, s6) = hba_read HBA_CAP s5;
            s7 = (if cap AND 4 \<noteq> 0 then port_modify p PORT_CMD (\<lambda>v. v OR 2 OR 4) s6 else s6);
            (sctl, s8) = port_read p PORT_SCTL s7;
            s9 = for_range 20000 (\<lambda>_ s. snd (port_read p PORT_SCTL s)) (port_write p PORT_SCTL ((sctl AND NOT 0xF) OR 1) s8);
            (det_ok, s10) = port_poll 0x100000 p PORT_SSTS 0xF 3 (port_write p PORT_SCTL (sctl AND NOT 0xF) s9) in
        if \<not> det_ok then (-1, s10)
        else
          let (sig, s11) = port_read p PORT_SIG s10 in
          if sig \<noteq> SIG_ATA then (-1, s11)
          else (0, snd (port_poll 0x100000 p PORT_TFD (0x80 OR 0x08) 0 (port_start_engine p s11))))"

subsection \<open>Commands\<close>

text \<open>The wait for slot 0; the first argument counts the iterations that are left.\<close>

fun port_wait_slot0 :: "nat \<Rightarrow> ahci_t \<Rightarrow> int \<times> ahci_t" where
  "port_wait_slot0 0 s =
     (-1, port_write (g_port s) PORT_SERR 0xFFFFFFFF (port_write (g_port s) PORT_IS 0xFFFFFFFF s))"
| "port_wait_slot0 (Suc n) s =
     (let (is_reg, s1) = port_read (g_port s) PORT_IS s in
      if is_reg AND PIS_TFES \<noteq> 0 then
        (let s2 = snd (port_read (g_port s) PORT_TFD s1)
         in (-1, port_write (g_port s) PORT_SERR 0xFFFFFFFF (port_write (g_port s) PORT_IS 0xFFFFFFFF s2)))
      else
        let (ci, s2) = port_read (g_port s) PORT_CI s1 in
        if ci AND 1 = 0 then (0, s2) else port_wait_slot0 n s2)"

definition port_flush :: "ahci_t \<Rightarrow> int \<times> ahci_t" where
  "port_flush s =
     (let s1 = snd (port_poll 0x100000 (g_port s) PORT_TFD (0x80 OR 0x08) 0 s);
          m = ah_mem s1;
          s2 = s1\<lparr>ah_mem := m\<lparr>
            s_cmd_fis := zero_fis\<lparr>fis_type := 0x27, fis_flags := 0x80, fis_command := 0xEA, fis_device := push_bit 6 1\<rparr>,
            s_cmd_prdt := zero_prdt,
            s_cmd_hdr := (s_cmd_hdr m)\<lparr>hdr_flags := 5, hdr_prdtl := 0, hdr_prdbc := 0\<rparr>\<rparr>\<rparr>
      in port_wait_slot0 0x2000000
           (port_write (g_port s) PORT_CI 1 (port_write (g_port s) PORT_SERR 0xFFFFFFFF (port_write (g_port s) PORT_IS 0xFFFFFFFF s2))))"

text \<open>The result is the returned value and the contents of \<open>buf\<close> afterwards.\<close>

definition port_transfer :: "u64 \<Rightarrow> u16 \<Rightarrow> u8 list \<Rightarrow> bool \<Rightarrow> ahci_t \<Rightarrow> (int \<times> u8 list) \<times> ahci_t" where
  "port_transfer lba count buf wr s =
     (if count = 0 \<or> count > 128 then ((-1, buf), s)
      else
        let s1 = snd (port_poll 0x100000 (g_port s) PORT_TFD (0x80 OR 0x08) 0 s);
            byte_count = ucast count * (512 :: u32);
            n = unat byte_count;
            m = ah_mem s1;
            dma = (if wr then take n buf @ drop n (s_dma_buf m) else s_dma_buf m);
            fis = zero_fis\<lparr>fis_type := 0x27, fis_flags := 0x80, fis_command := (if wr then 0x35 else 0x25), fis_device := push_bit 6 1,
              fis_lba0 := ucast (lba AND 0xFF), fis_lba1 := ucast (drop_bit 8 lba AND 0xFF), fis_lba2 := ucast (drop_bit 16 lba AND 0xFF),
              fis_lba3 := ucast (drop_bit 24 lba AND 0xFF), fis_lba4 := ucast (drop_bit 32 lba AND 0xFF), fis_lba5 := ucast (drop_bit 40 lba AND 0xFF),
              fis_countl := ucast (count AND 0xFF), fis_counth := ucast (drop_bit 8 count AND 0xFF)\<rparr>;
            prdt = \<lparr>prdt_dba = ucast (addr_dma_buf s1 AND 0xFFFFFFFF), prdt_dbau = ucast (drop_bit 32 (addr_dma_buf s1)), prdt_dbc = byte_count - 1\<rparr>;
            s2 = s1\<lparr>ah_mem := m\<lparr>s_dma_buf := dma, s_cmd_fis := fis, s_cmd_prdt := prdt,
              s_cmd_hdr := (s_cmd_hdr m)\<lparr>hdr_flags := 5 OR (if wr then push_bit 6 1 else 0), hdr_prdtl := 1, hdr_prdbc := 0\<rparr>\<rparr>\<rparr>;
            (r, s3) = port_wait_slot0 0x2000000
              (port_write (g_port s) PORT_CI 1 (port_write (g_port s) PORT_SERR 0xFFFFFFFF (port_write (g_port s) PORT_IS 0xFFFFFFFF s2)))
        in if r \<noteq> 0 then ((-1, buf), s3)
           else if \<not> wr then ((0, take n (s_dma_buf (ah_mem s3)) @ drop n buf), s3)
           else ((0, buf), snd (port_flush s3)))"

subsection \<open>Detection and entry points\<close>

text \<open>The two nested loops of the search run over the pairs of device and function; leaving the inner loop
  skips the remaining functions of the device.\<close>

function pci_find_ahci_abar :: "(u32 \<times> u32) list \<Rightarrow> ahci_t \<Rightarrow> u64 \<times> ahci_t" where
  "pci_find_ahci_abar [] s = (0, s)"
| "pci_find_ahci_abar ((dev, fn) # fs) s =
     (let (ident, s1) = pci_read32 0 dev fn 0 s; next_dev = dropWhile (\<lambda>x. fst x = dev) fs in
      if ident AND 0xFFFF = 0xFFFF then pci_find_ahci_abar (if fn = 0 then next_dev else fs) s1
      else
        let (cc, s2) = pci_read32 0 dev fn 8 s1 in
        if \<not> (drop_bit 24 cc AND 0xFF = 1 \<and> drop_bit 16 cc AND 0xFF = 6 \<and> drop_bit 8 cc AND 0xFF = 1) then
          if fn = 0 then
            let (ht, s3) = pci_read32 0 dev 0 0xC s2
            in pci_find_ahci_abar (if drop_bit 16 ht AND 0x80 = 0 then next_dev else fs) s3
          else pci_find_ahci_abar fs s2
        else
          let (cmd_reg, s3) = pci_read32 0 dev fn 4 s2;
              (abar, s4) = pci_read32 0 dev fn 0x24 (pci_write32 0 dev fn 4 (cmd_reg OR 6) s3)
          in (ucast (abar AND NOT 0xF), s4))"
  by pat_completeness auto
termination
  by (relation "measure (\<lambda>(fs, s). length fs)") (auto simp: less_Suc_eq_le length_dropWhile_le)

definition ahci_init :: "ahci_t \<Rightarrow> int \<times> ahci_t" where
  "ahci_init s =
     (let (abar, s1) = pci_find_ahci_abar (List.product (map of_nat [0..<32]) (map of_nat [0..<8])) s in
      if abar = 0 then (-1, s1)
      else
        let (cap2, s2) = hba_read HBA_CAP2 (s1\<lparr>g_abar := abar\<rparr>);
            s3 = (if cap2 AND 1 = 0 then s2
                  else
                    let a = snd (hba_poll 0x200000 HBA_BOHC 1 0 (hba_modify HBA_BOHC (\<lambda>v. v OR 2) s2));
                        (bohc, b) = hba_read HBA_BOHC a
                    in if bohc AND 0x10 \<noteq> 0 then snd (hba_poll 0x800000 HBA_BOHC 0x10 0 b) else b);
            s4 = hba_modify HBA_GHC (\<lambda>v. v OR 1) (hba_modify HBA_GHC (\<lambda>v. v OR push_bit 31 1) s3);
            (reset_ok, s5) = hba_poll 0x100000 HBA_GHC 1 0 s4 in
        if \<not> reset_ok then (-1, s5)
        else
          let s6 = hba_modify HBA_GHC (\<lambda>v. v OR push_bit 31 1) s5;
              (ports, s7) = hba_read HBA_PI (snd (hba_read HBA_PI (snd (hba_read HBA_VS s6))))
          in foldl
               (\<lambda>(r, s) p.
                  if r = 0 \<or> ports AND push_bit p 1 = 0 then (r, s)
                  else
                    let (r1, s') = port_init (int p) (snd (port_read (int p) PORT_SIG (snd (port_read (int p) PORT_SSTS s))))
                    in if r1 = 0 then (0, s'\<lparr>g_port := int p\<rparr>) else (r, s'))
               (-1, s7) [0..<32])"

definition ahci_read_sectors :: "u64 \<Rightarrow> u16 \<Rightarrow> u8 list \<Rightarrow> ahci_t \<Rightarrow> (int \<times> u8 list) \<times> ahci_t" where
  "ahci_read_sectors lba count buf s =
     (if g_port s < 0 then ((-1, buf), s) else port_transfer lba count buf False s)"

definition ahci_write_sectors :: "u64 \<Rightarrow> u16 \<Rightarrow> u8 list \<Rightarrow> ahci_t \<Rightarrow> int \<times> ahci_t" where
  "ahci_write_sectors lba count buf s =
     (if g_port s < 0 then (-1, s) else (let ((r, _), s') = port_transfer lba count buf True s in (r, s')))"


subsection \<open>What goes to the controller\<close>

definition port_reg :: "int \<Rightarrow> u32 \<Rightarrow> u32" where
  "port_reg p off = 0x100 + of_int p * 0x80 + off"

text \<open>The command structures and buffer contents with which commands were issued on a port, in order.\<close>

definition issued :: "int \<Rightarrow> hba_event list \<Rightarrow> hba_mem list" where
  "issued p h = concat (map (\<lambda>e. case e of
      Hba_Write off v m \<Rightarrow> if off = port_reg p PORT_CI \<and> bit v 0 then [m] else []
    | _ \<Rightarrow> []) h)"

definition lba48 :: "fis_h2d_t \<Rightarrow> nat" where
  "lba48 f = unat (fis_lba0 f) + 2 ^ 8 * (unat (fis_lba1 f) + 2 ^ 8 * (unat (fis_lba2 f) + 2 ^ 8 *
     (unat (fis_lba3 f) + 2 ^ 8 * (unat (fis_lba4 f) + 2 ^ 8 * unat (fis_lba5 f)))))"

definition fis_count :: "fis_h2d_t \<Rightarrow> nat" where
  "fis_count f = unat (fis_countl f) + 256 * unat (fis_counth f)"

lemma port_reg_eq [simp]: "port_reg p a = port_reg p b \<longleftrightarrow> a = b"
  by (simp add: port_reg_def)

lemma issued_simps [simp]:
  "issued p [] = []" "issued p (h @ t) = issued p h @ issued p t" "issued p (Hba_Read off v # t) = issued p t"
  "issued p (Hba_Write (port_reg p off) v m # t) = (if off = PORT_CI \<and> bit v 0 then [m] else []) @ issued p t"
  by (simp_all add: issued_def)

lemma hba_read_sel [simp]:
  "g_port (snd (hba_read off s)) = g_port s" "addr_dma_buf (snd (hba_read off s)) = addr_dma_buf s"
  "ah_hist (snd (hba_read off s)) = ah_hist s @ [Hba_Read off (fst (hba_read off s))]"
  by (simp_all add: hba_read_def Let_def)

lemma hba_write_sel [simp]:
  "g_port (hba_write off v s) = g_port s" "addr_dma_buf (hba_write off v s) = addr_dma_buf s" "ah_mem (hba_write off v s) = ah_mem s"
  "ah_hist (hba_write off v s) = ah_hist s @ [Hba_Write off v (ah_mem s)]"
  by (simp_all add: hba_write_def)

lemma port_sel [simp]:
  "g_port (snd (port_read p off s)) = g_port s" "g_port (port_write p off v s) = g_port s" "ah_mem (port_write p off v s) = ah_mem s"
  "ah_hist (snd (port_read p off s)) = ah_hist s @ [Hba_Read (port_reg p off) (fst (port_read p off s))]"
  "ah_hist (port_write p off v s) = ah_hist s @ [Hba_Write (port_reg p off) v (ah_mem s)]"
  by (simp_all add: port_read_def port_write_def port_reg_def)

lemma hba_poll_frame:
  "g_port (snd (hba_poll n off bits want s)) = g_port s \<and> (\<exists>t. ah_hist (snd (hba_poll n off bits want s)) = ah_hist s @ t \<and> (\<forall>p. issued p t = []))"
proof (induction n arbitrary: s)
  case 0
  then show ?case by (auto intro: exI [of _ "[]"])
next
  case (Suc n)
  define s1 where "s1 = snd (hba_read off s)"
  obtain t where "ah_hist (snd (hba_poll n off bits want s1)) = ah_hist s1 @ t" "\<forall>p. issued p t = []" using Suc by blast
  then have "\<exists>t. ah_hist (snd (hba_poll n off bits want s1)) = ah_hist s @ t \<and> (\<forall>p. issued p t = [])"
    by (intro exI [of _ "Hba_Read off (fst (hba_read off s)) # t"]) (simp add: s1_def)
  then show ?case using Suc by (auto simp: case_prod_beta Let_def s1_def)
qed

lemma wait_frame:
  assumes "port_wait_slot0 n s = (r, s')"
  shows "g_port s' = g_port s \<and> (\<exists>t. ah_hist s' = ah_hist s @ t \<and> issued (g_port s) t = [] \<and>
    (r = 0 \<longrightarrow> (\<exists>t' v. t = t' @ [Hba_Read (port_reg (g_port s) PORT_CI) v] \<and> \<not> bit v 0)))"
  using assms
proof (induction n arbitrary: s)
  case 0
  then show ?case by auto
next
  case (Suc n)
  define s1 where "s1 = snd (port_read (g_port s) PORT_IS s)"
  define s2 where "s2 = snd (port_read (g_port s) PORT_CI s1)"
  consider "r = -1" "s' = port_write (g_port s) PORT_SERR 0xFFFFFFFF (port_write (g_port s) PORT_IS 0xFFFFFFFF (snd (port_read (g_port s) PORT_TFD s1)))"
    | "r = 0" "s' = s2" "fst (port_read (g_port s) PORT_CI s1) AND 1 = 0"
    | "port_wait_slot0 n s2 = (r, s')"
  proof -
    have "port_wait_slot0 (Suc n) s =
      (if fst (port_read (g_port s) PORT_IS s) AND PIS_TFES \<noteq> 0 then
         (-1, port_write (g_port s) PORT_SERR 0xFFFFFFFF (port_write (g_port s) PORT_IS 0xFFFFFFFF (snd (port_read (g_port s) PORT_TFD s1))))
       else if fst (port_read (g_port s) PORT_CI s1) AND 1 = 0 then (0, s2) else port_wait_slot0 n s2)"
      unfolding s1_def s2_def by (simp only: port_wait_slot0.simps case_prod_beta Let_def)
    then show ?thesis using Suc.prems that by (metis prod.inject)
  qed
  then show ?case
  proof cases
    case 1
    then have "ah_hist s' = ah_hist s @ [Hba_Read (port_reg (g_port s) PORT_IS) (fst (port_read (g_port s) PORT_IS s)),
        Hba_Read (port_reg (g_port s) PORT_TFD) (fst (port_read (g_port s) PORT_TFD s1)),
        Hba_Write (port_reg (g_port s) PORT_IS) 0xFFFFFFFF (ah_mem (snd (port_read (g_port s) PORT_TFD s1))),
        Hba_Write (port_reg (g_port s) PORT_SERR) 0xFFFFFFFF (ah_mem (snd (port_read (g_port s) PORT_TFD s1)))]"
      by (simp add: s1_def)
    then show ?thesis using 1 by (intro conjI exI) (assumption | simp add: s1_def)+
  next
    case 2
    then have "ah_hist s' = ah_hist s @ [Hba_Read (port_reg (g_port s) PORT_IS) (fst (port_read (g_port s) PORT_IS s)),
        Hba_Read (port_reg (g_port s) PORT_CI) (fst (port_read (g_port s) PORT_CI s1))]"
      by (simp add: s2_def s1_def)
    moreover have "\<not> bit (fst (port_read (g_port s) PORT_CI s1)) 0" using 2(3) by (simp add: and_one_eq odd_iff_mod_2_eq_one bit_0)
    moreover have "g_port s' = g_port s" using 2(2) by (simp add: s2_def s1_def)
    ultimately show ?thesis by (intro conjI exI [of _ "[_, _]"]) (assumption | simp)+
  next
    case 3
    have g: "g_port s2 = g_port s" by (simp add: s2_def s1_def)
    from Suc.IH [OF 3] obtain t where t: "g_port s' = g_port s" "ah_hist s' = ah_hist s2 @ t" "issued (g_port s) t = []"
      "r = 0 \<longrightarrow> (\<exists>t' v. t = t' @ [Hba_Read (port_reg (g_port s) PORT_CI) v] \<and> \<not> bit v 0)" unfolding g by blast
    let ?e = "[Hba_Read (port_reg (g_port s) PORT_IS) (fst (port_read (g_port s) PORT_IS s)),
        Hba_Read (port_reg (g_port s) PORT_CI) (fst (port_read (g_port s) PORT_CI s1))]"
    have "ah_hist s' = ah_hist s @ (?e @ t)" using t(2) by (simp add: s2_def s1_def)
    moreover have "issued (g_port s) (?e @ t) = []" using t(3) by simp
    moreover have "r = 0 \<longrightarrow> (\<exists>t' v. ?e @ t = t' @ [Hba_Read (port_reg (g_port s) PORT_CI) v] \<and> \<not> bit v 0)"
      using t(4) by (metis append.assoc)
    ultimately show ?thesis using t(1) by blast
  qed
qed

lemma byte_of:
  fixes a :: "'a :: len word"
  shows "8 \<le> LENGTH('a) \<Longrightarrow> unat (ucast (drop_bit n a AND 0xFF) :: u8) = unat a div 2 ^ n mod 2 ^ 8"
proof -
  assume "8 \<le> LENGTH('a)"
  moreover have m: "(0xFF :: 'a word) = mask 8" by (simp add: mask_eq_exp_minus_1)
  moreover have "unat (ucast (take_bit 8 (drop_bit n a)) :: u8) = take_bit 8 (take_bit 8 (drop_bit n (unat a)))"
    by (simp only: unsigned_ucast_eq unsigned_take_bit_eq unat_drop_bit_eq) (simp add: min.commute)
  ultimately show ?thesis
    unfolding m take_bit_eq_mask [symmetric] by (simp only: take_bit_take_bit) (simp add: take_bit_eq_mod drop_bit_eq_div)
qed

lemma digits48:
  fixes a :: nat
  shows "a mod 2 ^ 8 + 2 ^ 8 * (a div 2 ^ 8 mod 2 ^ 8 + 2 ^ 8 * (a div 2 ^ 16 mod 2 ^ 8 + 2 ^ 8 *
    (a div 2 ^ 24 mod 2 ^ 8 + 2 ^ 8 * (a div 2 ^ 32 mod 2 ^ 8 + 2 ^ 8 * (a div 2 ^ 40 mod 2 ^ 8))))) = a mod 2 ^ 48"
  using mod_mult2_eq [of a "2 ^ 40" "2 ^ 8"] mod_mult2_eq [of a "2 ^ 32" "2 ^ 8"] mod_mult2_eq [of a "2 ^ 24" "2 ^ 8"]
    mod_mult2_eq [of a "2 ^ 16" "2 ^ 8"] mod_mult2_eq [of a "2 ^ 8" "2 ^ 8"] by simp

lemma port_flush_frame:
  "\<exists>m t. g_port (snd (port_flush s)) = g_port s \<and> ah_hist (snd (port_flush s)) = ah_hist s @ t \<and> issued (g_port s) t = [m] \<and>
     fis_command (s_cmd_fis m) = 0xEA"
proof -
  define s1 where "s1 = snd (hba_poll 0x100000 (0x100 + of_int (g_port s) * 0x80 + PORT_TFD) (0x80 OR 0x08) 0 s)"
  define s2 where "s2 = s1\<lparr>ah_mem := (ah_mem s1)\<lparr>
    s_cmd_fis := zero_fis\<lparr>fis_type := 0x27, fis_flags := 0x80, fis_command := 0xEA, fis_device := push_bit 6 1\<rparr>, s_cmd_prdt := zero_prdt,
    s_cmd_hdr := (s_cmd_hdr (ah_mem s1))\<lparr>hdr_flags := 5, hdr_prdtl := 0, hdr_prdbc := 0\<rparr>\<rparr>\<rparr>"
  define s3 where "s3 = port_write (g_port s) PORT_CI 1 (port_write (g_port s) PORT_SERR 0xFFFFFFFF (port_write (g_port s) PORT_IS 0xFFFFFFFF s2))"
  have f: "port_flush s = port_wait_slot0 0x2000000 s3" by (simp only: port_flush_def Let_def s3_def s2_def s1_def)
  obtain t1 where t1: "g_port s1 = g_port s" "ah_hist s1 = ah_hist s @ t1" "\<forall>p. issued p t1 = []"
    using hba_poll_frame unfolding s1_def by blast
  have p: "g_port s3 = g_port s" using t1(1) by (simp add: s3_def s2_def)
  obtain t2 where t2: "g_port (snd (port_flush s)) = g_port s" "ah_hist (snd (port_flush s)) = ah_hist s3 @ t2" "issued (g_port s) t2 = []"
    using wait_frame [where r = "fst (port_flush s)" and s' = "snd (port_flush s)" and s = s3 and n = "0x2000000"] by (auto simp: f p)
  let ?w = "[Hba_Write (port_reg (g_port s) PORT_IS) 0xFFFFFFFF (ah_mem s2), Hba_Write (port_reg (g_port s) PORT_SERR) 0xFFFFFFFF (ah_mem s2),
    Hba_Write (port_reg (g_port s) PORT_CI) 1 (ah_mem s2)]"
  have h: "ah_hist (snd (port_flush s)) = ah_hist s @ (t1 @ ?w @ t2)" using t2(2) t1(2) by (simp add: s3_def) (simp add: s2_def)
  have "issued (g_port s) (t1 @ ?w @ t2) = [ah_mem s2]" using t1(3) t2(3) by simp
  moreover have "fis_command (s_cmd_fis (ah_mem s2)) = 0xEA" by (simp add: s2_def)
  ultimately show ?thesis using h t2(1) by blast
qed

text \<open>A transfer command for the sectors from \<open>lba\<close>, as the AHCI specification lays it out: 48 address bits,
  16 count bits, one region with the length minus one, the write bit in the command header.\<close>

definition transfer_cmd :: "u64 \<Rightarrow> u16 \<Rightarrow> bool \<Rightarrow> hba_mem \<Rightarrow> bool" where
  "transfer_cmd lba count wr m \<longleftrightarrow>
     fis_command (s_cmd_fis m) = (if wr then 0x35 else 0x25) \<and> lba48 (s_cmd_fis m) = unat lba mod 2 ^ 48 \<and>
     fis_count (s_cmd_fis m) = unat count \<and> (bit (hdr_flags (s_cmd_hdr m)) 6 \<longleftrightarrow> wr) \<and> hdr_prdtl (s_cmd_hdr m) = 1 \<and>
     unat (prdt_dbc (s_cmd_prdt m)) + 1 = 512 * unat count"

lemma byte_count:
  fixes count :: u16
  assumes "count \<noteq> 0" "\<not> count > 128"
  shows "0 < unat count" "unat count \<le> 128" "unat (ucast count * 512 :: u32) = 512 * unat count"
    "unat (ucast count * 512 - 1 :: u32) + 1 = 512 * unat count"
proof -
  show c: "0 < unat count" "unat count \<le> 128"
    using assms by (auto simp: word_less_nat_alt unat_gt_0)
  then show b: "unat (ucast count * 512 :: u32) = 512 * unat count"
    by (simp add: unat_word_ariths unsigned_ucast_eq take_bit_nat_eq_self)
  then have "(ucast count * 512 :: u32) \<noteq> 0" using c by (auto simp: word_unat_eq_iff)
  then show "unat (ucast count * 512 - 1 :: u32) + 1 = 512 * unat count"
    using b c by (simp add: unat_minus_one)
qed

lemma transfer_fis:
  assumes "f = zero_fis\<lparr>fis_type := 0x27, fis_flags := 0x80, fis_command := (if wr then 0x35 else 0x25), fis_device := push_bit 6 1,
      fis_lba0 := ucast (lba AND 0xFF), fis_lba1 := ucast (drop_bit 8 lba AND 0xFF), fis_lba2 := ucast (drop_bit 16 lba AND 0xFF),
      fis_lba3 := ucast (drop_bit 24 lba AND 0xFF), fis_lba4 := ucast (drop_bit 32 lba AND 0xFF), fis_lba5 := ucast (drop_bit 40 lba AND 0xFF),
      fis_countl := ucast (count AND 0xFF), fis_counth := ucast (drop_bit 8 count AND 0xFF)\<rparr>"
  shows "fis_command f = (if wr then 0x35 else 0x25)" "lba48 f = unat (lba :: u64) mod 2 ^ 48" "fis_count f = unat (count :: u16)"
proof -
  show "fis_command f = (if wr then 0x35 else 0x25)" using assms by simp
  have l: "8 \<le> LENGTH(64)" "8 \<le> LENGTH(16)" by simp_all
  show "lba48 f = unat lba mod 2 ^ 48"
    using digits48 [of "unat lba"] byte_of [OF l(1), of 0 lba] byte_of [OF l(1), of 8 lba] byte_of [OF l(1), of 16 lba]
      byte_of [OF l(1), of 24 lba] byte_of [OF l(1), of 32 lba] byte_of [OF l(1), of 40 lba]
    by (simp add: lba48_def assms)
  have "unat count < 2 ^ 16" using unsigned_less [of count, where ?'a = nat] by simp
  then show "fis_count f = unat count"
    using byte_of [OF l(2), of 0 count] byte_of [OF l(2), of 8 count] mod_mult2_eq [of "unat count" "2 ^ 8" "2 ^ 8"]
    by (simp add: fis_count_def assms)
qed


text \<open>A successful initialisation has selected a port.\<close>

lemma probe_ports:
  assumes "foldl (\<lambda>(r, s) p. if r = 0 \<or> c p then (r, s) else (case f p s of (r1, s') \<Rightarrow> if r1 = 0 then (0, s'\<lparr>g_port := int p\<rparr>) else (r, s')))
      (-1 :: int, s0) xs = (0, s')"
  shows "\<exists>p \<in> set xs. g_port s' = int p"
  using assms
proof (induction xs arbitrary: s' rule: rev_induct)
  case (snoc p xs)
  then show ?case by (auto simp: case_prod_beta Let_def split: if_splits prod.splits)
qed simp

lemma ahci_init_port:
  assumes "ahci_init s = (0, s')"
  shows "0 \<le> g_port s' \<and> g_port s' < 32"
  using assms unfolding ahci_init_def Let_def by (auto split: prod.splits if_splits dest!: probe_ports)

lemma transfer_issues:
  assumes "port_transfer lba count buf wr s = ((0, out), s')"
  shows "\<exists>m s3 t v. 0 < unat count \<and> unat count \<le> 128 \<and> g_port s3 = g_port s \<and> issued (g_port s) t = [m] \<and> transfer_cmd lba count wr m \<and>
    ah_hist s3 = ah_hist s @ t @ [Hba_Read (port_reg (g_port s) PORT_CI) v] \<and> \<not> bit v 0 \<and>
    (if wr then (512 * unat count \<le> length buf \<longrightarrow> take (512 * unat count) (s_dma_buf m) = take (512 * unat count) buf) \<and> s' = snd (port_flush s3)
     else s' = s3 \<and> out = take (512 * unat count) (s_dma_buf (ah_mem s3)) @ drop (512 * unat count) buf)"
proof -
  define s1 where "s1 = snd (hba_poll 0x100000 (0x100 + of_int (g_port s) * 0x80 + PORT_TFD) (0x80 OR 0x08) 0 s)"
  define f where "f = zero_fis\<lparr>fis_type := 0x27, fis_flags := 0x80, fis_command := (if wr then 0x35 else 0x25), fis_device := push_bit 6 1,
      fis_lba0 := ucast (lba AND 0xFF), fis_lba1 := ucast (drop_bit 8 lba AND 0xFF), fis_lba2 := ucast (drop_bit 16 lba AND 0xFF),
      fis_lba3 := ucast (drop_bit 24 lba AND 0xFF), fis_lba4 := ucast (drop_bit 32 lba AND 0xFF), fis_lba5 := ucast (drop_bit 40 lba AND 0xFF),
      fis_countl := ucast (count AND 0xFF), fis_counth := ucast (drop_bit 8 count AND 0xFF)\<rparr>"
  define n where "n = unat (ucast count * (512 :: u32))"
  define m where "m = (ah_mem s1)\<lparr>s_dma_buf := (if wr then take n buf @ drop n (s_dma_buf (ah_mem s1)) else s_dma_buf (ah_mem s1)), s_cmd_fis := f,
      s_cmd_prdt := \<lparr>prdt_dba = ucast (addr_dma_buf s1 AND 0xFFFFFFFF), prdt_dbau = ucast (drop_bit 32 (addr_dma_buf s1)), prdt_dbc = ucast count * 512 - 1\<rparr>,
      s_cmd_hdr := (s_cmd_hdr (ah_mem s1))\<lparr>hdr_flags := 5 OR (if wr then push_bit 6 1 else 0), hdr_prdtl := 1, hdr_prdbc := 0\<rparr>\<rparr>"
  define s2 where "s2 = port_write (g_port s) PORT_CI 1 (port_write (g_port s) PORT_SERR 0xFFFFFFFF
      (port_write (g_port s) PORT_IS 0xFFFFFFFF (s1\<lparr>ah_mem := m\<rparr>)))"
  obtain r s3 where w: "port_wait_slot0 0x2000000 s2 = (r, s3)" by (cases "port_wait_slot0 0x2000000 s2")
  have eq: "port_transfer lba count buf wr s = (if count = 0 \<or> count > 128 then ((-1, buf), s) else if r \<noteq> 0 then ((-1, buf), s3)
      else if \<not> wr then ((0, take n (s_dma_buf (ah_mem s3)) @ drop n buf), s3) else ((0, buf), snd (port_flush s3)))"
    using w unfolding s2_def m_def n_def f_def s1_def port_transfer_def by (simp only: Let_def prod.case)
  have c: "count \<noteq> 0" "\<not> count > 128" "r = 0"
    using assms unfolding eq by (auto split: if_splits)
  note n = byte_count [OF c(1,2)]
  obtain t1 where t1: "g_port s1 = g_port s" "ah_hist s1 = ah_hist s @ t1" "\<forall>p. issued p t1 = []"
    using hba_poll_frame unfolding s1_def by blast
  have p: "g_port s2 = g_port s" using t1(1) by (simp add: s2_def)
  obtain t2 v where t2: "g_port s3 = g_port s" "ah_hist s3 = ah_hist s2 @ t2 @ [Hba_Read (port_reg (g_port s) PORT_CI) v]" "issued (g_port s) t2 = []" "\<not> bit v 0"
    using wait_frame [OF w] c(3) unfolding p by (auto simp del: issued_simps simp add: issued_simps(1,2,3))
  let ?w = "[Hba_Write (port_reg (g_port s) PORT_IS) 0xFFFFFFFF m, Hba_Write (port_reg (g_port s) PORT_SERR) 0xFFFFFFFF m,
    Hba_Write (port_reg (g_port s) PORT_CI) 1 m]"
  have h: "ah_hist s3 = ah_hist s @ (t1 @ ?w @ t2) @ [Hba_Read (port_reg (g_port s) PORT_CI) v]" using t2(2) t1(2) by (simp add: s2_def)
  have i: "issued (g_port s) (t1 @ ?w @ t2) = [m]" using t1(3) t2(3) by simp
  have "transfer_cmd lba count wr m"
    using transfer_fis [OF f_def] n(4) by (simp add: transfer_cmd_def m_def bit_simps)
  moreover have "if wr then (512 * unat count \<le> length buf \<longrightarrow> take (512 * unat count) (s_dma_buf m) = take (512 * unat count) buf) \<and> s' = snd (port_flush s3)
     else s' = s3 \<and> out = take (512 * unat count) (s_dma_buf (ah_mem s3)) @ drop (512 * unat count) buf"
    using assms eq c n(3) by (auto simp: m_def n_def split: if_splits)
  ultimately show ?thesis using n(1,2) h i t2(1,4) by blast
qed


lemma ahci_read_complete:
  assumes "ahci_read_sectors lba count buf s = ((0, out), s')"
  shows "\<exists>rd t v. ah_hist s' = ah_hist s @ t @ [Hba_Read (port_reg (g_port s) PORT_CI) v] \<and> \<not> bit v 0 \<and>
    issued (g_port s) t = [rd] \<and> transfer_cmd lba count False rd \<and>
    out = take (512 * unat count) (s_dma_buf (ah_mem s')) @ drop (512 * unat count) buf"
proof -
  have "port_transfer lba count buf False s = ((0, out), s')"
    using assms by (auto simp: ahci_read_sectors_def split: if_splits)
  from transfer_issues [OF this] show ?thesis by auto
qed

text \<open>A controller that is always ready.\<close>

definition ready_ahci :: ahci_t where
  "ready_ahci = \<lparr>g_abar = 0xFEBF1000, g_port = 2,
     ah_mem = \<lparr>s_cmd_hdr = \<lparr>hdr_flags = 0, hdr_prdtl = 0, hdr_prdbc = 0, hdr_ctba = 0, hdr_ctbau = 0\<rparr>,
       s_cmd_fis = zero_fis, s_cmd_prdt = zero_prdt, s_dma_buf = replicate 65536 0\<rparr>,
     addr_cmd_list = 0x400000, addr_fis_area = 0x401000, addr_cmd_tbl = 0x402000, addr_dma_buf = 0x403000,
     ah_dev = \<lambda>_ _. 0, ah_dma = \<lambda>_ b. b, ah_pci = \<lambda>_ _. 0, ah_hist = []\<rparr>"

lemma ready_ahci_poll: "ah_dev s = (\<lambda>_ _. 0) \<Longrightarrow> 0 < n \<Longrightarrow> ah_dev (snd (hba_poll n off bits 0 s)) = (\<lambda>_ _. 0)"
  by (cases n) (simp_all add: hba_read_def Let_def)

lemma ready_ahci_wait: "ah_dev s = (\<lambda>_ _. 0) \<Longrightarrow> 0 < n \<Longrightarrow> fst (port_wait_slot0 n s) = 0"
  by (cases n) (simp_all add: port_read_def hba_read_def Let_def)

lemma ready_ahci_write:
  assumes "0 < count" "count \<le> 128"
  shows "fst (ahci_write_sectors lba count buf ready_ahci) = 0"
proof -
  have d: "ah_dev ready_ahci = (\<lambda>_ _. 0)" "g_port ready_ahci = 2" by (simp_all add: ready_ahci_def)
  have w: "ah_dev (port_write p off v s) = ah_dev s" for p off v s by (simp add: port_write_def hba_write_def)
  show ?thesis
    using assms ready_ahci_wait ready_ahci_poll [OF d(1)]
    by (simp add: ahci_write_sectors_def port_transfer_def d(2) Let_def case_prod_beta w not_less)
qed


end
