(* ===== verification/Stanza_Text.thy ===== *)
theory Stanza_Text
  imports Parser
begin

text \<open>
  What the parser makes of the text of a message: the attributes of the message element arrive in the
  fields of the stanza as they were written, and no contents of the message, well formed or not, can
  change them.
\<close>

subsection \<open>Contents do not change the head of a stanza\<close>

text \<open>The states in which yxml may report the value of an attribute without a new element.\<close>

definition attributing :: "yxml_state_t \<Rightarrow> bool" where
  "attributing st \<longleftrightarrow> in_attr st \<or> st = YXMLS_elem1 \<or> st = YXMLS_elem2"

definition outside_tag :: "yxml_t \<Rightarrow> bool" where
  "outside_tag x \<longleftrightarrow> \<not> attributing (y_state x) \<and> \<not> attributing (y_nextstate x)"

definition silent :: "yxml_result \<Rightarrow> bool" where
  "silent res \<longleftrightarrow> (\<forall>r x. res = Some (r, x) \<longrightarrow> r = YXML_ELEMSTART \<or> r \<noteq> YXML_ATTRVAL \<and> outside_tag x)"

lemma quiet_if: "(b \<Longrightarrow> silent s) \<Longrightarrow> (\<not> b \<Longrightarrow> silent t) \<Longrightarrow> silent (if b then s else t)"
  by simp

lemma quiet_ok: "outside_tag x \<Longrightarrow> r \<noteq> YXML_ATTRVAL \<Longrightarrow> silent (Some (r, x))"
  by (simp add: silent_def)

lemma quiet_ops:
  assumes "outside_tag x"
  shows "silent (yxml_pushstackc x ch)" "silent (yxml_elemstart x ch)" "silent (yxml_pistart x ch)" "silent (yxml_selfclose x ch)"
    "silent (yxml_elemclose x ch)" "silent (yxml_elemcloseend x ch)" "silent (yxml_piabort x ch)" "silent (yxml_pinameend x ch)"
    "silent (yxml_pivalend x ch)" "silent (yxml_ref x ch)" "silent (yxml_refcontent x ch)" "silent (yxml_elemnameend x ch)"
    "silent (yxml_refstart x ch)" "silent (yxml_datacontent x ch)" "silent (yxml_datapi1 x ch)" "silent (yxml_datapi2 x ch)"
    "silent (yxml_datacd1 x ch)" "silent (yxml_datacd2 x ch)"
  using assms
  by (auto simp: silent_def outside_tag_def attributing_def yxml_pushstackc_def yxml_elemstart_def yxml_pistart_def yxml_pushstack_def
      yxml_selfclose_def yxml_popstack_def yxml_elemclose_def yxml_elemcloseend_def yxml_piabort_def yxml_pinameend_def yxml_pivalend_def
      yxml_ref_def yxml_refcontent_def yxml_refend_def yxml_elemnameend_def yxml_refstart_def yxml_datacontent_def yxml_datapi1_def
      yxml_datapi2_def yxml_datacd1_def yxml_datacd2_def Let_def split: if_splits Option.bind_splits option.splits)

lemma quiet_elemnameend: "silent (yxml_elemnameend x ch)"
  by (simp add: silent_def yxml_elemnameend_def)

lemma attributing_class [simp]: "in_attr st \<Longrightarrow> attributing st" "attributing YXMLS_elem1" "attributing YXMLS_elem2"
  by (simp_all add: attributing_def)

lemma quiet_string: "outside_tag x \<Longrightarrow> silent (y_string_step x ch)"
  by (auto simp: silent_def y_string_step_def outside_tag_def split: list.splits if_splits)

lemma silent_steps:
  assumes "outside_tag x"
  shows "y_state x = YXMLS_cd0 \<Longrightarrow> silent (y_cd0_step x ch)"
    and "y_state x = YXMLS_cd1 \<Longrightarrow> silent (y_cd1_step x ch)"
    and "y_state x = YXMLS_cd2 \<Longrightarrow> silent (y_cd2_step x ch)"
    and "y_state x = YXMLS_comment0 \<Longrightarrow> silent (y_comment0_step x ch)"
    and "y_state x = YXMLS_comment1 \<Longrightarrow> silent (y_comment1_step x ch)"
    and "y_state x = YXMLS_comment2 \<Longrightarrow> silent (y_comment2_step x ch)"
    and "y_state x = YXMLS_comment3 \<Longrightarrow> silent (y_comment3_step x ch)"
    and "y_state x = YXMLS_comment4 \<Longrightarrow> silent (y_comment4_step x ch)"
    and "y_state x = YXMLS_dt0 \<Longrightarrow> silent (y_dt0_step x ch)"
    and "y_state x = YXMLS_dt1 \<Longrightarrow> silent (y_dt1_step x ch)"
    and "y_state x = YXMLS_dt2 \<Longrightarrow> silent (y_dt2_step x ch)"
    and "y_state x = YXMLS_dt3 \<Longrightarrow> silent (y_dt3_step x ch)"
    and "y_state x = YXMLS_dt4 \<Longrightarrow> silent (y_dt4_step x ch)"
    and "y_state x = YXMLS_elem0 \<Longrightarrow> silent (y_elem0_step x ch)"
    and "y_state x = YXMLS_elem3 \<Longrightarrow> silent (y_elem3_step x ch)"
    and "y_state x = YXMLS_enc0 \<Longrightarrow> silent (y_enc0_step x ch)"
    and "y_state x = YXMLS_enc1 \<Longrightarrow> silent (y_enc1_step x ch)"
    and "y_state x = YXMLS_enc2 \<Longrightarrow> silent (y_enc2_step x ch)"
    and "y_state x = YXMLS_enc3 \<Longrightarrow> silent (y_enc3_step x ch)"
    and "y_state x = YXMLS_etag0 \<Longrightarrow> silent (y_etag0_step x ch)"
    and "y_state x = YXMLS_etag1 \<Longrightarrow> silent (y_etag1_step x ch)"
    and "y_state x = YXMLS_etag2 \<Longrightarrow> silent (y_etag2_step x ch)"
    and "y_state x = YXMLS_init \<Longrightarrow> silent (y_init_step x ch)"
    and "y_state x = YXMLS_le0 \<Longrightarrow> silent (y_le0_step x ch)"
    and "y_state x = YXMLS_le1 \<Longrightarrow> silent (y_le1_step x ch)"
    and "y_state x = YXMLS_le2 \<Longrightarrow> silent (y_le2_step x ch)"
    and "y_state x = YXMLS_le3 \<Longrightarrow> silent (y_le3_step x ch)"
    and "y_state x = YXMLS_lee1 \<Longrightarrow> silent (y_lee1_step x ch)"
    and "y_state x = YXMLS_lee2 \<Longrightarrow> silent (y_lee2_step x ch)"
    and "y_state x = YXMLS_leq0 \<Longrightarrow> silent (y_leq0_step x ch)"
    and "y_state x = YXMLS_misc0 \<Longrightarrow> silent (y_misc0_step x ch)"
    and "y_state x = YXMLS_misc1 \<Longrightarrow> silent (y_misc1_step x ch)"
    and "y_state x = YXMLS_misc2 \<Longrightarrow> silent (y_misc2_step x ch)"
    and "y_state x = YXMLS_misc2a \<Longrightarrow> silent (y_misc2a_step x ch)"
    and "y_state x = YXMLS_misc3 \<Longrightarrow> silent (y_misc3_step x ch)"
    and "y_state x = YXMLS_pi0 \<Longrightarrow> silent (y_pi0_step x ch)"
    and "y_state x = YXMLS_pi1 \<Longrightarrow> silent (y_pi1_step x ch)"
    and "y_state x = YXMLS_pi2 \<Longrightarrow> silent (y_pi2_step x ch)"
    and "y_state x = YXMLS_pi3 \<Longrightarrow> silent (y_pi3_step x ch)"
    and "y_state x = YXMLS_pi4 \<Longrightarrow> silent (y_pi4_step x ch)"
    and "y_state x = YXMLS_std0 \<Longrightarrow> silent (y_std0_step x ch)"
    and "y_state x = YXMLS_std1 \<Longrightarrow> silent (y_std1_step x ch)"
    and "y_state x = YXMLS_std2 \<Longrightarrow> silent (y_std2_step x ch)"
    and "y_state x = YXMLS_std3 \<Longrightarrow> silent (y_std3_step x ch)"
    and "y_state x = YXMLS_ver0 \<Longrightarrow> silent (y_ver0_step x ch)"
    and "y_state x = YXMLS_ver1 \<Longrightarrow> silent (y_ver1_step x ch)"
    and "y_state x = YXMLS_ver2 \<Longrightarrow> silent (y_ver2_step x ch)"
    and "y_state x = YXMLS_ver3 \<Longrightarrow> silent (y_ver3_step x ch)"
    and "y_state x = YXMLS_xmldecl0 \<Longrightarrow> silent (y_xmldecl0_step x ch)"
    and "y_state x = YXMLS_xmldecl1 \<Longrightarrow> silent (y_xmldecl1_step x ch)"
    and "y_state x = YXMLS_xmldecl2 \<Longrightarrow> silent (y_xmldecl2_step x ch)"
    and "y_state x = YXMLS_xmldecl3 \<Longrightarrow> silent (y_xmldecl3_step x ch)"
    and "y_state x = YXMLS_xmldecl4 \<Longrightarrow> silent (y_xmldecl4_step x ch)"
    and "y_state x = YXMLS_xmldecl5 \<Longrightarrow> silent (y_xmldecl5_step x ch)"
    and "y_state x = YXMLS_xmldecl6 \<Longrightarrow> silent (y_xmldecl6_step x ch)"
    and "y_state x = YXMLS_xmldecl7 \<Longrightarrow> silent (y_xmldecl7_step x ch)"
    and "y_state x = YXMLS_xmldecl8 \<Longrightarrow> silent (y_xmldecl8_step x ch)"
    and "y_state x = YXMLS_xmldecl9 \<Longrightarrow> silent (y_xmldecl9_step x ch)"
  using assms unfolding yxml_step_defs yxml_elemname_def yxml_piname_def
  by (intro quiet_if quiet_ok quiet_ops quiet_elemnameend; simp add: outside_tag_def attributing_def)+


lemma quiet_switch: "outside_tag x \<Longrightarrow> silent (yxml_switch x ch)"
proof -
  assume o: "outside_tag x"
  have "\<not> attributing (y_state x)" using o by (simp add: outside_tag_def)
  then show ?thesis
    using silent_steps [OF o, of ch] quiet_string [OF o, of ch] unfolding yxml_switch_def
    by (cases "y_state x") (simp_all only: yxml_state_t.case attributing_class in_attr_class simp_thms)
qed

lemma quiet_parse: "outside_tag x \<Longrightarrow> silent (yxml_parse x c)"
proof -
  assume o: "outside_tag x"
  have "outside_tag (x\<lparr>y_total := t, y_ignore := i, y_line := l, y_byte := b\<rparr>)" "outside_tag (x\<lparr>y_total := t, y_ignore := i, y_byte := b\<rparr>)"
    "outside_tag (x\<lparr>y_total := t, y_ignore := i\<rparr>)" for t i l b
    using o by (simp_all add: outside_tag_def)
  then show ?thesis using o by (simp add: yxml_parse_def Let_def quiet_switch quiet_ok)
qed

text \<open>What is left of the state of the parser once the first child element has begun.\<close>

definition same_head :: "parse_t \<Rightarrow> parse_t \<Rightarrow> bool" where
  "same_head p q \<longleftrightarrow> q = p\<lparr>p_x := p_x q, p_depth := p_depth q, p_current_attr := p_current_attr q\<rparr>"

definition in_content :: "parse_t \<Rightarrow> bool" where
  "in_content p \<longleftrightarrow> 3 \<le> p_depth p \<or> p_depth p = 2 \<and> outside_tag (p_x p)"

lemma same_head_trans: "same_head p q \<Longrightarrow> same_head q r \<Longrightarrow> same_head p r"
  unfolding same_head_def by (cases p; cases q; cases r) simp

lemma token_deep:
  "2 \<le> p_depth p \<Longrightarrow> token_elemstart p = p\<lparr>p_depth := p_depth p + 1\<rparr>" "3 \<le> p_depth p \<Longrightarrow> token_attrval p = p"
  unfolding token_elemstart_def token_attrval_def Let_def by simp_all

lemma content_token:
  assumes "in_content p" and "yxml_parse (p_x p) c = Some (r, x)"
  shows "in_content (parse_token r (p\<lparr>p_x := x\<rparr>)) \<and> same_head p (parse_token r (p\<lparr>p_x := x\<rparr>))"
proof -
  have "p_depth p = 2 \<Longrightarrow> r = YXML_ELEMSTART \<or> r \<noteq> YXML_ATTRVAL \<and> outside_tag x"
    using assms quiet_parse [of "p_x p" c] by (auto simp: in_content_def silent_def)
  then show ?thesis
    using assms(1) by (auto simp: parse_token_def token_deep in_content_def same_head_def)
qed

lemma content_loop: "parse_loop cs p = Some q \<Longrightarrow> in_content p \<Longrightarrow> same_head p q"
proof (induction cs arbitrary: p)
  case Nil
  then show ?case by (simp add: same_head_def)
next
  case (Cons c cs)
  from Cons.prems(1) obtain r x where "yxml_parse (p_x p) c = Some (r, x)" "parse_loop cs (parse_token r (p\<lparr>p_x := x\<rparr>)) = Some q"
    by (auto split: Option.bind_splits)
  then show ?case using content_token [OF Cons.prems(2)] Cons.IH same_head_trans by blast
qed


subsection \<open>Reading tags\<close>

definition tok :: "yxml_state_t \<Rightarrow> string list \<Rightarrow> yxml_t \<Rightarrow> bool" where
  "tok st ns x \<longleftrightarrow> y_state x = st \<and> y_ignore x = 0 \<and> y_stacksize x = 1024 \<and> holds_names (y_stack x) (y_stacklen x) ns \<and>
     \<not> attributing (y_nextstate x)"

definition plain :: "char \<Rightarrow> bool" where
  "plain c \<longleftrightarrow> c \<noteq> NUL \<and> c \<noteq> CHR 0x0A \<and> c \<noteq> CHR 0x0D"

definition tick :: "yxml_t \<Rightarrow> yxml_t" where
  "tick x = x\<lparr>y_total := y_total x + 1, y_ignore := 0, y_byte := y_byte x + 1\<rparr>"

lemma tick_simps [simp]:
  "y_state (tick x) = y_state x" "y_ignore (tick x) = 0" "y_stack (tick x) = y_stack x" "y_stacklen (tick x) = y_stacklen x"
  "y_stacksize (tick x) = y_stacksize x" "y_elem (tick x) = y_elem x" "y_attr (tick x) = y_attr x" "y_quote (tick x) = y_quote x"
  "y_nextstate (tick x) = y_nextstate x" "y_data (tick x) = y_data x"
  by (simp_all add: tick_def)

lemma u32c_eq: "u32c c = u32c d \<longleftrightarrow> c = d"
  by (metis uchar_u32c)

lemma parse_plain: "tok st ns x \<Longrightarrow> plain c \<Longrightarrow> yxml_parse x c = yxml_switch (tick x) (u32c c)"
proof -
  assume t: "tok st ns x" and c: "plain c"
  have "u32c c \<noteq> 0" "u32c c \<noteq> 0xa" "u32c c \<noteq> 0xd"
    using c u32c_eq [of c NUL] u32c_eq [of c "CHR 0x0A"] u32c_eq [of c "CHR 0x0D"] by (simp_all add: plain_def)
  then show ?thesis using t by (simp add: yxml_parse_def tok_def tick_def Let_def)
qed

text \<open>The parser reads \<open>cs\<close> and gets no token of interest.\<close>

definition runs_ok :: "string \<Rightarrow> yxml_t \<Rightarrow> yxml_t \<Rightarrow> bool" where
  "runs_ok cs x x' \<longleftrightarrow> (\<forall>p r. parse_loop (cs @ r) (p\<lparr>p_x := x\<rparr>) = parse_loop r (p\<lparr>p_x := x'\<rparr>))"

lemma runs_ok_nil: "runs_ok [] x x"
  by (simp add: runs_ok_def)

lemma runs_ok_cons: "yxml_parse x c = Some (YXML_OK, y) \<Longrightarrow> runs_ok cs y z \<Longrightarrow> runs_ok (c # cs) x z"
  by (simp add: runs_ok_def parse_token_def)

definition name_text :: "string \<Rightarrow> bool" where
  "name_text n \<longleftrightarrow> n \<noteq> [] \<and> yxml_isNameStart (u32c (hd n)) \<and> list_all (\<lambda>c. yxml_isName (u32c c) \<and> plain c) n"

lemma name_rest:
  assumes "st = YXMLS_elem0 \<or> st = YXMLS_attr0"
  shows "tok st (ns @ [n]) x \<Longrightarrow> list_all (\<lambda>c. yxml_isName (u32c c) \<and> plain c) cs \<Longrightarrow> y_stacklen x + length cs < 1024 \<Longrightarrow>
    \<exists>x'. runs_ok cs x x' \<and> tok st (ns @ [n @ cs]) x' \<and> y_elem x' = y_elem x \<and> y_attr x' = y_attr x \<and>
      y_stacklen x' = y_stacklen x + length cs"
proof (induction cs arbitrary: n x)
  case Nil
  then show ?case using runs_ok_nil by auto
next
  case (Cons c cs)
  let ?y = "(tick x)\<lparr>y_stack := poke (poke (y_stack x) (y_stacklen x) c) (Suc (y_stacklen x)) NUL, y_stacklen := Suc (y_stacklen x)\<rparr>"
  have c: "yxml_isName (u32c c)" "plain c" "c \<noteq> NUL" using Cons.prems by (auto simp: plain_def)
  have "yxml_parse x c = Some (YXML_OK, ?y)"
    using parse_plain [OF Cons.prems(1) c(2)] assms c(1) Cons.prems
    by (auto simp: yxml_switch_def tok_def y_elem0_step_def y_attr0_step_def yxml_elemname_def yxml_attrname_def yxml_pushstackc_def Let_def)
  moreover have "tok st (ns @ [n @ [c]]) ?y"
    using holds_extend [of "y_stack x" "y_stacklen x" ns n c] Cons.prems c by (simp add: tok_def)
  ultimately show ?case
    using Cons.IH [of "n @ [c]" ?y] Cons.prems runs_ok_cons [of x c ?y cs] by fastforce
qed


lemma name_start_char: "yxml_isNameStart (u32c c) \<Longrightarrow> c \<noteq> CHR ''!'' \<and> c \<noteq> CHR ''?'' \<and> c \<noteq> CHR ''/'' \<and> c \<noteq> CHR ''>'' \<and> \<not> yxml_isSP (u32c c)"
proof -
  assume n: "yxml_isNameStart (u32c c)"
  have "\<not> yxml_isNameStart (u32c d)" if "d \<in> {CHR ''!'', CHR ''?'', CHR ''/'', CHR ''>'', CHR '' '', CHR 0x09, CHR 0x0A}" for d
    using that by (auto simp: yxml_isNameStart_def yxml_isAlpha_def)
  moreover have "yxml_isSP (u32c c) \<Longrightarrow> c \<in> {CHR '' '', CHR 0x09, CHR 0x0A}"
    using u32c_eq [of c "CHR '' ''"] u32c_eq [of c "CHR 0x09"] u32c_eq [of c "CHR 0x0A"] by (auto simp: yxml_isSP_def)
  ultimately show ?thesis using n by blast
qed

lemma first_char:
  assumes t: "tok st ns x" and st: "st = YXMLS_le0 \<or> st = YXMLS_le2 \<or> st = YXMLS_elem1" and len: "y_stacklen x + 2 < 1024"
    and c: "yxml_isNameStart (u32c c)" "plain c"
  shows "\<exists>y. yxml_parse x c = Some (YXML_OK, y) \<and> tok (if st = YXMLS_elem1 then YXMLS_attr0 else YXMLS_elem0) (ns @ [[c]]) y \<and>
    y_elem y = (if st = YXMLS_elem1 then y_elem x else Suc (y_stacklen x)) \<and>
    (st = YXMLS_elem1 \<longrightarrow> y_attr y = Suc (y_stacklen x)) \<and> y_stacklen y = y_stacklen x + 2"
proof -
  note ne = name_start_char [OF c(1)]
  have u: "u32c c \<noteq> u32c CHR ''!''" "u32c c \<noteq> u32c CHR ''?''" "u32c c \<noteq> u32c CHR ''/''" "u32c c \<noteq> u32c CHR ''>''" "\<not> yxml_isSP (u32c c)"
    using ne by (simp_all only: u32c_eq) simp_all
  let ?s = "poke (poke (y_stack x) (Suc (y_stacklen x)) c) (Suc (Suc (y_stacklen x))) NUL"
  have h: "holds_names ?s (Suc (Suc (y_stacklen x))) (ns @ [[c]])"
    using holds_push [of "y_stack x" "y_stacklen x" ns c] t len c(2) by (simp add: tok_def plain_def)
  have p: "yxml_pushstack ((tick x)\<lparr>y_state := s\<rparr>) (u32c c) =
      (YXML_OK, Some (Suc (y_stacklen x)), (tick x)\<lparr>y_state := s, y_stack := ?s, y_stacklen := Suc (Suc (y_stacklen x))\<rparr>)" for s
    using t len by (simp add: yxml_pushstack_def tok_def Let_def)
  have st': "y_state (tick x) = st" using t by (simp add: tok_def)
  show ?thesis
    unfolding parse_plain [OF t c(2)] using st h c(1) u t p
    by (auto simp: yxml_switch_def st' y_le0_step_def y_le2_step_def y_elem1_step_def yxml_elemstart_def yxml_attrstart_def tok_def)
qed

lemma name_read:
  assumes t: "tok st ns x" and st: "st = YXMLS_le0 \<or> st = YXMLS_le2 \<or> st = YXMLS_elem1" and n: "name_text n"
    and len: "y_stacklen x + Suc (length n) < 1024"
  shows "\<exists>y. runs_ok n x y \<and> tok (if st = YXMLS_elem1 then YXMLS_attr0 else YXMLS_elem0) (ns @ [n]) y \<and>
    y_elem y = (if st = YXMLS_elem1 then y_elem x else Suc (y_stacklen x)) \<and>
    (st = YXMLS_elem1 \<longrightarrow> y_attr y = Suc (y_stacklen x)) \<and> y_stacklen y = y_stacklen x + Suc (length n)"
proof -
  obtain c cs where c: "n = c # cs" using n by (cases n) (auto simp: name_text_def)
  let ?st = "if st = YXMLS_elem1 then YXMLS_attr0 else YXMLS_elem0"
  have cc: "yxml_isNameStart (u32c c)" "plain c" and cs: "list_all (\<lambda>c. yxml_isName (u32c c) \<and> plain c) cs"
    using n by (simp_all add: name_text_def c)
  have "length n = Suc (length cs)" by (simp add: c)
  obtain y where y: "yxml_parse x c = Some (YXML_OK, y)" "tok ?st (ns @ [[c]]) y"
    "y_elem y = (if st = YXMLS_elem1 then y_elem x else Suc (y_stacklen x))" "st = YXMLS_elem1 \<longrightarrow> y_attr y = Suc (y_stacklen x)"
    "y_stacklen y = y_stacklen x + 2"
    using first_char [OF t st _ cc] len \<open>length n = _\<close> by auto
  have st2: "?st = YXMLS_elem0 \<or> ?st = YXMLS_attr0" by simp
  obtain z where z: "runs_ok cs y z" "tok ?st (ns @ [[c] @ cs]) z" "y_elem z = y_elem y" "y_attr z = y_attr y"
    "y_stacklen z = y_stacklen y + length cs"
    using name_rest [OF st2 y(2) cs] y(5) len \<open>length n = _\<close> by auto
  then show ?thesis using runs_ok_cons [OF y(1) z(1)] y by (intro exI [of _ z]) (auto simp: c)
qed

lemma top_name: "holds_names s k (ns @ [n]) \<Longrightarrow> cstr (drop (k - length n) s) = n"
proof -
  assume h: "holds_names s k (ns @ [n])"
  then have t: "take (Suc k) s = layout ns @ n @ [NUL]" and n: "NUL \<notin> set n" by (simp_all add: holds_names_def layout_snoc name_ok_def)
  have k: "k - length n = length (layout ns)" using holds_length [OF h] by (simp add: layout_snoc)
  have "s = layout ns @ n @ NUL # drop (Suc k) s" using append_take_drop_id [of "Suc k" s] t by simp
  then have "drop (k - length n) s = n @ NUL # drop (Suc k) s" unfolding k by (metis append_eq_conv_conj)
  then show ?thesis using n by (simp add: cstr_NUL_free)
qed

lemma elem_is_top: "tok st (ns @ [n]) x \<Longrightarrow> y_elem x = y_stacklen x - length n \<Longrightarrow> strcmp (drop (y_elem x) (y_stack x)) m = 0 \<longleftrightarrow> n = cstr m"
  using top_name [of "y_stack x" "y_stacklen x" ns n] by (simp add: tok_def strcmp_eq_0)

text \<open>The end of the name of an element, by a space or by the closing bracket.\<close>

lemma name_end:
  assumes "tok YXMLS_elem0 ns x" and "c = CHR '' '' \<or> c = CHR ''>''"
  shows "parse_loop (c # r) (p\<lparr>p_x := x\<rparr>) =
    parse_loop r (token_elemstart (p\<lparr>p_x := (tick x)\<lparr>y_state := if c = CHR ''>'' then YXMLS_misc2 else YXMLS_elem1\<rparr>\<rparr>))"
proof -
  have c: "plain c" using assms(2) by (auto simp: plain_def)
  have n: "\<not> yxml_isName (u32c c)" "yxml_isSP (u32c c) \<longleftrightarrow> c \<noteq> CHR ''>''" "u32c c = u32c CHR ''>'' \<longleftrightarrow> c = CHR ''>''" "u32c c \<noteq> u32c CHR ''/''"
    using assms(2) by (auto simp: yxml_class_defs)
  show ?thesis
    using assms(1) n by (simp add: parse_plain [OF assms(1) c] yxml_switch_def tok_def y_elem0_step_def yxml_elemnameend_def parse_token_def)
qed

text \<open>The equals sign and the opening quote.\<close>

lemma attr_begin:
  assumes "tok YXMLS_attr0 ns x"
  shows "parse_loop (CHR ''='' # APOS # r) (p\<lparr>p_x := x\<rparr>) =
    parse_loop r (p\<lparr>p_current_attr := strncpy_term (p_current_attr p) (drop (y_attr x) (y_stack x)) 63,
      p_x := (tick (tick x))\<lparr>y_state := YXMLS_attr3, y_quote := u32c APOS\<rparr>\<rparr>)"
proof -
  have e: "plain CHR ''=''" "plain APOS" by (simp_all add: plain_def)
  have "\<not> yxml_isName (u32c CHR ''='')" "\<not> yxml_isSP (u32c CHR ''='')" by (simp_all add: yxml_class_defs)
  then have 1: "yxml_parse x CHR ''='' = Some (YXML_ATTRSTART, (tick x)\<lparr>y_state := YXMLS_attr2\<rparr>)"
    using assms unfolding parse_plain [OF assms e(1)] by (simp add: yxml_switch_def tok_def y_attr0_step_def yxml_attrnameend_def)
  have t: "tok YXMLS_attr2 ns ((tick x)\<lparr>y_state := YXMLS_attr2\<rparr>)" using assms by (simp add: tok_def)
  have "\<not> yxml_isSP (u32c APOS)" by (simp add: yxml_class_defs)
  then have 2: "yxml_parse ((tick x)\<lparr>y_state := YXMLS_attr2\<rparr>) APOS = Some (YXML_OK, (tick (tick x))\<lparr>y_state := YXMLS_attr3, y_quote := u32c APOS\<rparr>)"
    using t unfolding parse_plain [OF t e(2)] by (simp add: yxml_switch_def y_attr2_step_def) (simp add: tick_def)
  show ?thesis using 1 2 by (simp add: parse_token_def)
qed

text \<open>A byte of the value, and the closing quote.\<close>

definition value_char :: "char \<Rightarrow> bool" where
  "value_char c \<longleftrightarrow> plain c \<and> c \<noteq> APOS \<and> c \<noteq> CHR ''<'' \<and> c \<noteq> CHR ''&'' \<and> c \<noteq> CHR 0x09"

lemma value_byte:
  assumes t: "tok YXMLS_attr3 ns x" and q: "y_quote x = u32c APOS" and c: "value_char c"
  shows "yxml_parse x c = Some (YXML_ATTRVAL, (tick x)\<lparr>y_data := poke (poke (y_data x) 0 c) 1 NUL\<rparr>)"
proof -
  have p: "plain c" using c by (simp add: value_char_def)
  have "u32c c \<noteq> u32c APOS" "u32c c \<noteq> u32c CHR ''<''" "u32c c \<noteq> u32c CHR ''&''" "u32c c \<noteq> u32c (CHR 0x09)" "u32c c \<noteq> u32c (CHR 0x0A)"
    using c by (simp_all only: u32c_eq value_char_def plain_def) simp_all
  then show ?thesis
    using t q unfolding parse_plain [OF t p]
    by (simp add: yxml_switch_def tok_def y_attr3_step_def yxml_isAttValue_def yxml_isChar_def yxml_dataattr_def)
qed

lemma value_end:
  assumes t: "tok YXMLS_attr3 (ns @ [a]) x" and q: "y_quote x = u32c APOS"
  shows "\<exists>y. runs_ok [APOS] x y \<and> tok YXMLS_elem2 ns y \<and> y_elem y = y_elem x \<and> y_stacklen y = y_stacklen x - Suc (length a)"
proof -
  obtain k where k: "pop_len (y_stack x) (y_stacklen x) = Some k" "holds_names (y_stack x) k ns"
    using holds_pop [of "y_stack x" "y_stacklen x" ns a] t by (auto simp: tok_def)
  have l: "k = y_stacklen x - Suc (length a)"
    using holds_length [OF k(2)] holds_length [of "y_stack x" "y_stacklen x" "ns @ [a]"] t by (simp add: tok_def layout_snoc)
  have "plain APOS" by (simp add: plain_def)
  then have "yxml_parse x APOS = Some (YXML_ATTREND, (tick x)\<lparr>y_state := YXMLS_elem2, y_stacklen := k\<rparr>)"
    using t q k(1) by (simp add: parse_plain [OF t] yxml_switch_def y_attr3_step_def yxml_isAttValue_def yxml_attrvalend_def
        yxml_popstack_def tok_def)
  then show ?thesis using t k(2) l by (intro exI [of _ "(tick x)\<lparr>y_state := YXMLS_elem2, y_stacklen := k\<rparr>"]) (simp add: runs_ok_def parse_token_def tok_def)
qed

lemma parse_t_swap:
  "p\<lparr>p_x := y, p_s := s\<rparr> = p\<lparr>p_s := s, p_x := y\<rparr>" "p\<lparr>p_x := y, p_current_attr := a\<rparr> = p\<lparr>p_current_attr := a, p_x := y\<rparr>"
  "p\<lparr>p_current_attr := a, p_s := s, p_x := y\<rparr> = p\<lparr>p_s := s, p_current_attr := a, p_x := y\<rparr>"
  by (cases p; simp)+

subsection \<open>Attributes of the stanza element\<close>

text \<open>A field of the stanza that is filled from an attribute of the outer element.\<close>

locale stanza_field =
  fixes name :: string and get :: "xmpp_stanza_t \<Rightarrow> cbuf" and put :: "cbuf \<Rightarrow> xmpp_stanza_t \<Rightarrow> xmpp_stanza_t"
  assumes get_put: "get (put b s) = b" and put_put: "put b (put c s) = put b s" and put_get: "put (get s) s = s"
    and name_short: "name_text name" "length name < 64"
    and token: "p_depth p = 1 \<Longrightarrow> cstr (p_current_attr p) = name \<Longrightarrow>
      token_attrval p = p\<lparr>p_s := put (cat_data 64 (p_x p) (get (p_s p))) (p_s p)\<rparr>"
begin

lemma value_read:
  assumes "list_all value_char v" and "tok YXMLS_attr3 ns x" and "y_quote x = u32c APOS" and "p_depth p = 1"
    and "cstr (p_current_attr p) = name" and "buf 64 (get (p_s p))" and "length (cstr (get (p_s p))) + length v < 64"
  shows "\<exists>y b. parse_loop (v @ r) (p\<lparr>p_x := x\<rparr>) = parse_loop r (p\<lparr>p_s := put b (p_s p), p_x := y\<rparr>) \<and>
    tok YXMLS_attr3 ns y \<and> y_quote y = u32c APOS \<and> y_elem y = y_elem x \<and> y_stacklen y = y_stacklen x \<and>
    buf 64 b \<and> cstr b = cstr (get (p_s p)) @ v"
  using assms
proof (induction v arbitrary: p x)
  case Nil
  then show ?case by (intro exI [of _ x] exI [of _ "get (p_s p)"]) (simp add: put_get)
next
  case (Cons c v)
  define y where "y = (tick x)\<lparr>y_data := poke (poke (y_data x) 0 c) 1 NUL\<rparr>"
  define b where "b = cat_data 64 y (get (p_s p))"
  have c: "value_char c" "c \<noteq> NUL" using Cons.prems(1) by (auto simp: value_char_def plain_def)
  have "yxml_parse x c = Some (YXML_ATTRVAL, y)" unfolding y_def by (rule value_byte [OF Cons.prems(2,3) c(1)])
  then have 1: "parse_loop ((c # v) @ r) (p\<lparr>p_x := x\<rparr>) = parse_loop (v @ r) ((p\<lparr>p_s := put b (p_s p)\<rparr>)\<lparr>p_x := y\<rparr>)"
    using token [of "p\<lparr>p_x := y\<rparr>"] Cons.prems(4,5) by (simp add: parse_token_def b_def parse_t_swap)
  have "cstr (y_data y) = [c]" using c(2) by (simp add: y_def poke_def)
  then have cb: "cstr b = cstr (get (p_s p)) @ [c]" using Cons.prems(7) by (simp add: b_def cat_data_def cstr_strncat strlen_eq)
  have bb: "buf 64 b" unfolding b_def by (rule buf_cat_data [OF Cons.prems(6)])
  have t: "tok YXMLS_attr3 ns y" "y_quote y = u32c APOS" "y_elem y = y_elem x" "y_stacklen y = y_stacklen x"
    using Cons.prems(2,3) by (simp_all add: y_def tok_def)
  show ?case
    unfolding 1 using Cons.IH [of y "p\<lparr>p_s := put b (p_s p)\<rparr>"] t Cons.prems cb bb by (simp add: get_put put_put)
qed

lemma attr_read:
  assumes v: "list_all value_char v" and t: "tok YXMLS_elem1 ns x" and len: "y_stacklen x + Suc (length name) < 1024"
    and d: "p_depth p = 1" "buf 64 (p_current_attr p)" and g: "buf 64 (get (p_s p))" "cstr (get (p_s p)) = []" "length v < 64"
  shows "\<exists>y b a. parse_loop (name @ CHR ''='' # APOS # v @ APOS # r) (p\<lparr>p_x := x\<rparr>) =
      parse_loop r (p\<lparr>p_s := put b (p_s p), p_current_attr := a, p_x := y\<rparr>) \<and>
    tok YXMLS_elem2 ns y \<and> y_elem y = y_elem x \<and> y_stacklen y = y_stacklen x \<and> buf 64 a \<and> buf 64 b \<and> cstr b = v"
proof -
  obtain x1 where x1: "runs_ok name x x1" "tok YXMLS_attr0 (ns @ [name]) x1" "y_elem x1 = y_elem x" "y_attr x1 = Suc (y_stacklen x)"
    "y_stacklen x1 = y_stacklen x + Suc (length name)"
    using name_read [OF t _ name_short(1) len] by auto
  define x2 where "x2 = (tick (tick x1))\<lparr>y_state := YXMLS_attr3, y_quote := u32c APOS\<rparr>"
  define a where "a = strncpy_term (p_current_attr p) (drop (y_attr x1) (y_stack x1)) 63"
  have a: "cstr a = name" "buf 64 a"
  proof -
    have "cstr (drop (y_attr x1) (y_stack x1)) = name"
      using top_name [of "y_stack x1" "y_stacklen x1" ns name] x1 by (simp add: tok_def)
    then show "cstr a = name" "buf 64 a" using d(2) name_short(2)
      by (simp_all add: a_def buf_strncpy_term buf_length cstr_strncpy_term)
  qed
  have x2: "tok YXMLS_attr3 (ns @ [name]) x2" "y_quote x2 = u32c APOS" "y_elem x2 = y_elem x" "y_stacklen x2 = y_stacklen x1"
    using x1 by (simp_all add: x2_def tok_def)
  let ?q = "p\<lparr>p_current_attr := a\<rparr>"
  obtain x3 b where x3: "parse_loop (v @ APOS # r) (?q\<lparr>p_x := x2\<rparr>) = parse_loop (APOS # r) (?q\<lparr>p_s := put b (p_s p), p_x := x3\<rparr>)"
    "tok YXMLS_attr3 (ns @ [name]) x3" "y_quote x3 = u32c APOS" "y_elem x3 = y_elem x2" "y_stacklen x3 = y_stacklen x2" "buf 64 b" "cstr b = v"
    using value_read [OF v x2(1,2), of ?q "APOS # r"] a g d(1) by auto
  obtain y where y: "runs_ok [APOS] x3 y" "tok YXMLS_elem2 ns y" "y_elem y = y_elem x3" "y_stacklen y = y_stacklen x3 - Suc (length name)"
    using value_end [OF x3(2,3)] by blast
  have "parse_loop (name @ CHR ''='' # APOS # v @ APOS # r) (p\<lparr>p_x := x\<rparr>) = parse_loop (CHR ''='' # APOS # v @ APOS # r) (p\<lparr>p_x := x1\<rparr>)"
    using x1(1) by (simp only: runs_ok_def)
  also have "\<dots> = parse_loop (v @ APOS # r) (?q\<lparr>p_x := x2\<rparr>)"
    unfolding attr_begin [OF x1(2)] a_def x2_def by simp
  also have "\<dots> = parse_loop ([APOS] @ r) (?q\<lparr>p_s := put b (p_s p), p_x := x3\<rparr>)" unfolding x3(1) by simp
  also have "\<dots> = parse_loop r (?q\<lparr>p_s := put b (p_s p), p_x := y\<rparr>)" using y(1) by (simp only: runs_ok_def)
  finally show ?thesis
    using y x3 x2 x1 a by (intro exI [of _ y] exI [of _ b] exI [of _ a]) (simp add: parse_t_swap)
qed

end

interpretation to_field: stanza_field "''to''" st_to "\<lambda>b s. s\<lparr>st_to := b\<rparr>"
  by unfold_locales (simp_all add: name_text_def yxml_class_defs plain_def token_attrval_def strcmp_eq_0 Let_def)

interpretation id_field: stanza_field "''id''" st_id "\<lambda>b s. s\<lparr>st_id := b\<rparr>"
  by unfold_locales (simp_all add: name_text_def yxml_class_defs plain_def token_attrval_def strcmp_eq_0 Let_def)

interpretation from_field: stanza_field "''from''" st_from "\<lambda>b s. s\<lparr>st_from := b\<rparr>"
  by unfold_locales (simp_all add: name_text_def yxml_class_defs plain_def token_attrval_def strcmp_eq_0 Let_def)


subsection \<open>The head of a message\<close>

lemma punctuation:
  "tok YXMLS_init ns x \<Longrightarrow> runs_ok ''<'' x ((tick x)\<lparr>y_state := YXMLS_le0\<rparr>)"
  "tok YXMLS_misc2 ns x \<Longrightarrow> runs_ok ''<'' x ((tick x)\<lparr>y_state := YXMLS_le2\<rparr>)"
  "tok YXMLS_elem2 ns x \<Longrightarrow> runs_ok '' '' x ((tick x)\<lparr>y_state := YXMLS_elem1\<rparr>)"
  "tok YXMLS_elem2 ns x \<Longrightarrow> runs_ok ''>'' x ((tick x)\<lparr>y_state := YXMLS_misc2\<rparr>)"
proof -
  have p: "plain CHR ''<''" "plain CHR '' ''" "plain CHR ''>''" by (simp_all add: plain_def)
  note step = runs_ok_cons [OF _ runs_ok_nil]
  show "tok YXMLS_init ns x \<Longrightarrow> runs_ok ''<'' x ((tick x)\<lparr>y_state := YXMLS_le0\<rparr>)"
    "tok YXMLS_misc2 ns x \<Longrightarrow> runs_ok ''<'' x ((tick x)\<lparr>y_state := YXMLS_le2\<rparr>)"
    by (rule step, simp add: parse_plain [OF _ p(1)], simp add: yxml_switch_def tok_def y_init_step_def y_misc2_step_def yxml_isSP_def)+
  show "tok YXMLS_elem2 ns x \<Longrightarrow> runs_ok '' '' x ((tick x)\<lparr>y_state := YXMLS_elem1\<rparr>)"
    by (rule step, simp add: parse_plain [OF _ p(2)], simp add: yxml_switch_def tok_def y_elem2_step_def yxml_isSP_def)
  show "tok YXMLS_elem2 ns x \<Longrightarrow> runs_ok ''>'' x ((tick x)\<lparr>y_state := YXMLS_misc2\<rparr>)"
    by (rule step, simp add: parse_plain [OF _ p(3)], simp add: yxml_switch_def tok_def y_elem2_step_def yxml_isSP_def)
qed

lemma tok_state: "tok st ns x \<Longrightarrow> tok st' ns ((tick x)\<lparr>y_state := st'\<rparr>)"
  by (simp add: tok_def)

lemma runs_ok_parse: "runs_ok cs x y \<Longrightarrow> parse_loop (cs @ r) (p\<lparr>p_x := x\<rparr>) = parse_loop r (p\<lparr>p_x := y\<rparr>)"
  by (simp add: runs_ok_def)

lemma init_tok: "length stack = 1024 \<Longrightarrow> tok YXMLS_init [] (yxml_init stack 1024)"
  by (simp add: tok_def yxml_init_def holds_names_def poke_def attributing_def)

lemma token_message:
  assumes "p_depth p = 0" and "strcmp (drop (y_elem (p_x p)) (y_stack (p_x p))) ''message'' = 0"
  shows "token_elemstart p = p\<lparr>p_depth := 1, p_s := set_xmlns ''jabber:client'' ((p_s p)\<lparr>st_type := XMPP_MESSAGE\<rparr>)\<rparr>"
  using assms unfolding token_elemstart_def Let_def by (simp del: strcpy.simps)

lemma token_body:
  assumes "p_depth p = 1" and "cstr (drop (y_elem (p_x p)) (y_stack (p_x p))) = ''body''"
  shows "token_elemstart p = p\<lparr>p_depth := 2\<rparr>"
  using assms unfolding token_elemstart_def Let_def strcmp_eq_0 by (simp del: strcpy.simps)

lemma name_texts: "name_text ''message''" "name_text ''body''"
  by (simp_all add: name_text_def yxml_class_defs plain_def)

definition message_tag :: "string \<Rightarrow> string \<Rightarrow> string" where
  "message_tag dest mid = ''message to='' @ APOS # dest @ APOS # '' id='' @ APOS # mid @ [APOS]"

lemma message_open:
  assumes "length stack = 1024"
  shows "\<exists>x. parse_loop (''<message '' @ r) (parse_start (yxml_init stack 1024) s) =
    parse_loop r ((parse_start x (set_xmlns ''jabber:client'' (s\<lparr>st_type := XMPP_MESSAGE\<rparr>)))\<lparr>p_depth := 1\<rparr>) \<and>
    tok YXMLS_elem1 [''message''] x \<and> y_stacklen x = 8"
  supply parse_loop.simps [simp del] strcpy.simps [simp del]
proof -
  let ?x0 = "yxml_init stack 1024" and ?p = "parse_start (yxml_init stack 1024) s"
  let ?x1 = "(tick ?x0)\<lparr>y_state := YXMLS_le0\<rparr>"
  have t0: "tok YXMLS_init [] ?x0" by (rule init_tok [OF assms])
  have l: "y_stacklen ?x1 = 0" by (simp add: yxml_init_def)
  obtain x2 where x2: "runs_ok ''message'' ?x1 x2" "tok YXMLS_elem0 [''message''] x2" "y_elem x2 = 1" "y_stacklen x2 = 8"
    using name_read [OF tok_state [OF t0, of YXMLS_le0] _ name_texts(1)] l by auto
  let ?x3 = "(tick x2)\<lparr>y_state := YXMLS_elem1\<rparr>"
  have "parse_loop (''<message '' @ r) ?p = parse_loop (''message'' @ '' '' @ r) (?p\<lparr>p_x := ?x1\<rparr>)"
    using runs_ok_parse [OF punctuation(1) [OF t0], of "''message '' @ r" ?p] by (simp add: parse_start_def)
  also have "\<dots> = parse_loop (CHR '' '' # r) (?p\<lparr>p_x := x2\<rparr>)" using runs_ok_parse [OF x2(1)] by simp
  also have "\<dots> = parse_loop r (token_elemstart (?p\<lparr>p_x := ?x3\<rparr>))" using name_end [OF x2(2), of "CHR '' ''" r ?p] by simp
  also have "token_elemstart (?p\<lparr>p_x := ?x3\<rparr>) = (parse_start ?x3 (set_xmlns ''jabber:client'' (s\<lparr>st_type := XMPP_MESSAGE\<rparr>)))\<lparr>p_depth := 1\<rparr>"
  proof -
    have "tok YXMLS_elem1 ([] @ [''message'']) ?x3" using tok_state [OF x2(2), of YXMLS_elem1] by simp
    from elem_is_top [OF this, of "''message''"]
    have "strcmp (drop (y_elem ?x3) (y_stack ?x3)) ''message'' = 0" using x2(3,4) by simp
    then show ?thesis using token_message [of "?p\<lparr>p_x := ?x3\<rparr>"] by (simp add: parse_start_def)
  qed
  finally show ?thesis using x2 tok_state [OF x2(2), of YXMLS_elem1] by (intro exI [of _ ?x3]) simp
qed

text \<open>The start tag of the first child.\<close>

lemma body_open:
  assumes t: "tok YXMLS_misc2 ns x" and "p_depth p = 1" and "y_stacklen x + 5 < 1024"
  shows "\<exists>y. parse_loop (''<body>'' @ r) (p\<lparr>p_x := x\<rparr>) = parse_loop r (p\<lparr>p_depth := 2, p_x := y\<rparr>) \<and> outside_tag y"
  supply parse_loop.simps [simp del]
proof -
  let ?x1 = "(tick x)\<lparr>y_state := YXMLS_le2\<rparr>"
  obtain x2 where x2: "runs_ok ''body'' ?x1 x2" "tok YXMLS_elem0 (ns @ [''body'']) x2" "y_elem x2 = Suc (y_stacklen x)" "y_stacklen x2 = y_stacklen x + 5"
    using name_read [OF tok_state [OF t, of YXMLS_le2] _ name_texts(2)] assms(3) by auto
  let ?y = "(tick x2)\<lparr>y_state := YXMLS_misc2\<rparr>"
  have y: "tok YXMLS_misc2 (ns @ [''body'']) ?y" by (rule tok_state [OF x2(2)])
  have c: "cstr (drop (y_elem ?y) (y_stack ?y)) = ''body''"
    using top_name [of "y_stack x2" "y_stacklen x2" ns "''body''"] x2 by (simp add: tok_def)
  have "parse_loop (''<body>'' @ r) (p\<lparr>p_x := x\<rparr>) = parse_loop (''body'' @ ''>'' @ r) (p\<lparr>p_x := ?x1\<rparr>)"
    using runs_ok_parse [OF punctuation(2) [OF t], of "''body>'' @ r" p] by simp
  also have "\<dots> = parse_loop (CHR ''>'' # r) (p\<lparr>p_x := x2\<rparr>)" using runs_ok_parse [OF x2(1)] by simp
  also have "\<dots> = parse_loop r (token_elemstart (p\<lparr>p_x := ?y\<rparr>))" using name_end [OF x2(2), of "CHR ''>''" r p] by simp
  also have "token_elemstart (p\<lparr>p_x := ?y\<rparr>) = p\<lparr>p_depth := 2, p_x := ?y\<rparr>"
    using token_body [of "p\<lparr>p_x := ?y\<rparr>"] assms(2) c by (cases p) simp
  finally show ?thesis using y by (intro exI [of _ ?y]) (simp add: tok_def outside_tag_def attributing_def)
qed

lemma message_head:
  assumes stack: "length stack = 1024" and s: "buf 64 (st_to s)" "cstr (st_to s) = []" "buf 64 (st_id s)" "cstr (st_id s) = []"
    and v: "list_all value_char dest" "length dest < 64" "list_all value_char mid" "length mid < 64"
  shows "\<exists>q b c. parse_loop (CHR ''<'' # message_tag dest mid @ ''><body>'' @ r) (parse_start (yxml_init stack 1024) s) = parse_loop r q \<and>
    in_content q \<and> \<not> p_is_iq q \<and> \<not> p_is_pres q \<and> cstr b = dest \<and> cstr c = mid \<and>
    p_s q = (set_xmlns ''jabber:client'' (s\<lparr>st_type := XMPP_MESSAGE\<rparr>))\<lparr>st_to := b, st_id := c\<rparr>"
  supply parse_loop.simps [simp del] strcpy.simps [simp del]
proof -
  define s1 where "s1 = set_xmlns ''jabber:client'' (s\<lparr>st_type := XMPP_MESSAGE\<rparr>)"
  let ?id = "''id='' @ APOS # mid @ APOS # ''><body>'' @ r"
  obtain x1 where x1: "parse_loop (''<message '' @ ''to='' @ APOS # dest @ APOS # CHR '' '' # ?id) (parse_start (yxml_init stack 1024) s) =
      parse_loop (''to='' @ APOS # dest @ APOS # CHR '' '' # ?id) ((parse_start x1 s1)\<lparr>p_depth := 1\<rparr>)"
    "tok YXMLS_elem1 [''message''] x1" "y_stacklen x1 = 8"
    using message_open [OF stack] unfolding s1_def by blast
  let ?p = "(parse_start x1 s1)\<lparr>p_depth := 1\<rparr>"
  have p: "p_depth ?p = 1" "buf 64 (p_current_attr ?p)" "?p = ?p\<lparr>p_x := x1\<rparr>" "p_s ?p = s1" by (simp_all add: parse_start_def buf_zbuf)
  obtain x2 b a where x2: "parse_loop (''to='' @ APOS # dest @ APOS # CHR '' '' # ?id) ?p =
      parse_loop (CHR '' '' # ?id) (?p\<lparr>p_s := s1\<lparr>st_to := b\<rparr>, p_current_attr := a, p_x := x2\<rparr>)"
    "tok YXMLS_elem2 [''message''] x2" "y_stacklen x2 = 8" "buf 64 a" "buf 64 b" "cstr b = dest"
    using to_field.attr_read [OF v(1) x1(2), of ?p "CHR '' '' # ?id"] p s(1,2) v(2) x1(3) by (simp add: s1_def) metis
  let ?q = "?p\<lparr>p_s := s1\<lparr>st_to := b\<rparr>, p_current_attr := a\<rparr>" and ?x3 = "(tick x2)\<lparr>y_state := YXMLS_elem1\<rparr>"
  have x3: "parse_loop (CHR '' '' # ?id) (?q\<lparr>p_x := x2\<rparr>) = parse_loop ?id (?q\<lparr>p_x := ?x3\<rparr>)"
    using runs_ok_parse [OF punctuation(3) [OF x2(2)], of ?id ?q] by simp
  obtain x4 c a' where x4: "parse_loop ?id (?q\<lparr>p_x := ?x3\<rparr>) =
      parse_loop (''><body>'' @ r) (?q\<lparr>p_s := s1\<lparr>st_to := b, st_id := c\<rparr>, p_current_attr := a', p_x := x4\<rparr>)"
    "tok YXMLS_elem2 [''message''] x4" "y_stacklen x4 = 8" "cstr c = mid"
    using id_field.attr_read [OF v(3) tok_state [OF x2(2), of YXMLS_elem1], of ?q "''><body>'' @ r"] s(3,4) v(4) x2 p by (simp add: s1_def) metis
  let ?t = "?q\<lparr>p_s := s1\<lparr>st_to := b, st_id := c\<rparr>, p_current_attr := a'\<rparr>" and ?x5 = "(tick x4)\<lparr>y_state := YXMLS_misc2\<rparr>"
  have x5: "parse_loop (''><body>'' @ r) (?t\<lparr>p_x := x4\<rparr>) = parse_loop (''<body>'' @ r) (?t\<lparr>p_x := ?x5\<rparr>)"
    using runs_ok_parse [OF punctuation(4) [OF x4(2)], of "''<body>'' @ r" ?t] by simp
  obtain y where y: "parse_loop (''<body>'' @ r) (?t\<lparr>p_x := ?x5\<rparr>) = parse_loop r (?t\<lparr>p_depth := 2, p_x := y\<rparr>)" "outside_tag y"
    using body_open [OF tok_state [OF x4(2), of YXMLS_misc2], of ?t r] x4(3) by auto
  have "parse_loop (CHR ''<'' # message_tag dest mid @ ''><body>'' @ r) (parse_start (yxml_init stack 1024) s) =
      parse_loop r (?t\<lparr>p_depth := 2, p_x := y\<rparr>)"
    using x1(1) x2(1) x3 x4(1) x5 y(1) by (simp add: message_tag_def)
  then show ?thesis
    using y(2) x2(6) x4(4) by (intro exI [of _ "?t\<lparr>p_depth := 2, p_x := y\<rparr>"] exI [of _ b] exI [of _ c]) (simp add: in_content_def s1_def parse_start_def)
qed


subsection \<open>The payload\<close>

lemma element_end:
  assumes "xml_ok e" and "is_element e" and "NUL \<notin> set (print_xml e @ rest)"
  shows "find_stanza_end_dispatch h (print_xml e @ rest) = int (length (print_xml e))"
  using scan_element [OF assms(1,2), of rest 0] scan_sse_eq [OF assms(3), of 0 0]
  by (simp add: find_stanza_end_dispatch_def find_stanza_end_sse_def find_stanza_end_scalar_def)

lemma no_straddle:
  assumes "prefix c (v @ r)" and "v \<noteq> []" and "last v \<notin> set (butlast c)"
  shows "prefix c v"
proof -
  consider "prefix c v" | us where "c = v @ us" "us \<noteq> []"
    using assms(1) by (metis append.right_neutral prefix_append prefix_order.refl)
  then show ?thesis
  proof cases
    case 2
    then have "set v \<subseteq> set (butlast c)" by (auto simp: butlast_append)
    then show ?thesis using assms(2,3) by (meson last_in_set subsetD)
  qed
qed

lemma strstr_behind:
  assumes "NUL \<notin> set u" "NUL \<notin> set c" "u \<noteq> []" "last u \<notin> set (butlast c)" "\<not> sublist c u"
  shows "strstr (u @ c @ NUL # r) c = Some (length u)"
proof -
  have c: "cstr (u @ c @ NUL # r) = u @ c" "cstr c = c"
    using assms(1,2) by (simp_all add: cstr_append cstr_NUL_free)
  have "\<not> prefix c (drop j u @ c)" if "j < length u" for j
  proof
    assume "prefix c (drop j u @ c)"
    then have "prefix c (drop j u)" using no_straddle [of c "drop j u" c] that assms(4) by simp
    then show False using assms(5) by (auto simp: sublist_drop_prefix)
  qed
  then show ?thesis using c by (simp add: strstr_Some)
qed

lemma payload_cut:
  assumes t: "CHR ''>'' \<notin> set tag" "NUL \<notin> set tag" "tag = n @ CHR '' '' # tag'" "last tag \<noteq> CHR ''/''" 
    and n: "CHR '' '' \<notin> set n" "length n < 32" "NUL \<notin> set u"  "u \<noteq> []" "last u = CHR ''>''" "\<not> sublist (''</'' @ n @ ''>'') u"
    and l: "length u < 4096" "buf 4096 (st_payload s)" "length tag + 2 < k"
  defines "c \<equiv> ''</'' @ n @ ''>''"
  shows "\<exists>b. cstr b = u \<and> set_payload (CHR ''<'' # tag @ CHR ''>'' # u @ c @ NUL # r) k s = s\<lparr>st_payload := b\<rparr>"
proof -
  let ?t = "CHR ''<'' # tag @ CHR ''>'' # u @ c @ NUL # r"
  have "tag \<noteq> []" using t(3) by simp
  have ct: "cstr ?t = CHR ''<'' # tag @ CHR ''>'' # u @ c"
    using t(2,3) n(3) by (simp add: cstr_append c_def cstr_NUL_free)
  have h: "strchr ?t CHR ''>'' = Some (length tag + 1)"
    unfolding strchr_Some [of "CHR ''>''", simplified] ct using t(1) by (auto simp: nth_Cons' nth_append in_set_conv_nth)
  have at: "?t ! length tag = last tag" using \<open>tag \<noteq> []\<close> by (simp add: nth_Cons' nth_append last_conv_nth)
  have nm: "tag_name ?t = n"
  proof -
    have "x \<noteq> NUL \<and> x \<noteq> CHR '' '' \<and> x \<noteq> CHR ''>''" if "x \<in> set n" for x using that t(1-3) n(1) by auto
    then show ?thesis using n(2) by (simp add: tag_name_def t(3))
  qed
  have cl: "snprintf 40 ''</%s>'' [VStr n] = c"
    using t(2,3) n(2) by (simp add: c_def snprintf_truncates ptr_free_eval render.simps length_modifier_def convert_full_def va_next_def cstr_NUL_free)
  have st: "strstr (u @ c @ NUL # r) c = Some (length u)"
    using t n by (intro strstr_behind) (auto simp: c_def butlast_append)
  have cu: "cstr (u @ c @ NUL # r) = u @ c" using t(2,3) n(3) by (simp add: cstr_append c_def)
  have dr: "drop (length tag + 2) ?t = u @ c @ NUL # r" by simp
  show ?thesis using h at t(4) nm cl st dr l
    by (intro exI [of _ "strncpy_term (st_payload s) (u @ c @ NUL # r) (length u)"])
      (simp add: set_payload_def Let_def cstr_strncpy_term cu)
qed

lemma guess_xmlns_message:
  "st_type s = XMPP_MESSAGE \<Longrightarrow> cstr (st_xmlns s) \<noteq> [] \<Longrightarrow> guess_xmlns temp s = s"
  by (simp add: guess_xmlns_def deref_eq_NUL)

subsection \<open>A message from its text to the stanza\<close>

definition message_payload :: "xml list \<Rightarrow> string" where
  "message_payload cs = ''<body>'' @ concat (map print_xml cs) @ ''</body>''"

definition message_xml :: "string \<Rightarrow> string \<Rightarrow> xml list \<Rightarrow> xml" where
  "message_xml dest mid cs = Node (message_tag dest mid) [Node ''body'' cs ''body''] ''message''"

definition address_ok :: "string \<Rightarrow> bool" where
  "address_ok v \<longleftrightarrow> list_all value_char v \<and> CHR ''>'' \<notin> set v \<and> length v < 64"

definition message_ok :: "string \<Rightarrow> string \<Rightarrow> xml list \<Rightarrow> bool" where
  "message_ok dest mid cs \<longleftrightarrow> address_ok dest \<and> address_ok mid \<and> list_all xml_ok cs \<and>
     NUL \<notin> set (message_payload cs) \<and> \<not> sublist ''</message>'' (message_payload cs)"

lemma print_message:
  "print_xml (message_xml dest mid cs) =
     CHR ''<'' # message_tag dest mid @ CHR ''>'' # message_payload cs @ ''</message>''"
  by (simp add: message_xml_def message_payload_def)

lemma address_NUL: "address_ok v \<Longrightarrow> NUL \<notin> set v"
  by (auto simp: address_ok_def value_char_def plain_def list_all_iff)

lemma message_tag_chars:
  assumes "address_ok dest" "address_ok mid"
  shows "CHR ''>'' \<notin> set (message_tag dest mid)" "NUL \<notin> set (message_tag dest mid)" "last (message_tag dest mid) \<noteq> CHR ''/''"
  using assms address_NUL by (auto simp: message_tag_def address_ok_def)

lemma message_xml_ok: "message_ok dest mid cs \<Longrightarrow> xml_ok (message_xml dest mid cs) \<and> is_element (message_xml dest mid cs)"
  using message_tag_chars [of dest mid]
  by (auto simp: message_ok_def message_xml_def tag_name_ok_def) (simp_all add: message_tag_def)

lemma message_temp:
  "length t \<le> 1023 \<Longrightarrow> \<exists>r. poke (memcpy (uninit 1024 e) t (length t)) (length t) NUL = t @ NUL # r"
  by (simp add: memcpy_eq poke_def)

lemma fill_message:
  assumes m: "message_ok dest mid cs" and l: "length (print_xml (message_xml dest mid cs)) \<le> 1023"
    and s: "s = zero_stanza\<lparr>st_is_used := True\<rparr>"
  shows "\<exists>s'. fill_stanza (print_xml (message_xml dest mid cs)) e s = Some s' \<and> st_type s' = XMPP_MESSAGE \<and>
    cstr (st_to s') = dest \<and> cstr (st_id s') = mid \<and> cstr (st_from s') = [] \<and> cstr (st_xmlns s') = ''jabber:client'' \<and>
    cstr (st_payload s') = message_payload cs"
proof -
  let ?t = "print_xml (message_xml dest mid cs)" and ?r = "concat (map print_xml cs) @ ''</body></message>''"
  have a: "address_ok dest" "address_ok mid" using m by (simp_all add: message_ok_def)
  have t: "?t = CHR ''<'' # message_tag dest mid @ ''><body>'' @ ?r" by (simp add: print_message message_payload_def)
  obtain q b c where q: "parse_loop ?t (parse_start (yxml_init (uninit 1024 e) 1024) s) = parse_loop ?r q"
    "in_content q" "\<not> p_is_iq q" "\<not> p_is_pres q" "cstr b = dest" "cstr c = mid"
    "p_s q = (set_xmlns ''jabber:client'' (s\<lparr>st_type := XMPP_MESSAGE\<rparr>))\<lparr>st_to := b, st_id := c\<rparr>"
    unfolding t using message_head [of "uninit 1024 e" s dest mid ?r] a by (auto simp: s zero_stanza_def address_ok_def)
  obtain p where p: "parse_loop ?r q = Some p"
    using fill_stanza_defined [OF l, of e s] q(1) by (cases "parse_loop ?r q") (simp_all add: fill_stanza_def)
  have "same_head q p" by (rule content_loop [OF p q(2)])
  then have h: "p_s p = p_s q" "p_is_iq p = p_is_iq q" "p_is_pres p = p_is_pres q"
    by (auto simp: same_head_def dest: arg_cong [of _ _ p_s] arg_cong [of _ _ p_is_iq] arg_cong [of _ _ p_is_pres])
  obtain r where r: "poke (memcpy (uninit 1024 e) ?t (length ?t)) (length ?t) NUL = ?t @ NUL # r"
    by (rule exE [OF message_temp [OF l]])
  let ?s = "p_s q"
  have ty: "set_type p = ?s" using h q(3,4) by (simp add: set_type_def)
  have gx: "guess_xmlns (?t @ NUL # r) ?s = ?s"
    by (rule guess_xmlns_message) (simp_all add: q(7) cstr_strcpy del: strcpy.simps)
  obtain d where d: "cstr d = message_payload cs" "set_payload (?t @ NUL # r) (length ?t) ?s = ?s\<lparr>st_payload := d\<rparr>"
  proof -
    have tag: "message_tag dest mid = ''message'' @ CHR '' '' # (''to='' @ APOS # dest @ APOS # '' id='' @ APOS # mid @ [APOS])"
      by (simp add: message_tag_def)
    have pl: "message_payload cs \<noteq> []" "last (message_payload cs) = CHR ''>''" by (simp_all add: message_payload_def)
    have pf: "\<not> sublist (''</'' @ ''message'' @ ''>'') (message_payload cs)" "NUL \<notin> set (message_payload cs)"
      "length (message_payload cs) < 4096" "length (message_tag dest mid) + 2 < length ?t"
      using m l by (simp_all add: message_ok_def print_message)
    have b: "buf 4096 (st_payload ?s)" by (simp add: q(7) s zero_stanza_def)
    have "?t @ NUL # r = CHR ''<'' # message_tag dest mid @ CHR ''>'' # message_payload cs @ (''</'' @ ''message'' @ ''>'') @ NUL # r"
      by (simp add: print_message)
    then show ?thesis
      using that payload_cut [OF message_tag_chars(1,2) [OF a] tag message_tag_chars(3) [OF a] _ _ pf(2) pl pf(1,3) b pf(4), of r]
      by auto
  qed
  have "fill_stanza ?t e s = Some (?s\<lparr>st_payload := d\<rparr>)"
  proof -
    have "(if length ?t < 1023 then length ?t else 1023) = length ?t" using l by simp
    then show ?thesis using q(1) p r ty gx d(2) by (simp only: fill_stanza_def Let_def Option.bind.bind_lunit)
  qed
  moreover have "cstr (st_from ?s) = []" "cstr (st_xmlns ?s) = ''jabber:client''" "st_type ?s = XMPP_MESSAGE"
    "cstr (st_to ?s) = dest" "cstr (st_id ?s) = mid"
    using q(5,6) by (simp_all add: q(7) s zero_stanza_def cstr_strcpy del: strcpy.simps)
  ultimately show ?thesis using d(1) by simp
qed

lemma parse_message:
  assumes m: "message_ok dest mid cs" and t: "text = print_xml (message_xml dest mid cs)" "length text \<le> 1023"
    and r: "NUL \<notin> set rest" and a: "xmpp_alloc_stanza (stanza_pool w) = Some (i, pool)" "length pool = 16"
    and b: "take len buffer = text @ rest" "len = length text + length rest"
  shows "\<exists>s. parse_xml_stream has_sse42 buffer len w =
      Some (Some i, length text, None, w\<lparr>stanza_pool := pool[i := s]\<rparr>) \<and>
    st_type s = XMPP_MESSAGE \<and> cstr (st_to s) = dest \<and> cstr (st_id s) = mid \<and> cstr (st_from s) = [] \<and>
    cstr (st_xmlns s) = ''jabber:client'' \<and> cstr (st_payload s) = message_payload cs"
proof -
  have head: "text = CHR ''<'' # message_tag dest mid @ CHR ''>'' # message_payload cs @ ''</message>''"
    using t(1) by (simp add: print_message)
  have "NUL \<notin> set text" using m message_tag_chars(2) [of dest mid] unfolding head by (simp add: message_ok_def)
  then have e: "find_stanza_end_dispatch has_sse42 (text @ rest) = int (length text)"
    using element_end [of "message_xml dest mid cs" rest has_sse42] message_xml_ok [OF m] r t(1) by simp
  have i: "pool ! i = zero_stanza\<lparr>st_is_used := True\<rparr>"
    using a by (auto simp: xmpp_alloc_stanza_def first_index_Some split: option.splits)
  obtain s where s: "fill_stanza text (env w) (pool ! i) = Some s" "st_type s = XMPP_MESSAGE" "cstr (st_to s) = dest"
    "cstr (st_id s) = mid" "cstr (st_from s) = []" "cstr (st_xmlns s) = ''jabber:client''" "cstr (st_payload s) = message_payload cs"
    using fill_message [OF m _ i, of "env w"] t by blast
  have o: "length (takeWhile is_xml_space (text @ rest)) = 0" "4 \<le> length text" "text \<noteq> []" by (simp_all add: head is_xml_space_def)
  then have "parse_xml_stream has_sse42 buffer len w =
      Some (Some i, length text, None, w\<lparr>stanza_pool := pool[i := s]\<rparr>)"
    using e a(1) s(1) b by (simp add: parse_xml_stream_def Let_def)
  with s show ?thesis by blast
qed



end
