(* ===== verification/Spec2Isabelle.thy ===== *)
theory Spec2Isabelle
  imports Server Vmm Ata Ahci Stanza_Text
begin

text \<open>
  A verification development of AngelicKernel, a unikernel that boots on bare x86-64 hardware and
  runs one program, an XMPP server with TLS, multi-user chat and stores on a raw disk.

  \<^bold>\<open>Parts and how they interact.\<close>  The kernel builds its page tables, closes the network driver off with
  a protection key and starts the server.  lwIP delivers TCP data to \<open>xmpp_recv_callback\<close>, which
  passes it through the TLS glue into the receive buffer of the client, frames and parses stanzas, and
  routes them to handlers.  The handlers read and change the client registry, the rooms and the
  stores, answer through \<open>send_raw\<close>, and save the changed store to the disk.

  \<^bold>\<open>Conventions.\<close>  An array of characters is a list of characters, a pointer into it is a suffix, and
  \<open>cstr\<close> reads the string up to its terminator.  C structures are records with the fields of the
  source behind a prefix (\<open>cl_\<close> client, \<open>st_\<close> stanza, \<open>rm_\<close> room, \<open>y_\<close> tokenizer).  The static
  arrays of the server are the fields of \<open>world\<close>; a handler is a function from the index of its
  client and a stanza to a change of the world.  Local arrays without an initialiser get their
  contents from \<open>uninit\<close>, so nothing can depend on them by accident.  An access of the tokenizer
  outside its stack is the result \<open>None\<close>, which \<open>recv_state\<close> carries on as \<open>Undefined\<close>.

  \<^bold>\<open>Base.\<close>
  \<^item> \<open>Prelude\<close>: counted loops, first-index searches, arrays of records, the named collections
    \<open>buf_simps\<close> and \<open>cstr_simps\<close>, generic list lemmas.
  \<^item> \<open>Libc\<close>: the string and memory routines of \<^verbatim>\<open>src/src/net/libc_glue.c\<close>; a closed form for each
    loop.  \<open>Printf\<close>: its \<open>vsnprintf\<close>, against \<open>render\<close>, a reference without a size limit.
    \<open>Rng\<close>: its random numbers, which never reach the absorbing state.
  \<^item> \<open>Xmpp_Types\<close>: the structures of \<^verbatim>\<open>src/src/xmpp/xmpp_core.h\<close>, the environment, the world and its
    memory-safety invariant \<open>world_ok\<close>.  \<open>Stanza_Pool\<close>: \<^verbatim>\<open>src/src/xmpp/xmpp_memory.c\<close> as an
    instance of the locale \<open>slot_pool\<close>.

  \<^bold>\<open>Storage.\<close>
  \<^item> \<open>Disk\<close>: \<^verbatim>\<open>src/src/drivers/disk.c\<close> over a scripted medium.  \<open>Ata\<close>:
    \<^verbatim>\<open>src/src/drivers/ata.c\<close> over ports whose device is any function of the access history; a transfer
    that reports success has moved the right words.  \<open>Ahci\<close>: \<^verbatim>\<open>src/src/drivers/ahci.c\<close> over a
    controller that is any function of the history of register accesses and of the command
    structures; a write that reports success has issued the right commands in the right order.
  \<^item> \<open>Persist\<close>: \<^verbatim>\<open>src/src/xmpp/xmpp_persist.c\<close>.  Memory and disk stay in agreement under every save,
    the next boot restores what was saved, a damaged byte is detected, a torn save loses everything.
  \<^item> \<open>Store\<close> and \<open>Subs\<close>: the stores of \<^verbatim>\<open>src/src/xmpp/xmpp_store.c\<close> and the pending subscriptions,
    with the locales \<open>slot_table\<close> and \<open>mailbox\<close> for what they have in common.

  \<^bold>\<open>From bytes to stanzas.\<close>
  \<^item> \<open>Scan\<close>: the three scans of \<^verbatim>\<open>src/src/xmpp/yxml_sse.c\<close>; they agree and frame a well-formed
    element exactly.
  \<^item> \<open>Yxml\<close> and \<open>Yxml_Stack\<close>: the tokenizer \<^verbatim>\<open>src/src/xmpp/yxml.c\<close>, one definition per state, and the
    proof that input of at most 1023 bytes keeps it inside its stack.
  \<^item> \<open>Parser\<close>: \<^verbatim>\<open>src/src/xmpp/xmpp_parser.c\<close>; bounds for 1023 bytes, and the overrun beyond them.
    \<open>Stanza_Text\<close>: a message is parsed back to what was printed; the locale \<open>stanza_field\<close> reads
    one attribute and is interpreted for the three address fields of a stanza.
  \<^item> \<open>Tls\<close>: the glue \<^verbatim>\<open>src/src/xmpp/xmpp_tls.c\<close>; the staging buffer is a queue, and no behaviour of
    mbedTLS leaves the buffers.  \<open>Sm\<close>: \<open>send_raw\<close> and \<^verbatim>\<open>src/src/xmpp/xmpp_sm.c\<close>.

  \<^bold>\<open>Handlers\<close>, all of \<^verbatim>\<open>src/src/xmpp/xmpp_handlers.c\<close>.
  \<^item> \<open>Base64\<close> and \<open>Sasl\<close>: decoding inverts encoding; who is let in, and the mechanism that lets
    everybody in.  \<open>Iq\<close>: bind, discovery and the small queries.  \<open>Private\<close>: private storage.
  \<^item> \<open>Roster\<close> and \<open>Presence\<close>: rosters, initial presence, subscriptions as a state machine, probes
    and broadcasts.  \<open>Muc\<close> and \<open>Chat\<close>: rooms, group messages, direct messages.
  \<^item> Each handler keeps \<open>world_ok\<close> (collection \<open>handler_ok\<close>).  \<open>Session\<close>: the locale
    \<open>connection_property\<close> states what a property of the registry needs to survive every handler;
    its interpretation gives that no handler logs a client in behind SASL's back.

  \<^bold>\<open>The server.\<close>
  \<^item> \<open>Router\<close>: stream negotiation and \<^verbatim>\<open>src/src/xmpp/xmpp_router.c\<close>; without a session no stanza has
    an effect on others.
  \<^item> \<open>Server\<close>: the callbacks of \<^verbatim>\<open>src/src/xmpp/xmpp_server.c\<close> and the polling of
    \<^verbatim>\<open>src/src/kernel.c\<close> as the steps of a run.  The receive callback terminates in every reachable
    state, and the invariant \<open>server_ok\<close> holds in all of them: memory is in order, no stanza leaks,
    and a session was preceded by a login over TLS (collection \<open>sound_intro\<close>).
  \<^item> This theory: a message in the receive buffer of one client is sent to the sessions of another,
    through framing, tokenizer, parser, router and handler.

  \<^bold>\<open>The machine.\<close>
  \<^item> \<open>Vmm\<close>: \<^verbatim>\<open>src/src/mm/pmm.c\<close>, \<^verbatim>\<open>src/src/mm/vmm.c\<close> and the gates of \<^verbatim>\<open>src/src/arch/mpk.asm\<close>.  The
    page tables are a tree that the walk of the processor reads; the boot sequence gives an identity
    map in which exactly the pages of the driver are closed to data accesses outside the gates.

  \<^bold>\<open>Bounds and fuel.\<close>  Counted loops keep the counts of the source: 0x10000000 polls of a drive,
  1048576 pages of the identity map, the sizes of all arrays.  Loops without a count are
  \<open>partial_function (option)\<close> or \<open>while_option\<close>, and the theorems show that they return.  The 2567 pages asked of the
  memory map are the 2054 tables of the identity map and the 512 pages that the lower limit of 2 MiB
  may cut off the segment, and one page that the allocator never hands out.

  \<^bold>\<open>Assumed.\<close>  lwIP, mbedTLS, the firmware, the disk behind \<open>disk.c\<close> and the devices are not part of
  the sources; their results are scripts in the environment of the model or arbitrary functions, and
  the theorems hold for all of them.  The linker places the sections of the driver on page boundaries.

  \<^bold>\<open>Not modelled.\<close>  The PCI search for the network card, its descriptor rings and the lwIP port only
  carry frames between the card and lwIP; what the server sees of them is in the environment.  Interrupt entry saves registers and sets a flag.  Console output, diagnostics,
  benchmarks and the boot calls into the firmware have no effect on the modelled state.  The key and
  certificate setup of TLS is a sequence of mbedTLS calls.  Instruction fetches are not subject to
  protection keys, so the isolation theorem speaks of data accesses.
\<close>

subsection \<open>A message from one client to another\<close>

definition unread :: "xmpp_client_ctx_t \<Rightarrow> string" where
  "unread c = take (cl_rx_pos c) (cl_rx_buffer c)"

definition chat_xml :: "string \<Rightarrow> string \<Rightarrow> xml list \<Rightarrow> string" where
  "chat_xml sender dest cs =
     ''<message from='' @ APOS # sender @ APOS # '' to='' @ APOS # dest @ APOS # '' type='' @ APOS # ''chat'' @ APOS # CHR ''>'' #
     message_payload cs @ ''</message>''"

definition sessions_at :: "string \<Rightarrow> world \<Rightarrow> nat list" where
  "sessions_at dest w = filter (\<lambda>i. in_session (client w i) \<and> bare (cstr (cl_full_jid (client w i))) = bare dest) [0..<MAX_USERS]"

lemma rx_consume_unread:
  "cl_rx_pos c < length (cl_rx_buffer c) \<Longrightarrow> n \<le> cl_rx_pos c \<Longrightarrow> unread (rx_consume n c) = drop n (unread c)"
  by (simp add: unread_def rx_consume_def Let_def poke_def memmove_eq drop_take)

lemma not_space_head: "unread c = CHR ''<'' # r \<Longrightarrow> skip_space c = c"
  by (simp add: skip_space_def unread_def Server.is_space_def)

lemma no_sm_element:
  assumes "take n b = CHR ''<'' # CHR ''m'' # r" "cl_rx_buffer c = b"
  shows "xmpp_sm_handle_element (c, e) = (False, (c, e))"
proof -
  obtain b' where "b = CHR ''<'' # CHR ''m'' # b'"
    using assms(1) by (metis append_take_drop_id append_Cons)
  then show ?thesis
    using assms(2) by (simp add: xmpp_sm_handle_element_def sm_handle_enable_def sm_handle_request_def sm_handle_answer_def Let_def numeral_eq_Suc)
qed

lemma chat_text_xml:
  assumes "buf 64 (cl_full_jid c)" "cstr (st_to st) = dest" "length dest < 64" "cstr (st_payload st) = message_payload cs"
    "length (message_payload cs) \<le> 1023"
  shows "cstr (chat_text st c) = chat_xml (cstr (cl_full_jid c)) dest cs"
proof -
  have w: "already_wrapped st"
    using assms(4) by (cases "st_payload st") (auto simp: already_wrapped_def message_payload_def split: if_splits)
  have l: "length (cstr (cl_full_jid c)) < 64" by (rule buf_length_cstr [OF assms(1)])
  have n: "NUL \<notin> set (cstr (cl_full_jid c))" "NUL \<notin> set dest" "NUL \<notin> set (message_payload cs)"
    using assms(2,4) NUL_notin_cstr by metis+
  have "chat_text st c = chat_xml (cstr (cl_full_jid c)) dest cs"
    using w l assms by (simp add: chat_text_def chat_fmt_def chat_xml_def snprintf_truncates ptr_free_eval render_eval
        length_modifier_def convert_full_def va_next_def)
  then show ?thesis using n by (simp add: cstr_NUL_free chat_xml_def)
qed

lemma client_route_message:
  assumes "cstr (st_xmlns s) = ''jabber:client''" "st_type s = XMPP_MESSAGE" "\<not> cl_state (client w ctx) < STATE_SESSION"
  shows "route_dispatch ctx s w = handle_chat_message ctx s w"
proof -
  have "\<not> sublist ''stream'' ''jabber:client''" by code_simp
  then have "strstr (st_xmlns s) ''stream'' = None" by (simp add: strstr_None assms(1) cstr_NUL_free)
  then show ?thesis using assms by (simp add: route_dispatch_def route_by_type_def router_def strcmp_eq_0)
qed

lemma deliver_direct:
  assumes "sessions_at dest w \<noteq> []" "cstr (st_to s) = dest" "\<not> sublist ''conference.angelic.local'' dest"
  shows "sent_only w (handle_chat_message ctx s w) \<and>
    outbox (env (handle_chat_message ctx s w)) =
      outbox (env w) @ map (\<lambda>i. (cl_pcb (client w i), cstr (chat_text s (client w ctx)))) (sessions_at dest w)"
proof -
  have to: "filter (\<lambda>i. addressed s (client w i)) [0..<20] = sessions_at dest w"
    using assms(2) by (auto simp: sessions_at_def addressed_def strcmp_eq_0 cstr_bare_buf intro: filter_cong)
  have "handle_chat_message ctx s w = fst (deliver s (chat_text s (client w ctx)) w)"
    using assms deliver_spec(3) [where st = s and w = w and m = "chat_text s (client w ctx)", unfolded to]
    by (simp add: handle_chat_message_def direct_message_def strstr_None cstr_NUL_free case_prod_beta Let_def)
  then show ?thesis using deliver_spec(1,2) [where st = s and w = w and m = "chat_text s (client w ctx)", unfolded to] by simp
qed

lemma session_round:
  assumes s: "\<not> cl_state (client w ctx) < STATE_SESSION" and u: "unread (client w ctx) = CHR ''<'' # CHR ''m'' # r"
    and ctx: "ctx < length (client_registry w)"
  shows "recv_round h ctx pcb w = recv_stanza h ctx pcb w"
proof -
  have k: "upd_client ctx skip_space w = w" using not_space_head [OF u] ctx by (simp add: upd_client_def)
  have n: "xmpp_sm_handle_element (client w ctx, e) = (False, (client w ctx, e))" for e
    using no_sm_element [OF u [unfolded unread_def]] by simp
  obtain b where b: "cl_rx_buffer (client w ctx) = CHR ''<'' # CHR ''m'' # b"
    using u unfolding unread_def by (metis append_take_drop_id append_Cons)
  have p: "cl_rx_pos (client w ctx) \<noteq> 0" using u by (intro notI) (simp add: unread_def)
  have st: "cl_state (client w ctx) \<notin> {STATE_CONNECTED, STATE_AUTHENTICATED, STATE_SASL}" using s by (auto simp: less_client_state_t_def less_eq_client_state_t_def)
  have "on_client ctx (\<lambda>x. snd (xmpp_sm_handle_element x)) w = w" using n ctx by (simp add: on_client_def upd_client_def)
  then show ?thesis using k n p s st by (simp add: recv_round_def recv_element_def Let_def b numeral_eq_Suc)
qed

text \<open>What the receive loop does after the handler: count the stanza, free it, drop its text.\<close>

definition finish_stanza :: "nat \<Rightarrow> nat \<Rightarrow> world \<Rightarrow> world" where
  "finish_stanza ctx n w =
     (let v = upd_client ctx xmpp_sm_on_stanza_received w
      in upd_client ctx (rx_consume n) (v\<lparr>stanza_pool := xmpp_free_stanza (Some 0) (stanza_pool v)\<rparr>))"

lemma finish_stanza_sel [simp]:
  "env (finish_stanza ctx n w) = env w" "offline_store (finish_stanza ctx n w) = offline_store w"
  "rooms (finish_stanza ctx n w) = rooms w" "roster_store (finish_stanza ctx n w) = roster_store w"
  by (simp_all add: finish_stanza_def Let_def upd_client_def)

lemma finish_stanza_unread:
  assumes f: "sent_only (w\<lparr>stanza_pool := p\<rparr>) v" and ctx: "ctx < length (client_registry w)"
    and n: "n \<le> cl_rx_pos (client w ctx)" "cl_rx_pos (client w ctx) < length (cl_rx_buffer (client w ctx))"
  shows "unread (client (finish_stanza ctx n v) i) = (if i = ctx then drop n (unread (client w ctx)) else unread (client w i))"
proof -
  define c where "c = xmpp_sm_on_stanza_received (client v ctx)"
  have g: "cl_rx_buffer (client v i) = cl_rx_buffer (client w i)" "cl_rx_pos (client v i) = cl_rx_pos (client w i)" for i
    using send_frame_sel(6,7) [OF sent_only_sel(11) [OF f, of i]] by simp_all
  then have c: "cl_rx_buffer c = cl_rx_buffer (client w ctx)" "cl_rx_pos c = cl_rx_pos (client w ctx)"
    by (simp_all add: c_def xmpp_sm_on_stanza_received_def)
  then have "unread (rx_consume n c) = drop n (unread (client w ctx))"
    using n rx_consume_unread [of c n] by (simp add: unread_def)
  moreover have "ctx < length (client_registry v)" using ctx sent_only_sel(10) [OF f] by simp
  ultimately show ?thesis
    using g by (simp add: finish_stanza_def Let_def upd_client_def nth_list_update unread_def c_def)
qed

lemma finish_stanza_pool:
  assumes f: "sent_only (w\<lparr>stanza_pool := (stanza_pool w)[0 := y]\<rparr>) v" and "server_ok w"
  shows "pool_used (stanza_pool (finish_stanza ctx n v)) = {}"
proof -
  have "\<not> st_is_used (stanza_pool w ! i)" if "i < length (stanza_pool w)" for i
    using assms(2) that by (auto simp: server_ok_def list_all_length)
  moreover have "length (stanza_pool w) = 16" using assms(2) by (simp add: server_ok_def world_ok_lengths)
  ultimately show ?thesis using sent_only_sel(8) [OF f]
    by (auto simp: finish_stanza_def Let_def upd_client_def pool_used_def xmpp_free_stanza_def nth_list_update split: if_splits)
qed

lemma handle_message:
  assumes "st_type y = XMPP_MESSAGE" "cstr (st_xmlns y) = ''jabber:client''" "y = stamp_from (client w ctx) x"
    "0 < length (stanza_pool w)" "\<not> cl_state (client w ctx) < STATE_SESSION"
  shows "handle_stanza ctx 0 (w\<lparr>stanza_pool := (stanza_pool w)[0 := x]\<rparr>) =
    upd_client ctx xmpp_sm_on_stanza_received (handle_chat_message ctx y (w\<lparr>stanza_pool := (stanza_pool w)[0 := y]\<rparr>))"
proof -
  have "cl_state (client w ctx) \<noteq> STATE_CONNECTED" "cl_state (client w ctx) \<noteq> STATE_SASL"
    using assms(5) by (auto simp: less_client_state_t_def less_eq_client_state_t_def)
  then show ?thesis
    using assms client_route_message [OF assms(2,1), of "w\<lparr>stanza_pool := (stanza_pool w)[0 := y]\<rparr>" ctx]
    by (simp add: handle_stanza_def xmpp_route_stanza_def Let_def)
qed

lemma message_round:
  assumes w: "server_ok w" and c: "ctx < MAX_USERS" "\<not> cl_state (client w ctx) < STATE_SESSION"
    and m: "message_ok dest mid cs" and t: "text = print_xml (message_xml dest mid cs)" "length text \<le> 1023"
    and u: "unread (client w ctx) = text @ rest" "NUL \<notin> set rest"
  shows "\<exists>y. recv_round has_sse42 ctx pcb w = Running (finish_stanza ctx (length text)
      (handle_chat_message ctx y (w\<lparr>stanza_pool := (stanza_pool w)[0 := y]\<rparr>))) \<and>
    cstr (st_to y) = dest \<and> cstr (st_payload y) = message_payload cs"
proof -
  let ?c = "client w ctx" and ?n = "length text" and ?pool = "(stanza_pool w)[0 := zero_stanza\<lparr>st_is_used := True\<rparr>]"
  have len: "length (client_registry w) = 20" "length (stanza_pool w) = 16" and "client_ok ?c"
    using w c(1) by (auto simp: server_ok_def world_ok_client world_ok_lengths)
  then have "cl_rx_pos ?c < length (cl_rx_buffer ?c)" by (simp add: client_ok_def buf_def)
  then have pos: "cl_rx_pos ?c = ?n + length rest" using arg_cong [OF u(1), of length] by (simp add: unread_def)
  have "\<not> st_is_used (stanza_pool w ! 0)" using w len(2) by (auto simp: server_ok_def list_all_length)
  then have a: "xmpp_alloc_stanza (stanza_pool w) = Some (0, ?pool)" "length ?pool = 16"
    using len(2) by (simp_all add: xmpp_alloc_stanza_def first_index_Some [of _ _ 0, THEN iffD2])
  obtain x where x: "parse_xml_stream has_sse42 (cl_rx_buffer ?c) (cl_rx_pos ?c) w =
      Some (Some 0, ?n, None, w\<lparr>stanza_pool := ?pool[0 := x]\<rparr>)" "st_type x = XMPP_MESSAGE" "cstr (st_to x) = dest"
    "cstr (st_xmlns x) = ''jabber:client''" "cstr (st_payload x) = message_payload cs"
    using parse_message [OF m t u(2) a u(1) [unfolded unread_def] pos] by blast
  define y where "y = stamp_from ?c x"
  have y: "st_type y = XMPP_MESSAGE" "cstr (st_to y) = dest" "cstr (st_xmlns y) = ''jabber:client''" "cstr (st_payload y) = message_payload cs"
    using x by (simp_all add: y_def stamp_from_def)
  obtain r where "text = CHR ''<'' # CHR ''m'' # r" using t(1) by (simp add: print_message message_tag_def)
  then have "recv_round has_sse42 ctx pcb w = recv_stanza has_sse42 ctx pcb w" "0 < ?n"
    using session_round [OF c(2), of "r @ rest"] u(1) c(1) len(1) by simp_all
  then show ?thesis using x(1) handle_message [OF y(1,3) y_def _ c(2)] len(2) y
    by (intro exI [of _ y]) (simp add: recv_stanza_def finish_stanza_def Let_def)
qed


definition hello :: string where
  "hello = print_xml (message_xml ''bob@angelic.local'' ''m1'' [Text ''hi'']) @ ''<presence/>''"

definition hello_world :: world where
  "hello_world = upd_client 0 (rx_append hello) (users_world [(''al'', 7), (''bob'', 8)])"

lemma users_server_ok: "server_ok (users_world us)"
proof -
  have "secure (user_client u p)" "secure zero_client" for u p by (simp_all add: secure_def user_client_def zero_client_def state_order_defs)
  then have "list_all secure (client_registry (users_world us))"
    by (auto simp: users_world_def list_all_iff dest!: in_set_takeD)
  then show ?thesis using users_world_ok [of us] boot_server_ok [of no_disk] by (simp add: server_ok_def users_world_def)
qed

lemma hello_length: "length hello = 76"
  by (simp add: hello_def print_message message_tag_def message_payload_def)

lemma hello_clients:
  "client hello_world 0 = rx_append hello (user_client ''al'' 7)"
  "0 < i \<Longrightarrow> i < 20 \<Longrightarrow> client hello_world i = (if i = 1 then user_client ''bob'' 8 else zero_client)"
  by (auto simp: hello_world_def upd_client_def users_world_def nth_append nth_Cons split: nat.split)

lemma hello_server_ok: "server_ok hello_world"
proof -
  have "sound (rx_append hello c)" if "sound c" "cl_rx_pos c = 0" for c
    using that rx_append_ok [of c hello] conn_step_secure [of c "rx_append hello c"] hello_length by (simp add: sound_def)
  then show ?thesis
    unfolding hello_world_def by (intro server_ok_upd_client [OF users_server_ok]) (simp add: users_world_def user_client_def zero_client_def)
qed

lemma hello_unread: "unread (client hello_world 0) = hello"
  using hello_length
  by (simp add: hello_clients unread_def rx_append_def Let_def memcpy_at_eq poke_def user_client_def zero_client_def)

lemma hello_sessions: "sessions_at ''bob@angelic.local'' hello_world = [1]"
proof -
  have b: "bare ''bob@angelic.local'' = ''bob@angelic.local''" by (simp add: bare_def)
  have "in_session (client hello_world i) \<and> bare (cstr (cl_full_jid (client hello_world i))) = ''bob@angelic.local'' \<longleftrightarrow> i = 1"
    if "i < 20" for i
    using that by (cases "i = 0")
      (auto simp: hello_clients in_session_def user_client_def rx_append_def Let_def cstr_simps bare_def state_order_defs)
  then have "sessions_at ''bob@angelic.local'' hello_world = filter (\<lambda>i. i = 1) [0..<20]"
    unfolding sessions_at_def b by (intro filter_cong) auto
  then show ?thesis by (simp add: upt_rec)
qed


end
